(* ===== verification/Storm_Prelude.thy ===== *)
theory Storm_Prelude
  imports Main "HOL-Library.Word" "HOL-Library.Sublist" "HOL-Library.Char_ord"
    "HOL-Library.List_Lexorder"
begin

unbundle bit_operations_syntax

text \<open>
  Shared vocabulary of the development.

  \<^item> Machine integers: \<open>u8\<close>, \<open>u32\<close>, \<open>u64\<close> are the C++ types \<open>uint8_t\<close>, \<open>uint32_t\<close>,
    \<open>uint64_t\<close>; arithmetic on them wraps. A C++ \<open>char\<close> is Isabelle's 8-bit \<open>char\<close>;
    \<open>byte_of\<close> and \<open>char_of_byte\<close> convert between the two views of one byte.
  \<^item> The functions of \<open>ctype.h\<close> in the C locale, and the searches of \<open>std::string\<close> the sources
    call (\<open>find\<close>, \<open>find_first_of\<close>, \<open>rfind\<close>), with \<open>npos\<close> as \<open>None\<close>.
  \<^item> Generic lemmas on these, collected in \<open>storm_simps\<close> where automation should use them.
\<close>

named_theorems storm_simps "rewriting lemmas shared by the component proofs"

section \<open>Machine integers and bytes\<close>

type_synonym u8 = "8 word"
type_synonym u16 = "16 word"
type_synonym u32 = "32 word"
type_synonym u64 = "64 word"

definition byte_of :: "char \<Rightarrow> u8" where
  "byte_of c = word_of_nat (of_char c)"

definition char_of_byte :: "u8 \<Rightarrow> char" where
  "char_of_byte w = char_of (unat w)"

abbreviation chr_code :: "char \<Rightarrow> nat" where
  "chr_code c \<equiv> of_char c"

lemma unat_byte_of [simp]: "unat (byte_of c) = chr_code c"
  by (simp add: byte_of_def unat_of_nat)

lemma char_of_byte_of [simp]: "char_of_byte (byte_of c) = c"
  by (simp add: char_of_byte_def)

lemma byte_of_char_of_byte [simp]: "byte_of (char_of_byte w) = w"
proof (rule word_unat_eq_iff [THEN iffD2])
  have "unat w < 2 ^ LENGTH(8)" by (rule unsigned_less)
  then have "unat w < 256" by simp
  then show "unat (byte_of (char_of_byte w)) = unat w"
    by (simp add: char_of_byte_def)
qed

text \<open>Unsigned 32-bit arithmetic read as natural numbers, when nothing wraps.\<close>

lemma unat_u32_less [simp]: "unat (x :: u32) < 4294967296"
proof -
  have "unat x < 2 ^ LENGTH(32)" by (rule unsigned_less)
  then show ?thesis by simp
qed

lemma unat_add_u32:
  "unat x + unat y < 4294967296 \<Longrightarrow> unat (x + y :: u32) = unat x + unat y"
  by (simp add: unat_add_lem [THEN iffD1])

lemma unat_sub_u32: "unat y \<le> unat x \<Longrightarrow> unat (x - y :: u32) = unat x - unat y"
  by (simp add: unat_sub word_le_nat_alt)

lemma unat_of_nat_u32 [simp]: "n < 4294967296 \<Longrightarrow> unat (word_of_nat n :: u32) = n"
  by (simp add: unat_of_nat)

text \<open>A statement about every character holds as soon as it holds for the 256 codes.\<close>

lemma all_char_256: "(\<forall>c. P c) \<longleftrightarrow> list_all (\<lambda>n. P (char_of n)) [0..<256]"
proof
  assume "list_all (\<lambda>n. P (char_of n)) [0..<256]"
  then have all: "P (char_of n)" if "n < 256" for n :: nat
    using that by (auto simp: list_all_iff)
  show "\<forall>c. P c"
  proof
    fix c
    show "P c" using all [of "chr_code c"] by simp
  qed
qed (simp add: list_all_iff)

section \<open>Exceptions\<close>

text \<open>A function that may throw \<open>std::runtime_error(what)\<close> returns \<open>Inl what\<close> or \<open>Inr\<close> its result.\<close>

type_synonym 'a throws = "string + 'a"

section \<open>Characters: ctype.h in the C locale\<close>

definition isspace :: "char \<Rightarrow> bool" where
  "isspace c = (let n = chr_code c in n = 32 \<or> (9 \<le> n \<and> n \<le> 13))"

definition isdigit_c :: "char \<Rightarrow> bool" where
  "isdigit_c c = (let n = chr_code c in 48 \<le> n \<and> n \<le> 57)"

definition isxdigit_c :: "char \<Rightarrow> bool" where
  "isxdigit_c c = (let n = chr_code c in
     (48 \<le> n \<and> n \<le> 57) \<or> (65 \<le> n \<and> n \<le> 70) \<or> (97 \<le> n \<and> n \<le> 102))"

definition isprint_c :: "char \<Rightarrow> bool" where
  "isprint_c c = (let n = chr_code c in 32 \<le> n \<and> n \<le> 126)"

definition toupper_c :: "char \<Rightarrow> char" where
  "toupper_c c = (let n = chr_code c in if 97 \<le> n \<and> n \<le> 122 then char_of (n - 32) else c)"

definition tolower_c :: "char \<Rightarrow> char" where
  "tolower_c c = (let n = chr_code c in if 65 \<le> n \<and> n \<le> 90 then char_of (n + 32) else c)"

section \<open>Searches of std::string\<close>

primrec find_idx :: "('a \<Rightarrow> bool) \<Rightarrow> 'a list \<Rightarrow> nat option" where
  "find_idx P [] = None"
| "find_idx P (x # xs) = (if P x then Some 0 else map_option Suc (find_idx P xs))"

text \<open>\<open>s.find_first_of(sep, p)\<close> and \<open>s.find(c, p)\<close>: the least index not below \<open>p\<close>.\<close>

definition find_first_of :: "string \<Rightarrow> string \<Rightarrow> nat \<Rightarrow> nat option" where
  "find_first_of s sep p = map_option (\<lambda>i. p + i) (find_idx (\<lambda>c. c \<in> set sep) (drop p s))"

definition find_char :: "string \<Rightarrow> char \<Rightarrow> nat \<Rightarrow> nat option" where
  "find_char s c p = map_option (\<lambda>i. p + i) (find_idx (\<lambda>x. x = c) (drop p s))"

text \<open>\<open>s.rfind(c)\<close>: the last index that holds \<open>c\<close>.\<close>

definition rfind_char :: "string \<Rightarrow> char \<Rightarrow> nat option" where
  "rfind_char s c = map_option (\<lambda>i. length s - 1 - i) (find_idx (\<lambda>x. x = c) (rev s))"

text \<open>\<open>s.find(pat)\<close> for a string pattern.\<close>

primrec find_sub :: "string \<Rightarrow> string \<Rightarrow> nat option" where
  "find_sub pat [] = (if pat = [] then Some 0 else None)"
| "find_sub pat (c # s) = (if prefix pat (c # s) then Some 0 else map_option Suc (find_sub pat s))"

lemma find_idx_None [storm_simps]: "find_idx P xs = None \<longleftrightarrow> (\<forall>x \<in> set xs. \<not> P x)"
  by (induction xs) auto

lemma find_idx_Some [storm_simps]:
  "find_idx P xs = Some i \<longleftrightarrow>
     i < length xs \<and> P (xs ! i) \<and> (\<forall>j < i. \<not> P (xs ! j))"
proof (induction xs arbitrary: i)
  case (Cons x xs)
  show ?case
    by (cases i) (auto simp: Cons.IH less_Suc_eq_0_disj)
qed simp

lemma find_idx_append:
  "find_idx P (xs @ ys) =
     (case find_idx P xs of Some i \<Rightarrow> Some i | None \<Rightarrow> map_option (\<lambda>i. length xs + i) (find_idx P ys))"
  by (induction xs) (auto split: option.splits simp: option.map_comp comp_def option.map_ident_strong
      intro: option.map_cong)

lemma find_idx_takeWhile:
  "find_idx P xs = (let n = length (takeWhile (\<lambda>x. \<not> P x) xs) in
     if n < length xs then Some n else None)"
  by (induction xs) (auto simp: Let_def)

lemma find_idx_append_none:
  "\<forall>x \<in> set xs. \<not> P x \<Longrightarrow> find_idx P (xs @ y # ys) = (if P y then Some (length xs) else map_option (\<lambda>i. length xs + Suc i) (find_idx P ys))"
  by (auto simp: find_idx_append find_idx_None [THEN iffD2] option.map_comp comp_def)

lemma find_first_of_Some:
  assumes "find_first_of s sep p = Some q"
  shows "p \<le> q" and "q < length s" and "s ! q \<in> set sep"
    and "\<forall>j. p \<le> j \<longrightarrow> j < q \<longrightarrow> s ! j \<notin> set sep"
proof -
  from assms obtain i where i: "find_idx (\<lambda>c. c \<in> set sep) (drop p s) = Some i" and q: "q = p + i"
    by (auto simp: find_first_of_def)
  from i have len: "i < length (drop p s)" and hit: "drop p s ! i \<in> set sep"
    and low: "\<forall>j < i. drop p s ! j \<notin> set sep"
    by (auto simp: find_idx_Some)
  show "p \<le> q" using q by simp
  show "q < length s" using len q by simp
  show "s ! q \<in> set sep" using hit len q by simp
  show "\<forall>j. p \<le> j \<longrightarrow> j < q \<longrightarrow> s ! j \<notin> set sep"
  proof (intro allI impI)
    fix j assume "p \<le> j" "j < q"
    then have "j - p < i" using q by simp
    with low have "drop p s ! (j - p) \<notin> set sep" by blast
    then show "s ! j \<notin> set sep" using \<open>p \<le> j\<close> len q \<open>j < q\<close> by simp
  qed
qed

lemma find_sub_bound: "find_sub pat s = Some q \<Longrightarrow> q + length pat \<le> length s"
  by (induction s arbitrary: q) (auto split: if_splits dest: prefix_length_le)

lemma find_sub_Some: "find_sub pat s = Some q \<Longrightarrow> prefix pat (drop q s)"
  by (induction s arbitrary: q) (auto split: if_splits)

lemma find_sub_first: "find_sub pat s = Some q \<Longrightarrow> j < q \<Longrightarrow> \<not> prefix pat (drop j s)"
proof (induction s arbitrary: q j)
  case (Cons c s)
  show ?case
    using Cons.prems Cons.IH by (cases j) (auto split: if_splits)
qed (simp split: if_splits)

lemma find_sub_None: "find_sub pat s = None \<Longrightarrow> \<not> prefix pat (drop j s)"
proof (induction s arbitrary: j)
  case (Cons c s)
  show ?case
    using Cons.prems Cons.IH by (cases j) (auto split: if_splits)
qed (auto split: if_splits)

section \<open>Lists\<close>

lemma take_drop_add: "take m (drop n xs) @ take k (drop (n + m) xs) = take (m + k) (drop n xs)"
  using take_add [of m k "drop n xs"] by (simp add: add.commute)

lemma drop_eq_nth_Cons: "i < length xs \<Longrightarrow> drop i xs = xs ! i # drop (Suc i) xs"
  by (simp add: Cons_nth_drop_Suc)

end
