(* ===== verification/Std_Map.thy ===== *)
theory Std_Map
  imports Storm_Prelude
begin

text \<open>
  \<open>std::map\<close>: an ordered dictionary. The model is the in-order sequence of its entries, strictly
  sorted by key, because the sources iterate over such maps and print in that order.

  The locale \<open>dictionary\<close> is the interface the clients of a map rely on (a lookup after an
  update, after a deletion, and that both keep the representation invariant); it is interpreted
  on the sorted sequence, and the lemmas the clients need (the result of a run of assignments)
  are proved once in the locale.
\<close>

lemma map_of_rev_distinct: "distinct (map fst kvs) \<Longrightarrow> map_of (rev kvs) = map_of kvs"
  by (rule map_of_eqI) (auto simp: map_of_eq_Some_iff rev_map [symmetric] distinct_rev
      intro!: map_of_is_SomeI simp del: rev_map)

section \<open>The dictionary interface\<close>

locale dictionary =
  fixes empty :: "'m"
    and lookup :: "'m \<Rightarrow> 'k \<Rightarrow> 'v option"
    and update :: "'k \<Rightarrow> 'v \<Rightarrow> 'm \<Rightarrow> 'm"
    and delete :: "'k \<Rightarrow> 'm \<Rightarrow> 'm"
    and invar :: "'m \<Rightarrow> bool"
  assumes lookup_empty: "lookup empty = Map.empty"
    and lookup_update: "invar m \<Longrightarrow> lookup (update k v m) = (lookup m)(k \<mapsto> v)"
    and lookup_delete: "invar m \<Longrightarrow> lookup (delete k m) = (lookup m)(k := None)"
    and invar_empty: "invar empty"
    and invar_update: "invar m \<Longrightarrow> invar (update k v m)"
    and invar_delete: "invar m \<Longrightarrow> invar (delete k m)"
begin

lemma invar_updates: "invar m \<Longrightarrow> invar (fold (\<lambda>(k, v). update k v) kvs m)"
  by (induction kvs arbitrary: m) (auto simp: invar_update)

text \<open>A run of assignments: the last one to a key wins.\<close>

lemma lookup_updates:
  "invar m \<Longrightarrow> lookup (fold (\<lambda>(k, v). update k v) kvs m) = lookup m ++ map_of (rev kvs)"
proof (induction kvs arbitrary: m)
  case (Cons kv kvs)
  obtain k v where kv: "kv = (k, v)" by fastforce
  have "lookup (fold (\<lambda>(k, v). update k v) kvs (update k v m)) =
      (lookup m)(k \<mapsto> v) ++ map_of (rev kvs)"
    using Cons.IH [OF invar_update [OF Cons.prems]] unfolding lookup_update [OF Cons.prems] .
  then show ?case
    by (auto simp: kv map_add_def fun_eq_iff split: option.split)
qed simp

lemma lookup_updates_empty:
  "distinct (map fst kvs) \<Longrightarrow> lookup (fold (\<lambda>(k, v). update k v) kvs empty) = map_of kvs"
  by (simp add: lookup_updates invar_empty lookup_empty map_of_rev_distinct)

end

section \<open>The sorted sequence of entries\<close>

type_synonym ('k, 'v) std_map = "('k \<times> 'v) list"

text \<open>\<open>m[k] = v\<close>: overwrite the entry, or insert it at its place in the order.\<close>

fun sm_set :: "'k::linorder \<Rightarrow> 'v \<Rightarrow> ('k, 'v) std_map \<Rightarrow> ('k, 'v) std_map" where
  "sm_set k v [] = [(k, v)]"
| "sm_set k v ((k', v') # m) =
     (if k < k' then (k, v) # (k', v') # m
      else if k = k' then (k, v) # m
      else (k', v') # sm_set k v m)"

text \<open>\<open>m.find(k)\<close> (\<open>None\<close> for \<open>end()\<close>) and \<open>m.erase(k)\<close>.\<close>

definition sm_find :: "('k, 'v) std_map \<Rightarrow> 'k \<Rightarrow> 'v option" where
  "sm_find m = map_of m"

definition sm_erase :: "'k \<Rightarrow> ('k, 'v) std_map \<Rightarrow> ('k, 'v) std_map" where
  "sm_erase k m = filter (\<lambda>(k', v). k' \<noteq> k) m"

definition sm_wf :: "('k::linorder, 'v) std_map \<Rightarrow> bool" where
  "sm_wf m \<longleftrightarrow> sorted_wrt (<) (map fst m)"

lemma sm_set_keys: "fst ` set (sm_set k v m) = insert k (fst ` set m)"
  by (induction k v m rule: sm_set.induct) auto

lemma sm_find_set [simp]: "sm_find (sm_set k v m) = (sm_find m)(k \<mapsto> v)"
  unfolding sm_find_def
  by (induction k v m rule: sm_set.induct) (auto simp: fun_eq_iff)

lemma sm_find_erase [simp]: "sm_find (sm_erase k m) = (sm_find m)(k := None)"
  unfolding sm_find_def sm_erase_def
  by (induction m) (auto simp: fun_eq_iff)

lemma sm_wf_Nil [simp]: "sm_wf []"
  by (simp add: sm_wf_def)

lemma sm_wf_Cons: "sm_wf ((k, v) # m) \<longleftrightarrow> (\<forall>k' \<in> fst ` set m. k < k') \<and> sm_wf m"
  by (auto simp: sm_wf_def)

lemma sm_wf_set [simp, intro]: "sm_wf m \<Longrightarrow> sm_wf (sm_set k v m)"
proof (induction k v m rule: sm_set.induct)
  case (2 k v k' v' m)
  from "2.prems" have wf: "sm_wf m" and less: "\<forall>x \<in> fst ` set m. k' < x"
    by (auto simp: sm_wf_Cons)
  show ?case
  proof (cases "k \<le> k'")
    case True
    with wf less show ?thesis by (auto simp: sm_wf_Cons order.order_iff_strict)
  next
    case False
    with "2.IH" wf have "sm_wf (sm_set k v m)" by simp
    with False less have "sm_wf ((k', v') # sm_set k v m)" by (simp add: sm_wf_Cons sm_set_keys)
    with False show ?thesis by auto
  qed
qed (simp add: sm_wf_Cons)

lemma sm_wf_erase [simp, intro]: "sm_wf m \<Longrightarrow> sm_wf (sm_erase k m)"
  by (induction m) (auto simp: sm_erase_def sm_wf_Cons)

lemma sm_wf_distinct: "sm_wf m \<Longrightarrow> distinct (map fst m)"
  by (simp add: sm_wf_def strict_sorted_iff)

interpretation sm: dictionary "[]" sm_find sm_set sm_erase sm_wf
  by unfold_locales (simp_all add: sm_find_def [of "[]"])

text \<open>Two sorted sequences with the same lookups are the same sequence.\<close>

lemma sm_ext:
  assumes "sm_wf m" and "sm_wf m'" and "sm_find m = sm_find m'"
  shows "m = m'"
proof -
  have d: "distinct (map fst m)" "distinct (map fst m')"
    using assms by (simp_all add: sm_wf_distinct)
  have eq: "set m = set m'"
    using assms(3) d by (simp add: sm_find_def map_of_inject_set)
  show ?thesis
  proof (rule map_sorted_distinct_set_unique [where f = fst])
    show "inj_on fst (set m \<union> set m')"
      using d eq by (simp add: distinct_map)
    show "sorted (map fst m)" "sorted (map fst m')"
      using assms by (simp_all add: sm_wf_def strict_sorted_iff)
  qed (use d eq in simp_all)
qed

lemma sm_set_subset: "set (sm_set k v m) \<subseteq> insert (k, v) (set m)"
  by (induction k v m rule: sm_set.induct) (auto split: if_splits)

lemma ball_sm_set: "\<forall>e \<in> set m. P e \<Longrightarrow> P (k, v) \<Longrightarrow> \<forall>e \<in> set (sm_set k v m). P e"
  using sm_set_subset [of k v m] by blast

lemma sm_find_entry: "sm_find m k = Some v \<Longrightarrow> (k, v) \<in> set m"
  by (simp add: sm_find_def map_of_SomeD)

lemma sm_find_None: "sm_find m k = None \<longleftrightarrow> k \<notin> fst ` set m"
  by (simp add: sm_find_def map_of_eq_None_iff)

lemma sm_set_twice: "sm_wf m \<Longrightarrow> sm_set k x (sm_set k y m) = sm_set k x m"
  by (rule sm_ext) auto

lemma sm_set_same: "sm_wf m \<Longrightarrow> sm_find m k = Some v \<Longrightarrow> sm_set k v m = m"
  by (rule sm_ext) auto

end
