(* ===== verification/Util_Encode.thy ===== *)
theory Util_Encode
  imports Storm_Prelude
begin

text \<open>
  \<open>source/util/util_encode.cpp\<close>: hexadecimal, C-escape and URL encodings of byte strings. The
  loops over an index are recursions over the rest of the string; the look-ahead \<open>s[i + 1]\<close>
  is the head of that rest. The lemmas show that each decoder inverts its encoder on every
  byte string.
\<close>

section \<open>Hexadecimal\<close>

definition g_hexcode :: "char list" where
  "g_hexcode = ''0123456789abcdef''"

definition hexval :: "u8 \<Rightarrow> u8" where
  "hexval h = (if h \<ge> 97 then h - 97 + 10 else if h \<ge> 65 then h - 65 + 10 else h - 48)"

definition getHex :: "u8 \<Rightarrow> u8 \<Rightarrow> char" where
  "getHex hi lo = char_of_byte (push_bit 4 (hexval hi) OR hexval lo)"

definition hex_pair :: "char \<Rightarrow> string" where
  "hex_pair ch = (let c = byte_of ch in
     [g_hexcode ! unat (drop_bit 4 c), g_hexcode ! unat (c AND 15)])"

definition toHex :: "string \<Rightarrow> string" where
  "toHex s = concat (map hex_pair s)"

fun fromHex :: "string \<Rightarrow> string" where
  "fromHex (h # l # s) = getHex (byte_of h) (byte_of l) # fromHex s"
| "fromHex _ = []"

section \<open>C escapes\<close>

text \<open>The octal escape: \<open>c\<close> is its first digit; at most two more are taken, the third only
  while the value stays within a byte.\<close>

definition is_octal :: "char \<Rightarrow> bool" where
  "is_octal c = (let n = chr_code c in 48 \<le> n \<and> n \<le> 55)"

fun unescape_octal :: "char \<Rightarrow> string \<Rightarrow> u8 \<times> string" where
  "unescape_octal c s =
     (let val = byte_of c - 48 in
      case s of
        [] \<Rightarrow> (val, s)
      | d # s1 \<Rightarrow>
          if is_octal d then
            (let val = val * 8 + (byte_of d - 48) in
             case s1 of
               [] \<Rightarrow> (val, s1)
             | e # s2 \<Rightarrow>
                 if val \<le> 31 \<and> is_octal e then (val * 8 + (byte_of e - 48), s2) else (val, s1))
          else (val, s))"

text \<open>The value of one hexadecimal digit after \<open>tolower\<close>.\<close>

definition xdigit_val :: "char \<Rightarrow> u8" where
  "xdigit_val ch = (let c = byte_of (tolower_c ch) in if c \<ge> 97 then c - 97 + 10 else c - 48)"

text \<open>The \<open>\\x\<close> escape: what it appends and the rest of the input.\<close>

fun unescape_hex :: "string \<Rightarrow> string \<times> string" where
  "unescape_hex [] = ([CHR 0x5C, CHR ''x''], [])"
| "unescape_hex (h # s) =
     (if isxdigit_c h then
        (case s of
           [] \<Rightarrow> ([char_of_byte (xdigit_val h)], s)
         | l # s1 \<Rightarrow>
             if isxdigit_c l then ([char_of_byte (xdigit_val h * 16 + xdigit_val l)], s1)
             else ([char_of_byte (xdigit_val h)], s))
      else ([CHR 0x5C, CHR ''x''], h # s))"

lemma unescape_octal_length [termination_simp]:
  "(v, s') = unescape_octal c s \<Longrightarrow> length s' \<le> length s"
  by (auto simp: Let_def split: list.splits if_splits)

lemma unescape_hex_length [termination_simp]:
  "(v, s') = unescape_hex s \<Longrightarrow> length s' \<le> length s"
  by (cases s) (auto split: list.splits if_splits)

fun c_unescape :: "string \<Rightarrow> string" where
  "c_unescape [] = []"
| "c_unescape [a] = [a]"
| "c_unescape (a # c # s) =
     (if a \<noteq> CHR 0x5C then a # c_unescape (c # s)
      else if c = CHR ''a'' then CHR 0x07 # c_unescape s
      else if c = CHR ''b'' then CHR 0x08 # c_unescape s
      else if c = CHR ''f'' then CHR 0x0C # c_unescape s
      else if c = CHR ''n'' then CHR 0x0A # c_unescape s
      else if c = CHR ''r'' then CHR 0x0D # c_unescape s
      else if c = CHR ''t'' then CHR 0x09 # c_unescape s
      else if c = CHR ''v'' then CHR 0x0B # c_unescape s
      else if c = CHR 0x5C then CHR 0x5C # c_unescape s
      else if c = CHR 0x27 then CHR 0x27 # c_unescape s
      else if c = CHR 0x22 then CHR 0x22 # c_unescape s
      else if is_octal c then
        (case unescape_octal c s of (val, s') \<Rightarrow> char_of_byte val # c_unescape s')
      else if c = CHR ''x'' then
        (case unescape_hex s of (r, s') \<Rightarrow> r @ c_unescape s')
      else c # c_unescape s)"

definition c_escape_char :: "char \<Rightarrow> string" where
  "c_escape_char c =
     (if c = CHR 0x07 then [CHR 0x5C, CHR ''a'']
      else if c = CHR 0x08 then [CHR 0x5C, CHR ''b'']
      else if c = CHR 0x0C then [CHR 0x5C, CHR ''f'']
      else if c = CHR 0x0A then [CHR 0x5C, CHR ''n'']
      else if c = CHR 0x0D then [CHR 0x5C, CHR ''r'']
      else if c = CHR 0x09 then [CHR 0x5C, CHR ''t'']
      else if c = CHR 0x0B then [CHR 0x5C, CHR ''v'']
      else if c = CHR 0x5C then [CHR 0x5C, CHR 0x5C]
      else if c = CHR 0x27 then [CHR 0x5C, CHR 0x27]
      else if c = CHR 0x22 then [CHR 0x5C, CHR 0x22]
      else if isprint_c c \<or> byte_of c AND 0x80 \<noteq> 0 then [c]
      else [CHR 0x5C, CHR ''x''] @ hex_pair c)"

definition c_escape :: "string \<Rightarrow> string" where
  "c_escape s = concat (map c_escape_char s)"

section \<open>URL encodings\<close>

text \<open>\<open>char\<close> is signed: the comparisons \<open>c < '0'\<close> and \<open>c > 'z'\<close> are on the signed value.\<close>

definition schar :: "char \<Rightarrow> int" where
  "schar c = sint (byte_of c)"

definition url_unsafe :: "char \<Rightarrow> bool" where
  "url_unsafe c \<longleftrightarrow>
     (schar c < 48 \<and> c \<noteq> CHR ''-'' \<and> c \<noteq> CHR ''.'') \<or>
     (schar c < 65 \<and> schar c > 57) \<or>
     (schar c > 90 \<and> schar c < 97 \<and> c \<noteq> CHR ''_'') \<or>
     (schar c > 122)"

definition rawurl_unsafe :: "char \<Rightarrow> bool" where
  "rawurl_unsafe c \<longleftrightarrow>
     (schar c < 48 \<and> c \<noteq> CHR ''-'' \<and> c \<noteq> CHR ''.'') \<or>
     (schar c < 65 \<and> schar c > 57) \<or>
     (schar c > 90 \<and> schar c < 97 \<and> c \<noteq> CHR ''_'') \<or>
     (schar c > 122 \<and> c \<noteq> CHR ''~'')"

definition urlencode_char :: "char \<Rightarrow> string" where
  "urlencode_char c =
     (if c = CHR '' '' then ''+''
      else if url_unsafe c then CHR ''%'' # hex_pair c
      else [c])"

definition urlencode :: "string \<Rightarrow> string" where
  "urlencode s = concat (map urlencode_char s)"

fun urldecode :: "string \<Rightarrow> string" where
  "urldecode [] = []"
| "urldecode (c # s) =
     (if c = CHR ''+'' then CHR '' '' # urldecode s
      else
        (case s of
           h # l # s' \<Rightarrow>
             if c = CHR ''%'' \<and> isxdigit_c h \<and> isxdigit_c l
             then getHex (byte_of h) (byte_of l) # urldecode s'
             else c # urldecode s
         | _ \<Rightarrow> c # urldecode s))"

definition rawurlencode_char :: "char \<Rightarrow> string" where
  "rawurlencode_char c = (if rawurl_unsafe c then CHR ''%'' # hex_pair c else [c])"

definition rawurlencode :: "string \<Rightarrow> string" where
  "rawurlencode s = concat (map rawurlencode_char s)"

fun rawurldecode :: "string \<Rightarrow> string" where
  "rawurldecode [] = []"
| "rawurldecode (c # s) =
     (case s of
        h # l # s' \<Rightarrow>
          if c = CHR ''%'' \<and> isxdigit_c h \<and> isxdigit_c l
          then getHex (byte_of h) (byte_of l) # rawurldecode s'
          else c # rawurldecode s
      | _ \<Rightarrow> c # rawurldecode s)"

section \<open>One encoded byte\<close>

text \<open>The facts about one hexadecimal digit are evaluated on the sixteen digits.\<close>

lemma upto_16: "[0..<16::nat] = [0,1,2,3,4,5,6,7,8,9,10,11,12,13,14,15]"
  by (simp add: upt_rec)

lemma all_less_16: "(\<forall>k < 16. P k) \<longleftrightarrow> list_all P [0..<16::nat]"
  by (auto simp: list_all_iff)

lemma hex_digit_hexval: "k < 16 \<Longrightarrow> hexval (byte_of (g_hexcode ! k)) = word_of_nat k"
proof -
  have "\<forall>k < 16. hexval (byte_of (g_hexcode ! k)) = word_of_nat k"
    unfolding all_less_16 upto_16
    by (simp add: g_hexcode_def hexval_def byte_of_def)
  then show "k < 16 \<Longrightarrow> hexval (byte_of (g_hexcode ! k)) = word_of_nat k" by blast
qed

lemma hex_digit_xdigit: "k < 16 \<Longrightarrow> isxdigit_c (g_hexcode ! k)"
proof -
  have "\<forall>k < 16. isxdigit_c (g_hexcode ! k)"
    unfolding all_less_16 upto_16 by (simp add: g_hexcode_def isxdigit_c_def)
  then show "k < 16 \<Longrightarrow> isxdigit_c (g_hexcode ! k)" by blast
qed

lemma hex_digit_xdigit_val: "k < 16 \<Longrightarrow> xdigit_val (g_hexcode ! k) = word_of_nat k"
proof -
  have "\<forall>k < 16. xdigit_val (g_hexcode ! k) = word_of_nat k"
    unfolding all_less_16 upto_16
    by (simp add: g_hexcode_def xdigit_val_def tolower_c_def byte_of_def)
  then show "k < 16 \<Longrightarrow> xdigit_val (g_hexcode ! k) = word_of_nat k" by blast
qed

lemma hex_digit_safe: "k < 16 \<Longrightarrow> \<not> rawurl_unsafe (g_hexcode ! k)"
proof -
  have "\<forall>k < 16. \<not> rawurl_unsafe (g_hexcode ! k)"
    unfolding all_less_16 upto_16
    by (simp add: g_hexcode_def rawurl_unsafe_def schar_def byte_of_def)
  then show "k < 16 \<Longrightarrow> \<not> rawurl_unsafe (g_hexcode ! k)" by blast
qed

lemma unat_high_nibble: "unat (drop_bit 4 (w :: u8)) < 16"
proof -
  have "unat w < 2 ^ LENGTH(8)" by (rule unsigned_less)
  then show ?thesis by (simp add: unat_drop_bit_eq drop_bit_eq_div unat_div)
qed

lemma low_nibble_take: "w AND 15 = take_bit 4 (w :: u8)"
  by (simp add: take_bit_eq_mask mask_eq_exp_minus_1)

lemma low_nibble_mod: "w AND 15 = (w :: u8) mod 16"
  by (simp add: low_nibble_take take_bit_eq_mod)

lemma unat_low_nibble: "unat ((w :: u8) AND 15) < 16"
  by (simp add: low_nibble_mod unat_mod)

lemma nibbles_or: "push_bit 4 (drop_bit 4 w) OR (w AND 15) = (w :: u8)"
  by (rule bit_word_eqI) (auto simp: low_nibble_take bit_simps)

lemma nibbles_add: "drop_bit 4 w * 16 + (w AND 15) = (w :: u8)"
proof -
  have "w div 16 * 16 + w mod 16 = w" by (rule div_mult_mod_eq)
  then show ?thesis by (simp add: low_nibble_mod drop_bit_eq_div)
qed

lemma hex_pair_shape:
  obtains h l where "hex_pair c = [h, l]" and "isxdigit_c h" and "isxdigit_c l"
    and "getHex (byte_of h) (byte_of l) = c"
    and "xdigit_val h * 16 + xdigit_val l = byte_of c"
    and "\<not> rawurl_unsafe h" and "\<not> rawurl_unsafe l"
proof
  let ?hi = "unat (drop_bit 4 (byte_of c))" and ?lo = "unat (byte_of c AND 15)"
  let ?h = "g_hexcode ! ?hi" and ?l = "g_hexcode ! ?lo"
  note small = unat_high_nibble [of "byte_of c"] unat_low_nibble [of "byte_of c"]
  show "hex_pair c = [?h, ?l]" by (simp add: hex_pair_def Let_def)
  show "isxdigit_c ?h" "isxdigit_c ?l" "\<not> rawurl_unsafe ?h" "\<not> rawurl_unsafe ?l"
    using small by (simp_all add: hex_digit_xdigit hex_digit_safe)
  show "getHex (byte_of ?h) (byte_of ?l) = c"
    using small by (simp add: getHex_def hex_digit_hexval nibbles_or)
  show "xdigit_val ?h * 16 + xdigit_val ?l = byte_of c"
    using small by (simp add: hex_digit_xdigit_val nibbles_add)
qed

section \<open>Decoding one encoded byte in front of the rest\<close>

lemma rawurl_percent_unsafe: "rawurl_unsafe (CHR ''%'')" "url_unsafe (CHR ''%'')" "url_unsafe (CHR ''+'')"
  by (simp_all add: rawurl_unsafe_def url_unsafe_def schar_def byte_of_def)

lemma fromHex_hex_pair: "fromHex (hex_pair c @ s) = c # fromHex s"
  by (rule hex_pair_shape [of c]) simp

lemma rawurldecode_cons: "c \<noteq> CHR ''%'' \<Longrightarrow> rawurldecode (c # s) = c # rawurldecode s"
  by (auto split: list.split)

lemma rawurldecode_char: "rawurldecode (rawurlencode_char c @ s) = c # rawurldecode s"
proof (cases "rawurl_unsafe c")
  case True
  then show ?thesis
    by (auto simp: rawurlencode_char_def intro: hex_pair_shape [of c])
next
  case False
  then have "c \<noteq> CHR ''%''" using rawurl_percent_unsafe by auto
  then show ?thesis using False by (simp add: rawurlencode_char_def rawurldecode_cons del: rawurldecode.simps)
qed

lemma urldecode_cons:
  "c \<noteq> CHR ''%'' \<Longrightarrow> c \<noteq> CHR ''+'' \<Longrightarrow> urldecode (c # s) = c # urldecode s"
  by (auto split: list.split)

lemma urldecode_char: "urldecode (urlencode_char c @ s) = c # urldecode s"
proof (cases "c = CHR '' '' \<or> url_unsafe c")
  case True
  then show ?thesis
    by (auto simp: urlencode_char_def intro: hex_pair_shape [of c])
next
  case False
  then have "c \<noteq> CHR ''%''" "c \<noteq> CHR ''+''" using rawurl_percent_unsafe by auto
  then show ?thesis using False by (simp add: urlencode_char_def urldecode_cons del: urldecode.simps)
qed

lemma c_unescape_plain: "c \<noteq> CHR 0x5C \<Longrightarrow> c_unescape (c # s) = c # c_unescape s"
  by (cases s) auto

lemma c_unescape_hex_escape: "c_unescape (CHR 0x5C # CHR ''x'' # hex_pair c @ s) = c # c_unescape s"
  by (rule hex_pair_shape [of c]) (simp add: is_octal_def)

lemma c_unescape_named:
  "c_unescape (CHR 0x5C # CHR ''a'' # s) = CHR 0x07 # c_unescape s"
  "c_unescape (CHR 0x5C # CHR ''b'' # s) = CHR 0x08 # c_unescape s"
  "c_unescape (CHR 0x5C # CHR ''f'' # s) = CHR 0x0C # c_unescape s"
  "c_unescape (CHR 0x5C # CHR ''n'' # s) = CHR 0x0A # c_unescape s"
  "c_unescape (CHR 0x5C # CHR ''r'' # s) = CHR 0x0D # c_unescape s"
  "c_unescape (CHR 0x5C # CHR ''t'' # s) = CHR 0x09 # c_unescape s"
  "c_unescape (CHR 0x5C # CHR ''v'' # s) = CHR 0x0B # c_unescape s"
  "c_unescape (CHR 0x5C # CHR 0x5C # s) = CHR 0x5C # c_unescape s"
  "c_unescape (CHR 0x5C # CHR 0x27 # s) = CHR 0x27 # c_unescape s"
  "c_unescape (CHR 0x5C # CHR 0x22 # s) = CHR 0x22 # c_unescape s"
  by simp_all

lemma c_unescape_char: "c_unescape (c_escape_char c @ s) = c # c_unescape s"
  by (simp add: c_escape_char_def c_unescape_named c_unescape_plain c_unescape_hex_escape
      del: c_unescape.simps)

section \<open>Whole strings\<close>

lemma fromHex_toHex: "fromHex (toHex s) = s"
  by (induction s) (simp_all add: toHex_def fromHex_hex_pair)

lemma rawurldecode_encode: "rawurldecode (rawurlencode s) = s"
  by (induction s) (simp_all add: rawurlencode_def rawurldecode_char)

lemma urldecode_encode: "urldecode (urlencode s) = s"
  by (induction s) (simp_all add: urlencode_def urldecode_char)

lemma c_unescape_escape: "c_unescape (c_escape s) = s"
  by (induction s) (simp_all add: c_escape_def c_unescape_char)

text \<open>An encoded string holds only the unreserved characters, so no separator.\<close>

lemma hex_pair_safe: "x \<in> set (hex_pair c) \<Longrightarrow> \<not> rawurl_unsafe x"
  by (rule hex_pair_shape [of c]) auto

lemma rawurlencode_safe: "x \<in> set (rawurlencode s) \<Longrightarrow> x = CHR ''%'' \<or> \<not> rawurl_unsafe x"
  by (auto simp: rawurlencode_def rawurlencode_char_def hex_pair_safe split: if_splits)

end
