(* ===== verification/Util_String.thy ===== *)
theory Util_String
  imports Std_Map Util_Encode
begin

text \<open>
  \<open>source/util/util_string.cpp\<close> and \<open>util_string.h\<close>: trimming, case, searching, splitting,
  joining, substitution and number parsing on byte strings. Index loops are recursions on the
  same indices, with the accumulator the code appends to. The iconv conversions
  (\<open>gbk2utf8\<close>, \<open>utf82gbk\<close>), the variadic \<open>format\<close> and the floating-point instances of
  \<open>tostr\<close>/\<open>strto\<close> are not modelled.

  The lemmas relate each loop to a reference definition on lists (\<open>field_list\<close> for splitting,
  \<open>subst_all\<close> for replacing, \<open>dropWhile\<close> for trimming) and prove the round trips.
\<close>

section \<open>Trimming and case\<close>

function trim_i :: "string \<Rightarrow> nat \<Rightarrow> nat \<Rightarrow> nat" where
  "trim_i s i j = (if i < j \<and> isspace (s ! i) then trim_i s (Suc i) j else i)"
  by pat_completeness auto
termination
  by (relation "measure (\<lambda>(s, i, j). j - i)") auto

fun trim_j :: "string \<Rightarrow> nat \<Rightarrow> nat \<Rightarrow> nat" where
  "trim_j s i j = (if i < j \<and> isspace (s ! (j - 1)) then trim_j s i (j - 1) else j)"

declare trim_i.simps [simp del] trim_j.simps [simp del]

definition substr :: "string \<Rightarrow> nat \<Rightarrow> nat \<Rightarrow> string" where
  "substr s p n = take n (drop p s)"

definition trim :: "string \<Rightarrow> string" where
  "trim s = (let i = trim_i s 0 (length s); j = trim_j s i (length s) in substr s i (j - i))"

definition trimLeft :: "string \<Rightarrow> string" where
  "trimLeft s = (let j = length s; i = trim_i s 0 j in substr s i (j - i))"

definition trimRight :: "string \<Rightarrow> string" where
  "trimRight s = (let i = 0; j = trim_j s i (length s) in substr s i (j - i))"

definition isTrimEmpty :: "string \<Rightarrow> bool" where
  "isTrimEmpty s = (let i = trim_i s 0 (length s); j = trim_j s i (length s) in i \<ge> j)"

definition toupper :: "string \<Rightarrow> string" where
  "toupper s = map toupper_c s"

definition tolower :: "string \<Rightarrow> string" where
  "tolower s = map tolower_c s"

section \<open>Predicates\<close>

definition isContains :: "string \<Rightarrow> string \<Rightarrow> bool" where
  "isContains s m = (find_sub m s \<noteq> None)"

definition isBeginsWith :: "string \<Rightarrow> string \<Rightarrow> bool" where
  "isBeginsWith s m = (if length m > length s then False else take (length m) s = m)"

definition isEndsWith :: "string \<Rightarrow> string \<Rightarrow> bool" where
  "isEndsWith s m = (if length m > length s then False else drop (length s - length m) s = m)"

definition isdigit :: "string \<Rightarrow> bool" where
  "isdigit s = list_all isdigit_c s"

definition isxdigit :: "string \<Rightarrow> bool" where
  "isxdigit s = list_all isxdigit_c s"

section \<open>Replacing\<close>

function replace_loop :: "string \<Rightarrow> string \<Rightarrow> string \<Rightarrow> nat \<Rightarrow> string \<Rightarrow> string" where
  "replace_loop s from to p r =
     (if from = [] then r
      else case find_sub from (drop p s) of
        None \<Rightarrow> r @ drop p s
      | Some d \<Rightarrow>
          (let q = p + d in replace_loop s from to (q + length from) (r @ substr s p (q - p) @ to)))"
  by pat_completeness auto
termination
proof (relation "measure (\<lambda>(s, from, to, p, r). length s - p)")
  fix s pat to :: string and p r d q
  assume "pat \<noteq> []" and d: "find_sub pat (drop p s) = Some d" and "q = p + d"
  moreover from d have "d + length pat \<le> length s - p"
    using find_sub_bound by fastforce
  ultimately show "((s, pat, to, q + length pat, r @ substr s p (q - p) @ to), (s, pat, to, p, r))
      \<in> measure (\<lambda>(s, from, to, p, r). length s - p)"
    by (cases pat) auto
qed simp

declare replace_loop.simps [simp del]

definition replace :: "string \<Rightarrow> string \<Rightarrow> string \<Rightarrow> string" where
  "replace s from to = (if from = [] then s else replace_loop s from to 0 [])"

section \<open>Splitting and joining\<close>

function splitString_loop :: "string \<Rightarrow> string \<Rightarrow> bool \<Rightarrow> nat \<Rightarrow> string list \<Rightarrow> string list" where
  "splitString_loop str sep bStrip p vResult =
     (case find_first_of str sep p of
        None \<Rightarrow> (if \<not> bStrip \<or> p < length str then vResult @ [drop p str] else vResult)
      | Some q \<Rightarrow>
          if q = p
          then splitString_loop str sep bStrip (Suc p) (if \<not> bStrip then vResult @ [[]] else vResult)
          else splitString_loop str sep bStrip (Suc q) (vResult @ [substr str p (q - p)]))"
  by pat_completeness auto
termination
proof (relation "measure (\<lambda>(str, sep, bStrip, p, vResult). Suc (length str) - p)")
  fix str sep :: string and bStrip p vResult q
  assume "find_first_of str sep p = Some q"
  then show "((str, sep, bStrip, Suc q, vResult @ [substr str p (q - p)]), (str, sep, bStrip, p, vResult))
      \<in> measure (\<lambda>(str, sep, bStrip, p, vResult). Suc (length str) - p)"
    using find_first_of_Some(1,2) by fastforce
qed (auto dest: find_first_of_Some(2))

declare splitString_loop.simps [simp del]

definition splitString :: "string \<Rightarrow> string \<Rightarrow> bool \<Rightarrow> string list" where
  "splitString str sep bStrip = splitString_loop str sep bStrip 0 []"

fun joinString_loop :: "string list \<Rightarrow> string \<Rightarrow> string \<Rightarrow> string" where
  "joinString_loop [] sep sResult = sResult"
| "joinString_loop (x # v) sep sResult =
     joinString_loop v sep ((if sResult \<noteq> [] then sResult @ sep else sResult) @ x)"

definition joinString :: "string list \<Rightarrow> string \<Rightarrow> string" where
  "joinString v sep = joinString_loop v sep []"

definition split_kv :: "string \<Rightarrow> string \<Rightarrow> string \<times> string" where
  "split_kv sep2 sData =
     (case find_first_of sData sep2 0 of
        None \<Rightarrow> (sData, [])
      | Some pos \<Rightarrow> (substr sData 0 pos, drop (pos + 1) sData))"

definition splitString2 :: "string \<Rightarrow> string \<Rightarrow> string \<Rightarrow> (string \<times> string) list" where
  "splitString2 str sep1 sep2 = map (split_kv sep2) (splitString str sep1 True)"

definition splitString2_map :: "string \<Rightarrow> string \<Rightarrow> string \<Rightarrow> (string, string) std_map \<Rightarrow> (string, string) std_map" where
  "splitString2_map str sep1 sep2 mResult =
     fold (\<lambda>(k, v). sm_set k v) (splitString2 str sep1 sep2) mResult"

fun joinString2_loop :: "(string \<times> string) list \<Rightarrow> string \<Rightarrow> string \<Rightarrow> string \<Rightarrow> string" where
  "joinString2_loop [] sep1 sep2 sResult = sResult"
| "joinString2_loop ((k, v) # kvs) sep1 sep2 sResult =
     joinString2_loop kvs sep1 sep2
       ((if sResult \<noteq> [] then sResult @ sep1 else sResult) @ k @ sep2 @ v)"

definition joinString2 :: "(string \<times> string) list \<Rightarrow> string \<Rightarrow> string \<Rightarrow> string" where
  "joinString2 v sep1 sep2 = joinString2_loop v sep1 sep2 []"

primrec repeat_loop :: "nat \<Rightarrow> string \<Rightarrow> string \<Rightarrow> string" where
  "repeat_loop 0 s r = r"
| "repeat_loop (Suc n) s r = repeat_loop n s (r @ s)"

definition repeat :: "string \<Rightarrow> u32 \<Rightarrow> string" where
  "repeat s n = repeat_loop (unat n) s []"

text \<open>The variant with a separator: \<open>i\<close> counts the rounds done.\<close>

primrec repeat_sep_loop :: "nat \<Rightarrow> nat \<Rightarrow> string \<Rightarrow> string \<Rightarrow> string \<Rightarrow> string" where
  "repeat_sep_loop 0 i s sep r = r"
| "repeat_sep_loop (Suc n) i s sep r =
     repeat_sep_loop n (Suc i) s sep ((if i \<noteq> 0 then r @ sep else r) @ s)"

definition repeat_sep :: "string \<Rightarrow> string \<Rightarrow> u32 \<Rightarrow> string" where
  "repeat_sep s sep n = repeat_sep_loop (unat n) 0 s sep []"

section \<open>Numbers\<close>

text \<open>\<open>ostringstream << t\<close> for an unsigned and a signed integer.\<close>

fun dec_digits :: "nat \<Rightarrow> string" where
  "dec_digits n = (if n < 10 then [char_of (48 + n)] else dec_digits (n div 10) @ [char_of (48 + n mod 10)])"

declare dec_digits.simps [simp del]

definition tostr_u32 :: "u32 \<Rightarrow> string" where
  "tostr_u32 n = dec_digits (unat n)"

definition tostr_u64 :: "u64 \<Rightarrow> string" where
  "tostr_u64 n = dec_digits (unat n)"

definition tostr_int :: "int \<Rightarrow> string" where
  "tostr_int i = (if i < 0 then CHR ''-'' # dec_digits (nat (- i)) else dec_digits (nat i))"

text \<open>\<open>strtoull(s, NULL, 0)\<close>: leading white space, a sign, the base from the prefix, the longest
  run of digits of that base, saturation at the maximum.\<close>

definition digit_val :: "char \<Rightarrow> nat option" where
  "digit_val c = (let n = chr_code c in
     if 48 \<le> n \<and> n \<le> 57 then Some (n - 48)
     else if 97 \<le> n \<and> n \<le> 122 then Some (n - 97 + 10)
     else if 65 \<le> n \<and> n \<le> 90 then Some (n - 65 + 10)
     else None)"

definition is_digit_of :: "nat \<Rightarrow> char \<Rightarrow> bool" where
  "is_digit_of base c = (case digit_val c of None \<Rightarrow> False | Some d \<Rightarrow> d < base)"

fun digits_value :: "nat \<Rightarrow> nat \<Rightarrow> string \<Rightarrow> nat" where
  "digits_value base acc [] = acc"
| "digits_value base acc (c # s) =
     (if is_digit_of base c then digits_value base (acc * base + the (digit_val c)) s else acc)"

fun strtoull_base :: "string \<Rightarrow> nat" where
  "strtoull_base (z # x # d # s) =
     (if z = CHR ''0'' then
        (if (x = CHR ''x'' \<or> x = CHR ''X'') \<and> isxdigit_c d then digits_value 16 0 (d # s)
         else digits_value 8 0 (z # x # d # s))
      else digits_value 10 0 (z # x # d # s))"
| "strtoull_base (z # s) =
     (if z = CHR ''0'' then digits_value 8 0 (z # s) else digits_value 10 0 (z # s))"
| "strtoull_base [] = 0"

definition saturate_u64 :: "nat \<Rightarrow> u64" where
  "saturate_u64 n = (if n < 2 ^ 64 then word_of_nat n else - 1)"

definition strtoull :: "string \<Rightarrow> u64" where
  "strtoull s =
     (case dropWhile isspace s of
        [] \<Rightarrow> 0
      | c # s' \<Rightarrow>
          if c = CHR ''-'' then
            (let n = strtoull_base s' in if n < 2 ^ 64 then - word_of_nat n else - 1)
          else if c = CHR ''+'' then saturate_u64 (strtoull_base s')
          else saturate_u64 (strtoull_base (c # s')))"

text \<open>The instances of \<open>lexical_castor\<close>: the 64-bit value, truncated to the type.\<close>

definition strto_u64 :: "string \<Rightarrow> u64" where
  "strto_u64 s = strtoull s"

definition strto_u32 :: "string \<Rightarrow> u32" where
  "strto_u32 s = ucast (strtoull s)"

definition strto_i32 :: "string \<Rightarrow> int" where
  "strto_i32 s = sint (ucast (strtoull s) :: u32)"

definition strto_bool :: "string \<Rightarrow> bool" where
  "strto_bool s = (strtoull s \<noteq> 0)"

definition splitString_u32 :: "string \<Rightarrow> string \<Rightarrow> bool \<Rightarrow> u32 list" where
  "splitString_u32 str sep bStrip = map strto_u32 (splitString str sep bStrip)"

definition parseHumanReadableSize :: "string \<Rightarrow> u64" where
  "parseHumanReadableSize s =
     (if s = [] then 0
      else
        let iSize = strto_u64 s; c = s ! (length s - 1) in
        if c = CHR ''k'' \<or> c = CHR ''K'' then iSize * 1024
        else if c = CHR ''m'' \<or> c = CHR ''M'' then iSize * (1024 * 1024)
        else if c = CHR ''g'' \<or> c = CHR ''G'' then iSize * (1024 * 1024 * 1024)
        else iSize)"

section \<open>Variables\<close>

datatype REPACE_MODE =
    REPLACE_MODE_ALL_MATCH
  | REPLACE_MODE_KEEP_VARIABLE_ON_MISS
  | REPLACE_MODE_EMPTY_VARIABLE_ON_MISS
  | REPLACE_MODE_EMPTY_RESULT_ON_MISS

text \<open>\<open>strstr\<close> and \<open>strchr\<close> stop at the first NUL byte; the loop's end is the string's size.\<close>

definition strstr :: "string \<Rightarrow> string \<Rightarrow> nat option" where
  "strstr s pat = find_sub pat (takeWhile (\<lambda>c. c \<noteq> CHR 0x00) s)"

definition strchr :: "string \<Rightarrow> char \<Rightarrow> nat option" where
  "strchr s c = find_idx (\<lambda>x. x = c) (takeWhile (\<lambda>c. c \<noteq> CHR 0x00) s)"

lemma strstr_bound: "strstr s pat = Some i \<Longrightarrow> i + length pat \<le> length s"
  unfolding strstr_def using find_sub_bound length_takeWhile_le le_trans by blast

lemma strchr_bound: "strchr s c = Some i \<Longrightarrow> i < length s"
  unfolding strchr_def by (auto simp: find_idx_Some intro: less_le_trans length_takeWhile_le)

text \<open>\<open>p\<close> is the rest of the input, \<open>sResult\<close> what has been appended.\<close>

function replaceVariable_loop ::
  "string \<Rightarrow> (string, string) std_map \<Rightarrow> REPACE_MODE \<Rightarrow> string \<Rightarrow> string throws" where
  "replaceVariable_loop p mVariable mode sResult =
     (if p = [] then Inr sResult
      else case strstr p ''${'' of
        None \<Rightarrow> Inr (sResult @ p)
      | Some t1 \<Rightarrow>
          (let sResult1 = sResult @ take t1 p; rest1 = drop t1 p in
           case strchr rest1 (CHR ''}'') of
             None \<Rightarrow> Inr (sResult1 @ rest1)
           | Some t2 \<Rightarrow>
               (let sKey = take (t2 - 2) (drop 2 rest1); p' = drop (Suc t2) rest1 in
                case sm_find mVariable sKey of
                  Some v \<Rightarrow> replaceVariable_loop p' mVariable mode (sResult1 @ v)
                | None \<Rightarrow>
                    (case mode of
                       REPLACE_MODE_ALL_MATCH \<Rightarrow> Inl (''replaceVariable: '' @ sKey)
                     | REPLACE_MODE_KEEP_VARIABLE_ON_MISS \<Rightarrow>
                         replaceVariable_loop p' mVariable mode (sResult1 @ take (Suc t2) rest1)
                     | REPLACE_MODE_EMPTY_VARIABLE_ON_MISS \<Rightarrow>
                         replaceVariable_loop p' mVariable mode sResult1
                     | REPLACE_MODE_EMPTY_RESULT_ON_MISS \<Rightarrow> Inr []))))"
  by pat_completeness auto
termination
  by (relation "measure (\<lambda>(p, m, mode, r). length p)") (auto dest!: strchr_bound)

declare replaceVariable_loop.simps [simp del]

definition replaceVariable :: "string \<Rightarrow> (string, string) std_map \<Rightarrow> REPACE_MODE \<Rightarrow> string throws" where
  "replaceVariable s mVariable mode = replaceVariable_loop s mVariable mode []"

section \<open>URL parameters\<close>

definition joinURLParam :: "(string, string) std_map \<Rightarrow> string \<Rightarrow> string \<Rightarrow> string" where
  "joinURLParam mParam sep1 sep2 =
     joinString2_loop (map (\<lambda>(k, v). (rawurlencode k, rawurlencode v)) mParam) sep1 sep2 []"

definition splitURLParam :: "string \<Rightarrow> (string, string) std_map \<Rightarrow> string \<Rightarrow> string \<Rightarrow> (string, string) std_map" where
  "splitURLParam sParam mParam sep1 sep2 =
     fold (\<lambda>(k, v). sm_set (rawurldecode k) (rawurldecode v)) (splitString2 sParam sep1 sep2) mParam"

section \<open>Trimming is removing white space at both ends\<close>

lemma trim_i_bounds: "i \<le> j \<Longrightarrow> i \<le> trim_i s i j \<and> trim_i s i j \<le> j"
proof (induction s i j rule: trim_i.induct)
  case (1 s i j)
  then show ?case
    by (cases "i < j \<and> isspace (s ! i)") (auto simp: trim_i.simps [of s i j])
qed

lemma drop_trim_i: "i \<le> length s \<Longrightarrow> drop (trim_i s i (length s)) s = dropWhile isspace (drop i s)"
proof (induction s i "length s" rule: trim_i.induct)
  case (1 s i)
  show ?case
  proof (cases "i < length s")
    case True
    with 1 show ?thesis
      by (subst trim_i.simps) (auto simp: Cons_nth_drop_Suc [symmetric])
  qed (use 1 in \<open>auto simp: trim_i.simps [of s "length s"]\<close>)
qed

lemma take_trim_j:
  "i \<le> j \<Longrightarrow> j \<le> length s \<Longrightarrow>
     take (trim_j s i j - i) (drop i s) = rev (dropWhile isspace (rev (take (j - i) (drop i s))))"
proof (induction s i j rule: trim_j.induct)
  case (1 s i j)
  show ?case
  proof (cases "i < j")
    case True
    then obtain k where k: "j = Suc k" "i \<le> k" by (cases j) auto
    with "1.prems" have snoc: "take (j - i) (drop i s) = take (k - i) (drop i s) @ [s ! k]"
      by (simp add: Suc_diff_le take_Suc_conv_app_nth)
    show ?thesis
      using 1 k snoc by (subst trim_j.simps) auto
  qed (use 1 in \<open>auto simp: trim_j.simps [of s j j]\<close>)
qed

lemma trim_ref: "trim s = rev (dropWhile isspace (rev (dropWhile isspace s)))"
proof -
  let ?i = "trim_i s 0 (length s)"
  have i: "?i \<le> length s" and d: "dropWhile isspace s = drop ?i s"
    using trim_i_bounds [of 0 "length s" s] drop_trim_i [of 0 s] by simp_all
  have "take (length s - ?i) (drop ?i s) = drop ?i s" by simp
  with i show ?thesis
    unfolding d using take_trim_j [of ?i "length s" s] by (simp add: trim_def substr_def Let_def)
qed

lemma trimLeft_ref: "trimLeft s = dropWhile isspace s"
  using drop_trim_i [of 0 s, symmetric] by (simp add: trimLeft_def substr_def Let_def)

lemma trimRight_ref: "trimRight s = rev (dropWhile isspace (rev s))"
  using take_trim_j [of 0 "length s" s] by (simp add: trimRight_def substr_def Let_def)

text \<open>A string with no white space at either end is left alone.\<close>

definition trimmed :: "string \<Rightarrow> bool" where
  "trimmed s \<longleftrightarrow> s = [] \<or> (\<not> isspace (hd s) \<and> \<not> isspace (last s))"

lemma dropWhile_eq_self: "xs = [] \<or> \<not> P (hd xs) \<Longrightarrow> dropWhile P xs = xs"
  by (cases xs) auto

lemma trim_trimmed [simp]: "trimmed s \<Longrightarrow> trim s = s"
  by (auto simp: trim_ref trimmed_def dropWhile_eq_self hd_rev)

lemma trimmed_trim [simp]: "trimmed (trim s)"
proof (cases "trim s = []")
  case False
  let ?u = "dropWhile isspace s"
  let ?r = "dropWhile isspace (rev ?u)"
  have w: "trim s = rev ?r" by (rule trim_ref)
  with False have ne: "?r \<noteq> []" by simp
  have "rev ?u = takeWhile isspace (rev ?u) @ ?r" by simp
  then have "?u = rev ?r @ rev (takeWhile isspace (rev ?u))" by (metis rev_append rev_rev_ident)
  with ne have "hd (rev ?r) = hd ?u" and "?u \<noteq> []"
    by (metis hd_append2 rev_is_Nil_conv, metis append_is_Nil_conv rev_is_Nil_conv)
  then have "\<not> isspace (hd (trim s))" using hd_dropWhile w by metis
  moreover have "\<not> isspace (last (trim s))" using hd_dropWhile [OF ne] w ne by (simp add: last_rev)
  ultimately show ?thesis by (simp add: trimmed_def)
qed (simp add: trimmed_def)

lemma trim_pad:
  assumes "trimmed s" and "\<forall>c \<in> set l. isspace c" and "\<forall>c \<in> set r. isspace c"
  shows "trim (l @ s @ r) = s"
proof (cases "s = []")
  case True
  with assms have "\<forall>c \<in> set (l @ s @ r). isspace c" by auto
  then have "dropWhile isspace (l @ s @ r) = []" by (rule dropWhile_eq_Nil_conv [THEN iffD2])
  then have "trim (l @ s @ r) = []" by (simp only: trim_ref rev.simps dropWhile.simps)
  then show ?thesis using True by simp
next
  case False
  then have "dropWhile isspace (l @ s @ r) = s @ r"
    using assms by (simp add: trimmed_def dropWhile_append2 dropWhile_eq_self)
  moreover have "dropWhile isspace (rev r @ rev s) = rev s"
  proof -
    have "dropWhile isspace (rev r @ rev s) = dropWhile isspace (rev s)"
      by (rule dropWhile_append2) (use assms(3) in simp)
    then show ?thesis using assms(1) False by (simp add: trimmed_def dropWhile_eq_self hd_rev)
  qed
  ultimately show ?thesis by (simp add: trim_ref)
qed

section \<open>Splitting is the list of field_list\<close>

fun field_list :: "('a \<Rightarrow> bool) \<Rightarrow> 'a list \<Rightarrow> 'a list list" where
  "field_list P [] = [[]]"
| "field_list P (c # s) =
     (if P c then [] # field_list P s
      else case field_list P s of [] \<Rightarrow> [[c]] | f # fs \<Rightarrow> (c # f) # fs)"

lemma fields_none: "\<forall>c \<in> set s. \<not> P c \<Longrightarrow> field_list P s = [s]"
  by (induction s) auto

lemma fields_sep: "\<forall>c \<in> set x. \<not> P c \<Longrightarrow> P c \<Longrightarrow> field_list P (x @ c # s) = x # field_list P s"
  by (induction x) auto

lemma fields_no_sep: "f \<in> set (field_list P s) \<Longrightarrow> c \<in> set f \<Longrightarrow> \<not> P c"
  by (induction s arbitrary: f) (fastforce split: if_splits list.splits)+

lemma fields_at:
  assumes "find_first_of s sep p = Some q"
  shows "field_list (\<lambda>c. c \<in> set sep) (drop p s) = substr s p (q - p) # field_list (\<lambda>c. c \<in> set sep) (drop (Suc q) s)"
proof -
  note f = find_first_of_Some [OF assms]
  have split: "drop p s = substr s p (q - p) @ s ! q # drop (Suc q) s"
    using f(1,2) by (simp add: substr_def Cons_nth_drop_Suc)
      (metis append_take_drop_id drop_drop le_add_diff_inverse2 Cons_nth_drop_Suc)
  moreover have "\<forall>c \<in> set (substr s p (q - p)). c \<notin> set sep"
  proof
    fix c assume "c \<in> set (substr s p (q - p))"
    then obtain i where "i < q - p" and "c = s ! (p + i)"
      using f(1,2) by (auto simp: substr_def in_set_conv_nth)
    then show "c \<notin> set sep" using f(4) by simp
  qed
  ultimately show ?thesis using f(3) fields_sep by metis
qed

lemma fields_end:
  "find_first_of s sep p = None \<Longrightarrow> field_list (\<lambda>c. c \<in> set sep) (drop p s) = [drop p s]"
  by (rule fields_none) (auto simp: find_first_of_def find_idx_None)

definition strip :: "bool \<Rightarrow> string list \<Rightarrow> string list" where
  "strip bStrip v = (if bStrip then filter (\<lambda>x. x \<noteq> []) v else v)"

lemma splitString_loop_fields:
  "splitString_loop s sep b p v = v @ strip b (field_list (\<lambda>c. c \<in> set sep) (drop p s))"
proof (induction s sep b p v rule: splitString_loop.induct)
  case (1 s sep b p v)
  show ?case
  proof (cases "find_first_of s sep p")
    case None
    then show ?thesis
      by (subst splitString_loop.simps) (simp add: fields_end strip_def)
  next
    case (Some q)
    show ?thesis
    proof (cases "q = p")
      case True
      with Some 1(1) show ?thesis
        by (subst splitString_loop.simps) (simp add: fields_at strip_def substr_def)
    next
      case False
      moreover from Some have "p \<le> q" "q < length s" by (auto dest: find_first_of_Some)
      ultimately have "substr s p (q - p) \<noteq> []" by (simp add: substr_def)
      with Some False 1(2) show ?thesis
        by (subst splitString_loop.simps) (simp add: fields_at strip_def)
    qed
  qed
qed

lemma splitString_fields: "splitString s sep b = strip b (field_list (\<lambda>c. c \<in> set sep) s)"
  by (simp add: splitString_def splitString_loop_fields)

section \<open>Joining and splitting back\<close>

lemma joinString_loop_eq:
  "r \<noteq> [] \<Longrightarrow> joinString_loop v sep r = r @ concat (map (\<lambda>x. sep @ x) v)"
  by (induction v arbitrary: r) auto

lemma joinString_Cons:
  "x \<noteq> [] \<Longrightarrow> joinString (x # v) sep = x @ concat (map (\<lambda>y. sep @ y) v)"
  by (simp add: joinString_def joinString_loop_eq)

lemma fields_joined:
  assumes "P c" and "\<forall>y \<in> set (x # v). \<forall>d \<in> set y. \<not> P d"
  shows "field_list P (x @ concat (map (\<lambda>y. [c] @ y) v)) = x # v"
  using assms(2)
proof (induction v arbitrary: x)
  case Nil
  then show ?case by (simp add: fields_none)
next
  case (Cons y v)
  then show ?case using fields_sep [of x P c] assms(1) by simp
qed

lemma splitString_joinString:
  assumes "c \<in> set sep" and "\<forall>x \<in> set v. x \<noteq> [] \<and> (\<forall>d \<in> set x. d \<notin> set sep)"
  shows "splitString (joinString v [c]) sep True = v"
proof (cases v)
  case Nil
  then show ?thesis by (simp add: joinString_def splitString_fields strip_def)
next
  case (Cons x v')
  with assms(2) have "joinString v [c] = x @ concat (map (\<lambda>y. [c] @ y) v')"
    by (simp add: joinString_Cons)
  with Cons assms show ?thesis
    using fields_joined [of "\<lambda>d. d \<in> set sep" c x v'] by (simp add: splitString_fields strip_def)
qed

lemma joinString2_loop_eq:
  "joinString2_loop kvs sep1 sep2 r = joinString_loop (map (\<lambda>(k, v). k @ sep2 @ v) kvs) sep1 r"
  by (induction kvs arbitrary: r) auto

lemma split_kv_pair: "c \<notin> set k \<Longrightarrow> split_kv [c] (k @ c # v) = (k, v)"
proof -
  assume "c \<notin> set k"
  then have "find_first_of (k @ c # v) [c] 0 = Some (length k)"
    using find_idx_append_none [of k "\<lambda>x. x = c" c v] by (auto simp: find_first_of_def)
  then show ?thesis by (simp add: split_kv_def substr_def)
qed

lemma splitString2_joined:
  assumes "c1 \<noteq> c2" and "\<forall>(k, v) \<in> set kvs. c1 \<notin> set k \<and> c2 \<notin> set k \<and> c1 \<notin> set v"
  shows "splitString2 (joinString2_loop kvs [c1] [c2] []) [c1] [c2] = kvs"
proof -
  let ?items = "map (\<lambda>(k, v). k @ [c2] @ v) kvs"
  have "joinString2_loop kvs [c1] [c2] [] = joinString ?items [c1]"
    by (simp add: joinString2_loop_eq joinString_def)
  moreover have "splitString (joinString ?items [c1]) [c1] True = ?items"
    by (rule splitString_joinString) (use assms in auto)
  moreover have "map (split_kv [c2]) ?items = kvs"
    using assms(2) by (induction kvs) (auto simp: split_kv_pair)
  ultimately show ?thesis by (simp add: splitString2_def)
qed

lemma url_separators_unsafe: "rawurl_unsafe (CHR ''&'')" "rawurl_unsafe (CHR ''='')"
  by (simp_all add: rawurl_unsafe_def schar_def byte_of_def)

lemma rawurlencode_no_sep:
  "CHR ''&'' \<notin> set (rawurlencode s)" "CHR ''='' \<notin> set (rawurlencode s)"
  using rawurlencode_safe url_separators_unsafe by fastforce+

lemma fold_sm_set_id: "sm_wf m \<Longrightarrow> fold (\<lambda>(k, v). sm_set k v) m [] = m"
  by (rule sm_ext)
    (simp_all add: sm.invar_updates sm.lookup_updates_empty sm_wf_distinct, simp add: sm_find_def)

lemma splitURLParam_joinURLParam:
  assumes "sm_wf m"
  shows "splitURLParam (joinURLParam m ''&'' ''='') [] ''&'' ''='' = m"
proof -
  let ?kvs = "map (\<lambda>(k, v). (rawurlencode k, rawurlencode v)) m"
  have "splitString2 (joinURLParam m ''&'' ''='') ''&'' ''='' = ?kvs"
    unfolding joinURLParam_def
    by (rule splitString2_joined) (auto simp: rawurlencode_no_sep)
  moreover have "fold (\<lambda>(k, v). sm_set (rawurldecode k) (rawurldecode v)) ?kvs r = fold (\<lambda>(k, v). sm_set k v) m r" for r
    by (induction m arbitrary: r) (auto simp: rawurldecode_encode)
  ultimately show ?thesis
    using fold_sm_set_id [OF assms] by (simp add: splitURLParam_def)
qed

section \<open>Replacing is leftmost substitution\<close>

fun subst_all :: "string \<Rightarrow> string \<Rightarrow> string \<Rightarrow> string" where
  "subst_all pat to [] = []"
| "subst_all pat to (c # s) =
     (if pat \<noteq> [] \<and> prefix pat (c # s) then to @ subst_all pat to (drop (length pat - 1) s)
      else c # subst_all pat to s)"

lemma subst_all_None: "find_sub pat s = None \<Longrightarrow> subst_all pat to s = s"
  by (induction s) (auto split: if_splits)

lemma subst_all_Some:
  "find_sub pat s = Some d \<Longrightarrow> pat \<noteq> [] \<Longrightarrow>
     subst_all pat to s = take d s @ to @ subst_all pat to (drop (d + length pat) s)"
proof (induction s arbitrary: d)
  case (Cons c s)
  show ?case
  proof (cases "prefix pat (c # s)")
    case True
    then show ?thesis using Cons.prems by (cases pat) auto
  next
    case False
    then show ?thesis using Cons by auto
  qed
qed simp

lemma replace_loop_subst:
  "from \<noteq> [] \<Longrightarrow> replace_loop s from to p r = r @ subst_all from to (drop p s)"
proof (induction s "from" to p r rule: replace_loop.induct)
  case (1 s pat to p r)
  show ?case
  proof (cases "find_sub pat (drop p s)")
    case None
    then show ?thesis using "1.prems" by (simp add: replace_loop.simps [of s pat] subst_all_None)
  next
    case (Some d)
    then show ?thesis
      using 1 by (simp add: replace_loop.simps [of s pat to p] subst_all_Some substr_def Let_def add.commute add.left_commute)
  qed
qed

lemma replace_subst: "replace s from to = (if from = [] then s else subst_all from to s)"
  by (simp add: replace_def replace_loop_subst)

section \<open>Decimal numbers are read back\<close>

lemma digit_val_digit: "(d :: nat) < 10 \<Longrightarrow> digit_val (char_of (48 + d)) = Some d"
  by (simp add: digit_val_def Let_def)

lemma is_digit_of_digit: "(d :: nat) < 10 \<Longrightarrow> is_digit_of 10 (char_of (48 + d))"
  by (simp add: is_digit_of_def digit_val_digit)

lemma digits_value_snoc:
  "\<forall>c \<in> set s. is_digit_of base c \<Longrightarrow> is_digit_of base d \<Longrightarrow>
     digits_value base acc (s @ [d]) = digits_value base acc s * base + the (digit_val d)"
  by (induction s arbitrary: acc) auto

lemma dec_digits_digits: "c \<in> set (dec_digits n) \<Longrightarrow> is_digit_of 10 c"
proof (induction n rule: dec_digits.induct)
  case (1 n)
  then show ?case
    by (cases "n < 10") (auto simp: dec_digits.simps [of n] is_digit_of_digit)
qed

lemma digits_value_dec_digits: "digits_value 10 0 (dec_digits n) = n"
proof (induction n rule: dec_digits.induct)
  case (1 n)
  show ?case
  proof (cases "n < 10")
    case True
    then show ?thesis by (simp add: dec_digits.simps [of n] is_digit_of_digit digit_val_digit)
  next
    case False
    with 1 show ?thesis
      by (simp add: dec_digits.simps [of n] digits_value_snoc dec_digits_digits is_digit_of_digit digit_val_digit)
  qed
qed

lemma dec_digits_nonempty [simp]: "dec_digits n \<noteq> []"
  by (simp add: dec_digits.simps [of n])

lemma hd_dec_digits: "n \<noteq> 0 \<Longrightarrow> hd (dec_digits n) \<noteq> CHR ''0''"
proof (induction n rule: dec_digits.induct)
  case (1 n)
  show ?case
  proof (cases "n < 10")
    case True
    then have "chr_code (char_of (48 + n)) = 48 + n" by simp
    moreover have "chr_code (CHR ''0'') = 48" by simp
    ultimately have "char_of (48 + n) \<noteq> CHR ''0''" using "1.prems" by force
    then show ?thesis using True by (simp add: dec_digits.simps [of n])
  next
    case False
    then have "n div 10 \<noteq> 0" by simp
    with False 1 show ?thesis by (simp add: dec_digits.simps [of n])
  qed
qed

lemma strtoull_base_dec: "strtoull_base (dec_digits n) = n"
proof (cases "n = 0")
  case True
  then show ?thesis by (simp add: dec_digits.simps [of 0] is_digit_of_def digit_val_def)
next
  case False
  have "strtoull_base s = digits_value 10 0 s" if "s \<noteq> []" "hd s \<noteq> CHR ''0''" for s
    using that by (cases s rule: strtoull_base.cases) auto
  then show ?thesis using False by (simp add: hd_dec_digits digits_value_dec_digits)
qed

lemma is_digit_not_special:
  "is_digit_of 10 c \<Longrightarrow> \<not> isspace c \<and> c \<noteq> CHR ''-'' \<and> c \<noteq> CHR ''+''"
  by (auto simp: is_digit_of_def digit_val_def isspace_def Let_def split: if_splits)

lemma strtoull_dec: "n < 2 ^ 64 \<Longrightarrow> strtoull (dec_digits n) = word_of_nat n"
proof -
  assume n: "n < 2 ^ 64"
  obtain c s where cs: "dec_digits n = c # s" by (cases "dec_digits n") auto
  then have "is_digit_of 10 c" using dec_digits_digits [of c n] by simp
  then have "\<not> isspace c" "c \<noteq> CHR ''-''" "c \<noteq> CHR ''+''" using is_digit_not_special by auto
  then show ?thesis
    using strtoull_base_dec [of n] n cs by (simp add: strtoull_def saturate_u64_def)
qed

lemma strto_u32_tostr: "strto_u32 (tostr_u32 n) = n"
proof -
  have n: "unat n < 2 ^ 64" using unat_u32_less [of n] by (simp del: unat_u32_less)
  then have "strto_u32 (tostr_u32 n) = ucast (word_of_nat (unat n) :: u64)"
    by (simp only: strto_u32_def tostr_u32_def strtoull_dec)
  also have "\<dots> = word_of_nat (unat n)"
  proof -
    have "take_bit LENGTH(64) (unat n) = unat n"
      by (rule take_bit_nat_eq_self) (use n in simp)
    then show ?thesis by (simp only: unsigned_of_nat)
  qed
  finally show ?thesis by simp
qed

section \<open>Variables\<close>

text \<open>With no variables bound, keeping the unknown ones is the identity.\<close>

lemma replaceVariable_loop_keep:
  "replaceVariable_loop p [] REPLACE_MODE_KEEP_VARIABLE_ON_MISS r = Inr (r @ p)"
proof (induction p "[] :: (string, string) std_map" REPLACE_MODE_KEEP_VARIABLE_ON_MISS r
    rule: replaceVariable_loop.induct)
  case (1 p r)
  show ?case
  proof (cases "strstr p ''${''")
    case None
    then show ?thesis by (simp add: replaceVariable_loop.simps [of p])
  next
    case t1: (Some t1)
    show ?thesis
    proof (cases "strchr (drop t1 p) (CHR ''}'')")
      case None
      then show ?thesis using t1 by (simp add: replaceVariable_loop.simps [of p] Let_def)
    next
      case (Some t2)
      have "p \<noteq> []" using t1 strstr_bound [of p "''${''" t1] by auto
      moreover have "take t1 p @ take (Suc t2) (drop t1 p) @ drop (Suc (t2 + t1)) p = p"
        by (metis add_Suc append_take_drop_id drop_drop)
      ultimately show ?thesis using Some t1 1(1)
        by (simp add: replaceVariable_loop.simps [of p] Let_def sm_find_def)
    qed
  qed
qed

end
