(* ===== verification/Socket_Poller.thy ===== *)
theory Socket_Poller
  imports Storm_Prelude
begin

text \<open>
  \<open>source/net/socket_poller.cpp\<close>: the epoll wrapper. The kernel's interest list is \<open>m_epoll\<close>, from
  descriptors to the event mask and the user data (here the index of the socket's slot), and
  \<open>epoll_ctl\<close> follows its manual page: ADD needs an absent descriptor, MOD and DEL a present one,
  anything else fails and changes nothing.

  \<open>poll_coherent\<close> ties the wrapper's own masks \<open>m_fdEvent\<close> to that list.
\<close>

definition EPOLLIN :: u32 where "EPOLLIN = 0x001"
definition EPOLLOUT :: u32 where "EPOLLOUT = 0x004"
definition EPOLLERR :: u32 where "EPOLLERR = 0x008"
definition EPOLLHUP :: u32 where "EPOLLHUP = 0x010"
definition EPOLLET :: u32 where "EPOLLET = 0x80000000"

definition EP_NONE :: u32 where "EP_NONE = 0"
definition EP_READ :: u32 where "EP_READ = 1"
definition EP_WRITE :: u32 where "EP_WRITE = 2"

lemmas epoll_consts = EPOLLIN_def EPOLLOUT_def EPOLLERR_def EPOLLHUP_def EPOLLET_def
  EP_NONE_def EP_READ_def EP_WRITE_def

datatype epoll_op = EPOLL_CTL_ADD | EPOLL_CTL_MOD | EPOLL_CTL_DEL

record SocketPoller =
  m_fdEvent :: "u32 \<rightharpoonup> u32"
  m_epoll :: "u32 \<rightharpoonup> u32 \<times> nat"

definition new_SocketPoller :: SocketPoller where
  "new_SocketPoller = \<lparr>m_fdEvent = Map.empty, m_epoll = Map.empty\<rparr>"

definition epoll_ctl :: "epoll_op \<Rightarrow> u32 \<Rightarrow> u32 \<times> nat \<Rightarrow> SocketPoller \<Rightarrow> bool \<times> SocketPoller" where
  "epoll_ctl op fd ev p =
     (let present = m_epoll p fd \<noteq> None in
      if sint fd < 0 then (False, p)
      else case op of
        EPOLL_CTL_ADD \<Rightarrow> if present then (False, p) else (True, p\<lparr>m_epoll := (m_epoll p)(fd \<mapsto> ev)\<rparr>)
      | EPOLL_CTL_MOD \<Rightarrow> if present then (True, p\<lparr>m_epoll := (m_epoll p)(fd \<mapsto> ev)\<rparr>) else (False, p)
      | EPOLL_CTL_DEL \<Rightarrow> if present then (True, p\<lparr>m_epoll := (m_epoll p)(fd := None)\<rparr>) else (False, p))"

text \<open>Closing a descriptor takes it off the interest list.\<close>

definition epoll_closed :: "u32 \<Rightarrow> SocketPoller \<Rightarrow> SocketPoller" where
  "epoll_closed fd p = p\<lparr>m_epoll := (m_epoll p)(fd := None)\<rparr>"

section \<open>Operations\<close>

definition addToRead :: "u32 \<Rightarrow> nat \<Rightarrow> SocketPoller \<Rightarrow> bool \<times> SocketPoller" where
  "addToRead fd ud p = epoll_ctl EPOLL_CTL_ADD fd (EPOLLIN OR EPOLLET, ud) p"

definition addToWrite :: "u32 \<Rightarrow> nat \<Rightarrow> bool \<Rightarrow> SocketPoller \<Rightarrow> SocketPoller" where
  "addToWrite fd ud enable p =
     snd (epoll_ctl EPOLL_CTL_MOD fd (EPOLLIN OR (if enable then EPOLLOUT else 0) OR EPOLLET, ud) p)"

text \<open>\<open>m_fdEvent[fd]\<close> creates a missing entry with 0.\<close>

definition fd_mask :: "SocketPoller \<Rightarrow> u32 \<Rightarrow> u32" where
  "fd_mask p fd = (case m_fdEvent p fd of None \<Rightarrow> 0 | Some m \<Rightarrow> m)"

definition set_mask :: "u32 \<Rightarrow> u32 \<Rightarrow> SocketPoller \<Rightarrow> SocketPoller" where
  "set_mask fd m p = p\<lparr>m_fdEvent := (m_fdEvent p)(fd \<mapsto> m)\<rparr>"

definition mask_events :: "u32 \<Rightarrow> u32" where
  "mask_events m =
     (if m AND EP_READ \<noteq> 0 then EPOLLIN else 0) OR (if m AND EP_WRITE \<noteq> 0 then EPOLLOUT else 0) OR EPOLLET"

definition poll_del :: "u32 \<Rightarrow> SocketPoller \<Rightarrow> SocketPoller" where
  "poll_del fd p =
     (let mask = fd_mask p fd in
      if mask = EP_NONE then set_mask fd mask p
      else snd (epoll_ctl EPOLL_CTL_DEL fd (0, 0) (set_mask fd EP_NONE p)))"

definition addEvent :: "u32 \<Rightarrow> u32 \<Rightarrow> nat \<Rightarrow> SocketPoller \<Rightarrow> SocketPoller" where
  "addEvent fd e ud p =
     (let mask = fd_mask p fd;
          option = (if mask = EP_NONE then EPOLL_CTL_ADD else EPOLL_CTL_MOD);
          mask' = mask OR e in
      snd (epoll_ctl option fd (mask_events mask', ud) (set_mask fd mask' p)))"

definition delEvent :: "u32 \<Rightarrow> u32 \<Rightarrow> nat \<Rightarrow> SocketPoller \<Rightarrow> SocketPoller" where
  "delEvent fd e ud p =
     (let mask = fd_mask p fd in
      if mask = EP_NONE then set_mask fd mask p
      else let mask' = mask AND NOT e;
               option = (if mask' = EP_NONE then EPOLL_CTL_DEL else EPOLL_CTL_MOD) in
        snd (epoll_ctl option fd (mask_events mask', ud) (set_mask fd mask' p)))"

record SocketEvent =
  pUd :: nat
  bRead :: bool
  bWrite :: bool

text \<open>\<open>wait\<close>: what \<open>epoll_wait\<close> reported, user data and flags, becomes read and write events.\<close>

definition poll_event :: "nat \<times> u32 \<Rightarrow> SocketEvent" where
  "poll_event r =
     (case r of (ud, iFlag) \<Rightarrow>
        \<lparr>pUd = ud, bRead = (iFlag AND EPOLLIN \<noteq> 0),
         bWrite = (iFlag AND EPOLLOUT \<noteq> 0 \<or> iFlag AND EPOLLERR \<noteq> 0 \<or> iFlag AND EPOLLHUP \<noteq> 0)\<rparr>)"

definition poll_wait :: "(nat \<times> u32) list \<Rightarrow> SocketEvent list" where
  "poll_wait reported = map poll_event reported"

section \<open>The masks agree with the kernel\<close>

text \<open>For a descriptor handled by \<open>addEvent\<close>, \<open>delEvent\<close> and \<open>del\<close> alone.\<close>

definition poll_coherent :: "SocketPoller \<Rightarrow> u32 \<Rightarrow> bool" where
  "poll_coherent p fd \<longleftrightarrow>
     (case m_epoll p fd of
        None \<Rightarrow> fd_mask p fd = EP_NONE
      | Some (ev, ud) \<Rightarrow> fd_mask p fd \<noteq> EP_NONE \<and> ev = mask_events (fd_mask p fd))"

lemma fd_mask_set [simp]: "fd_mask (set_mask fd m p) fd' = (if fd' = fd then m else fd_mask p fd')"
  by (simp add: fd_mask_def set_mask_def)

lemma epoll_set_mask [simp]: "m_epoll (set_mask fd m p) = m_epoll p"
  by (simp add: set_mask_def)

lemma fd_mask_ctl [simp]: "fd_mask (snd (epoll_ctl op fd ev p)) = fd_mask p"
  by (cases op) (auto simp: epoll_ctl_def fd_mask_def fun_eq_iff Let_def)

lemma epoll_ctl_eq:
  "sint fd \<ge> 0 \<Longrightarrow> m_epoll (snd (epoll_ctl op fd ev p)) =
     (case op of
        EPOLL_CTL_ADD \<Rightarrow> (if m_epoll p fd = None then (m_epoll p)(fd \<mapsto> ev) else m_epoll p)
      | EPOLL_CTL_MOD \<Rightarrow> (if m_epoll p fd = None then m_epoll p else (m_epoll p)(fd \<mapsto> ev))
      | EPOLL_CTL_DEL \<Rightarrow> (m_epoll p)(fd := None))"
  by (cases op; cases "m_epoll p fd") (auto simp: epoll_ctl_def Let_def fun_upd_idem)

lemma poll_coherent_None: "poll_coherent p fd \<Longrightarrow> m_epoll p fd = None \<longleftrightarrow> fd_mask p fd = EP_NONE"
  by (auto simp: poll_coherent_def split: option.splits)

lemma addEvent_coherent:
  assumes "poll_coherent p fd" and "sint fd \<ge> 0" and "e \<noteq> 0"
  shows "poll_coherent (addEvent fd e ud p) fd"
    "m_epoll (addEvent fd e ud p) fd = Some (mask_events (fd_mask p fd OR e), ud)"
proof -
  have "fd_mask p fd OR e \<noteq> 0"
    using assms(3) by (metis or_eq_0_iff)
  then show "m_epoll (addEvent fd e ud p) fd = Some (mask_events (fd_mask p fd OR e), ud)"
    "poll_coherent (addEvent fd e ud p) fd"
    using assms(2) poll_coherent_None [OF assms(1)]
    by (auto simp: addEvent_def Let_def epoll_ctl_eq poll_coherent_def EP_NONE_def)
qed

lemma delEvent_coherent:
  assumes "poll_coherent p fd" and "sint fd \<ge> 0"
  shows "poll_coherent (delEvent fd e ud p) fd"
    "fd_mask (delEvent fd e ud p) fd = fd_mask p fd AND NOT e"
  using assms(2) poll_coherent_None [OF assms(1)] assms(1)
  by (auto simp: delEvent_def Let_def epoll_ctl_eq poll_coherent_def EP_NONE_def split: option.splits)

lemma poll_del_coherent:
  assumes "poll_coherent p fd" and "sint fd \<ge> 0"
  shows "poll_coherent (poll_del fd p) fd" "m_epoll (poll_del fd p) fd = None"
  using assms(2) poll_coherent_None [OF assms(1)]
  by (auto simp: poll_del_def Let_def epoll_ctl_eq poll_coherent_def EP_NONE_def)

lemma epoll_ctl_frame: "fd' \<noteq> fd \<Longrightarrow> m_epoll (snd (epoll_ctl op fd ev p)) fd' = m_epoll p fd'"
  by (cases op) (auto simp: epoll_ctl_def Let_def)

text \<open>No operation touches another descriptor.\<close>

lemma poll_frame:
  assumes "fd' \<noteq> fd"
  shows "m_epoll (addEvent fd e ud p) fd' = m_epoll p fd'" "fd_mask (addEvent fd e ud p) fd' = fd_mask p fd'"
    "m_epoll (delEvent fd e ud p) fd' = m_epoll p fd'" "fd_mask (delEvent fd e ud p) fd' = fd_mask p fd'"
    "m_epoll (poll_del fd p) fd' = m_epoll p fd'" "fd_mask (poll_del fd p) fd' = fd_mask p fd'"
    "m_epoll (addToWrite fd ud b p) fd' = m_epoll p fd'" "m_epoll (snd (addToRead fd ud p)) fd' = m_epoll p fd'"
  using assms
  by (simp_all add: addEvent_def delEvent_def poll_del_def addToWrite_def addToRead_def Let_def epoll_ctl_frame)

text \<open>Any sequence of the three operations keeps every descriptor coherent.\<close>

datatype poll_op = AddEvent u32 u32 nat | DelEvent u32 u32 nat | PollDel u32

fun poll_step :: "poll_op \<Rightarrow> SocketPoller \<Rightarrow> SocketPoller" where
  "poll_step (AddEvent fd e ud) p = addEvent fd e ud p"
| "poll_step (DelEvent fd e ud) p = delEvent fd e ud p"
| "poll_step (PollDel fd) p = poll_del fd p"

fun poll_op_ok :: "poll_op \<Rightarrow> bool" where
  "poll_op_ok (AddEvent fd e ud) \<longleftrightarrow> sint fd \<ge> 0 \<and> e \<noteq> 0"
| "poll_op_ok (DelEvent fd e ud) \<longleftrightarrow> sint fd \<ge> 0"
| "poll_op_ok (PollDel fd) \<longleftrightarrow> sint fd \<ge> 0"

lemma poll_step_coherent:
  assumes "\<forall>fd. poll_coherent p fd" and "poll_op_ok op"
  shows "\<forall>fd. poll_coherent (poll_step op p) fd"
proof
  fix fd
  note c = assms(1) [rule_format]
  have eq: "m_epoll p' fd = m_epoll p fd \<Longrightarrow> fd_mask p' fd = fd_mask p fd \<Longrightarrow> poll_coherent p' fd" for p'
    using c [of fd] by (auto simp: poll_coherent_def split: option.splits)
  show "poll_coherent (poll_step op p) fd"
  proof (cases op)
    case (AddEvent f e ud)
    then show ?thesis using addEvent_coherent(1) [OF c] assms(2) eq [of "addEvent f e ud p"]
      by (cases "fd = f") (simp_all add: poll_frame)
  next
    case (DelEvent f e ud)
    then show ?thesis using delEvent_coherent(1) [OF c] assms(2) eq [of "delEvent f e ud p"]
      by (cases "fd = f") (simp_all add: poll_frame)
  next
    case (PollDel f)
    then show ?thesis using poll_del_coherent(1) [OF c] assms(2) eq [of "poll_del f p"]
      by (cases "fd = f") (simp_all add: poll_frame)
  qed
qed

lemma poll_run_coherent:
  "\<forall>fd. poll_coherent p fd \<Longrightarrow> list_all poll_op_ok ops \<Longrightarrow> poll_coherent (fold poll_step ops p) fd"
proof (induction ops arbitrary: p)
  case (Cons op ops)
  have "\<forall>fd. poll_coherent (poll_step op p) fd"
    by (rule poll_step_coherent) (use Cons.prems in simp_all)
  then show ?case using Cons.IH Cons.prems(2) by simp
qed simp

end
