(* ===== verification/Io_Buffer.thy ===== *)
theory Io_Buffer
  imports Storm_Prelude
begin

text \<open>
  \<open>source/net/io_buffer.h\<close>: the growable byte buffer behind every connection. \<open>m_data\<close> is the
  allocated block; a cell that \<open>malloc\<close> left uninitialised is \<open>None\<close>. The three indices are
  \<open>uint32_t\<close> and wrap. A failed \<open>assert\<close> is the result \<open>None\<close> of \<open>readN\<close>/\<open>writeN\<close>; \<open>reserve\<close>
  is a loop that need not end, and \<open>None\<close> is that it does not.

  The invariant \<open>io_wf\<close> says that the block has \<open>m_capacity\<close> cells, that \<open>m_head \<le> m_tail \<le>
  m_capacity\<close>, and that every byte between them is initialised; \<open>contents\<close> is the byte string
  between the two indices, the abstraction under which the buffer is a FIFO of bytes (locale
  \<open>byte_fifo\<close>).
\<close>

section \<open>The buffer and its operations\<close>

record IoBuffer =
  m_data :: "char option list"
  m_capacity :: u32
  m_head :: u32
  m_tail :: u32

definition new_IoBuffer :: "u32 \<Rightarrow> IoBuffer" where
  "new_IoBuffer capacity =
     \<lparr>m_data = replicate (unat capacity) None, m_capacity = capacity, m_head = 0, m_tail = 0\<rparr>"

definition copy_IoBuffer :: "IoBuffer \<Rightarrow> IoBuffer" where
  "copy_IoBuffer rhs =
     (let h = unat (m_head rhs); n = unat (m_tail rhs - m_head rhs) in
      \<lparr>m_data = replicate h None @ take n (drop h (m_data rhs)) @ replicate (unat (m_capacity rhs) - (h + n)) None,
       m_capacity = m_capacity rhs, m_head = m_head rhs, m_tail = m_tail rhs\<rparr>)"

text \<open>Both constructors from bytes: a string, or a pointer with a length. The size is truncated to
  32 bits.\<close>

definition IoBuffer_of_string :: "string \<Rightarrow> IoBuffer" where
  "IoBuffer_of_string str =
     (let cap = word_of_nat (length str) in
      \<lparr>m_data = map Some (take (unat cap) str), m_capacity = cap, m_head = 0, m_tail = cap\<rparr>)"

definition IoBuffer_of_data :: "string \<Rightarrow> u32 \<Rightarrow> IoBuffer" where
  "IoBuffer_of_data d len =
     \<lparr>m_data = map Some (take (unat len) d), m_capacity = len, m_head = 0, m_tail = len\<rparr>"

definition getSize :: "IoBuffer \<Rightarrow> u32" where
  "getSize b = m_tail b - m_head b"

definition getRemainingSize :: "IoBuffer \<Rightarrow> u32" where
  "getRemainingSize b = m_capacity b - m_tail b"

definition getAllRemaingSize :: "IoBuffer \<Rightarrow> u32" where
  "getAllRemaingSize b = m_capacity b - getSize b"

definition reset :: "IoBuffer \<Rightarrow> IoBuffer" where
  "reset b = b\<lparr>m_head := 0, m_tail := 0\<rparr>"

definition readN :: "u32 \<Rightarrow> IoBuffer \<Rightarrow> IoBuffer option" where
  "readN iSize b =
     (if iSize \<le> getSize b then
        (let h = m_head b + iSize in
         if h = m_tail b then Some (b\<lparr>m_head := 0, m_tail := 0\<rparr>)
         else Some (b\<lparr>m_head := h\<rparr>))
      else None)"

text \<open>The compaction loop of \<open>writeN\<close>: \<open>m_data[i] = m_data[i + m_head]\<close> for \<open>i\<close> upwards.\<close>

function copy_down :: "nat \<Rightarrow> nat \<Rightarrow> nat \<Rightarrow> 'a list \<Rightarrow> 'a list" where
  "copy_down i n h d = (if i < n then copy_down (Suc i) n h (d[i := d ! (i + h)]) else d)"
  by pat_completeness auto
termination
  by (relation "measure (\<lambda>(i, n, h, d). n - i)") auto

declare copy_down.simps [simp del]

definition writeN :: "u32 \<Rightarrow> IoBuffer \<Rightarrow> IoBuffer option" where
  "writeN iSize b =
     (if iSize \<le> getRemainingSize b then
        (let iDataSize = getSize b + iSize; t = m_tail b + iSize in
         if t = m_capacity b \<and> m_head b \<noteq> 0 then
           Some (b\<lparr>m_data := copy_down 0 (unat iDataSize) (unat (m_head b)) (m_data b),
                   m_head := 0, m_tail := iDataSize\<rparr>)
         else Some (b\<lparr>m_tail := t\<rparr>))
      else None)"

definition subTail :: "u32 \<Rightarrow> IoBuffer \<Rightarrow> IoBuffer" where
  "subTail n b = (if getSize b < n then b else b\<lparr>m_tail := m_tail b - n\<rparr>)"

text \<open>The allocation is computed in \<open>size_t\<close>, the new capacity in \<open>uint32_t\<close>.\<close>

definition doubleCapacity :: "IoBuffer \<Rightarrow> IoBuffer" where
  "doubleCapacity b =
     (let c = unat (m_capacity b) in
      b\<lparr>m_data := take c (m_data b) @ replicate c None, m_capacity := m_capacity b * 2\<rparr>)"

partial_function (option) reserve :: "u32 \<Rightarrow> IoBuffer \<Rightarrow> IoBuffer option" where
  "reserve addSize b =
     (if getRemainingSize b < addSize then reserve addSize (doubleCapacity b) else Some b)"

text \<open>\<open>memcpy\<close> of bytes into the block at an offset.\<close>

definition poke :: "nat \<Rightarrow> string \<Rightarrow> char option list \<Rightarrow> char option list" where
  "poke off bs d = take off d @ map Some bs @ drop (off + length bs) d"

definition push_back_data :: "string \<Rightarrow> u32 \<Rightarrow> IoBuffer \<Rightarrow> IoBuffer option" where
  "push_back_data c len b =
     (case reserve len b of
        None \<Rightarrow> None
      | Some b' \<Rightarrow>
          Some (b'\<lparr>m_data := poke (unat (m_tail b')) (take (unat len) c) (m_data b'),
                   m_tail := m_tail b' + len\<rparr>))"

definition push_back_string :: "string \<Rightarrow> IoBuffer \<Rightarrow> IoBuffer option" where
  "push_back_string str b = push_back_data str (word_of_nat (length str)) b"

text \<open>The loop of \<open>push_back(uint32_t)\<close>: byte \<open>3 - i\<close> receives the lowest byte of what is left.\<close>

definition put_u32_byte :: "nat \<Rightarrow> nat \<Rightarrow> char option list \<times> u32 \<Rightarrow> char option list \<times> u32" where
  "put_u32_byte off i st =
     (case st of (d, data) \<Rightarrow>
        (d[off + (3 - i) := Some (char_of_byte (ucast (data AND 0xFF)))], drop_bit 8 data))"

definition push_back_u32 :: "u32 \<Rightarrow> IoBuffer \<Rightarrow> IoBuffer option" where
  "push_back_u32 data b =
     (case reserve 4 b of
        None \<Rightarrow> None
      | Some b' \<Rightarrow>
          Some (b'\<lparr>m_data := fst (fold (put_u32_byte (unat (m_tail b'))) [0, 1, 2, 3] (m_data b', data)),
                   m_tail := m_tail b' + 4\<rparr>))"

section \<open>Contents and invariant\<close>

definition contents :: "IoBuffer \<Rightarrow> string" where
  "contents b = map the (take (unat (m_tail b) - unat (m_head b)) (drop (unat (m_head b)) (m_data b)))"

definition io_wf :: "IoBuffer \<Rightarrow> bool" where
  "io_wf b \<longleftrightarrow>
     length (m_data b) = unat (m_capacity b) \<and>
     unat (m_head b) \<le> unat (m_tail b) \<and> unat (m_tail b) \<le> unat (m_capacity b) \<and>
     list_all (\<lambda>c. c \<noteq> None) (take (unat (m_tail b) - unat (m_head b)) (drop (unat (m_head b)) (m_data b)))"

text \<open>\<open>push_back(IoBuffer::ptr)\<close> copies the other buffer's bytes.\<close>

definition push_back_buffer :: "IoBuffer \<Rightarrow> IoBuffer \<Rightarrow> IoBuffer option" where
  "push_back_buffer buffer b = push_back_data (contents buffer) (getSize buffer) b"

text \<open>What \<open>::read(fd, getTail(), n)\<close> leaves in the block before \<open>writeN\<close> accounts for it.\<close>

definition fill_tail :: "string \<Rightarrow> IoBuffer \<Rightarrow> IoBuffer" where
  "fill_tail bs b = b\<lparr>m_data := poke (unat (m_tail b)) bs (m_data b)\<rparr>"

lemma io_wf_sizes:
  assumes "io_wf b"
  shows "length (contents b) = unat (m_tail b) - unat (m_head b)"
    and "unat (getSize b) = length (contents b)"
    and "unat (getRemainingSize b) = unat (m_capacity b) - unat (m_tail b)"
    and "length (m_data b) = unat (m_capacity b)"
  using assms by (auto simp: io_wf_def contents_def getSize_def getRemainingSize_def unat_sub_u32)

lemma io_wf_cells:
  assumes "io_wf b"
  shows "take (unat (m_tail b) - unat (m_head b)) (drop (unat (m_head b)) (m_data b)) = map Some (contents b)"
  using assms unfolding io_wf_def contents_def
  by (auto simp: list_all_iff map_idI comp_def intro!: map_idI [symmetric])

text \<open>The shape of a well-formed block: a dead zone, the contents, a free zone.\<close>

lemma io_wf_split:
  assumes "io_wf b"
  obtains pre post where "m_data b = pre @ map Some (contents b) @ post"
    and "length pre = unat (m_head b)" and "unat (m_tail b) = length pre + length (contents b)"
    and "unat (m_capacity b) = length pre + length (contents b) + length post"
proof -
  let ?h = "unat (m_head b)" and ?t = "unat (m_tail b)"
  have b: "?h \<le> ?t" "?t \<le> length (m_data b)" "length (m_data b) = unat (m_capacity b)"
    using assms by (auto simp: io_wf_def)
  have "m_data b = take ?h (m_data b) @ take (?t - ?h) (drop ?h (m_data b)) @ drop ?t (m_data b)"
    using b(1) by (metis append_take_drop_id drop_drop le_add_diff_inverse2)
  then have "m_data b = take ?h (m_data b) @ map Some (contents b) @ drop ?t (m_data b)"
    using io_wf_cells [OF assms] by simp
  then show thesis
    by (rule that) (use b io_wf_sizes [OF assms] in auto)
qed

lemma io_wfI:
  assumes "m_data b = pre @ map Some bs @ post"
    and "unat (m_head b) = length pre" and "unat (m_tail b) = length pre + length bs"
    and "unat (m_capacity b) = length pre + length bs + length post"
  shows "io_wf b" and "contents b = bs"
  using assms by (auto simp: io_wf_def contents_def list_all_iff comp_def)

section \<open>Constructors\<close>

lemma new_IoBuffer_ok: "io_wf (new_IoBuffer c)" "contents (new_IoBuffer c) = []"
  by (auto simp: new_IoBuffer_def io_wf_def contents_def)

lemma IoBuffer_of_data_ok:
  assumes "unat len \<le> length d"
  shows "io_wf (IoBuffer_of_data d len)" "contents (IoBuffer_of_data d len) = take (unat len) d"
  using assms io_wfI [of "IoBuffer_of_data d len" "[]" "take (unat len) d" "[]"]
  by (auto simp: IoBuffer_of_data_def)

lemma IoBuffer_of_string_data:
  "IoBuffer_of_string s = IoBuffer_of_data s (word_of_nat (length s))"
  by (simp add: IoBuffer_of_string_def IoBuffer_of_data_def Let_def)

lemma IoBuffer_of_string_ok [simp]:
  assumes "length s < 2 ^ 32"
  shows "io_wf (IoBuffer_of_string s)" "contents (IoBuffer_of_string s) = s"
  using assms IoBuffer_of_data_ok [of "word_of_nat (length s)" s]
  by (auto simp: IoBuffer_of_string_data)

lemma copy_IoBuffer_ok:
  assumes "io_wf b"
  shows "io_wf (copy_IoBuffer b)" "contents (copy_IoBuffer b) = contents b"
proof -
  obtain pre post where s: "m_data b = pre @ map Some (contents b) @ post"
    "length pre = unat (m_head b)" "unat (m_tail b) = length pre + length (contents b)"
    "unat (m_capacity b) = length pre + length (contents b) + length post"
    using io_wf_split [OF assms] by metis
  have "unat (m_tail b - m_head b) = length (contents b)"
    using io_wf_sizes(2) [OF assms] by (simp add: getSize_def)
  then have "m_data (copy_IoBuffer b) =
      replicate (length pre) None @ map Some (contents b) @ replicate (length post) None"
    using s by (simp add: copy_IoBuffer_def Let_def)
  note ok = io_wfI [OF this]
  show "io_wf (copy_IoBuffer b)" "contents (copy_IoBuffer b) = contents b"
    by (rule ok; use s in \<open>simp add: copy_IoBuffer_def Let_def\<close>)+
qed

section \<open>Consuming and appending\<close>

lemma reset_ok: "io_wf b \<Longrightarrow> io_wf (reset b)" "contents (reset b) = []"
  by (auto simp: reset_def io_wf_def contents_def)

lemma readN_ok:
  assumes wf: "io_wf b" and n: "unat n \<le> length (contents b)"
  shows "\<exists>b'. readN n b = Some b' \<and> io_wf b' \<and> contents b' = drop (unat n) (contents b)
    \<and> m_capacity b' = m_capacity b \<and> m_data b' = m_data b"
proof -
  obtain pre post where s: "m_data b = pre @ map Some (contents b) @ post"
    "length pre = unat (m_head b)" "unat (m_tail b) = length pre + length (contents b)"
    "unat (m_capacity b) = length pre + length (contents b) + length post"
    using io_wf_split [OF wf] by metis
  have le: "n \<le> getSize b" using n io_wf_sizes(2) [OF wf] by (simp add: word_le_nat_alt)
  have "unat (m_tail b) < 4294967296" by simp
  then have h: "unat (m_head b + n) = unat (m_head b) + unat n"
    using n s by (intro unat_add_u32) simp
  show ?thesis
  proof (cases "m_head b + n = m_tail b")
    case True
    with h s n have "drop (unat n) (contents b) = []" by simp
    with True le wf show ?thesis
      by (auto simp: readN_def Let_def io_wf_def contents_def)
  next
    case False
    let ?b = "b\<lparr>m_head := m_head b + n\<rparr>"
    have "m_data ?b = (pre @ map Some (take (unat n) (contents b))) @ map Some (drop (unat n) (contents b)) @ post"
      using s(1) by (simp flip: map_append)
    note ok = io_wfI [OF this]
    have "io_wf ?b" "contents ?b = drop (unat n) (contents b)"
      by (rule ok; use s h n in simp)+
    with False le show ?thesis by (simp add: readN_def Let_def)
  qed
qed

lemma readN_assert: "io_wf b \<Longrightarrow> length (contents b) < unat n \<Longrightarrow> readN n b = None"
  by (simp add: readN_def word_le_nat_alt io_wf_sizes(2))

lemma copy_down_eq:
  "i \<le> n \<Longrightarrow> n + h \<le> length d \<Longrightarrow>
     copy_down i n h d = take i d @ take (n - i) (drop (i + h) d) @ drop n d"
proof (induction i n h d rule: copy_down.induct)
  case (1 i n h d)
  show ?case
  proof (cases "i < n")
    case True
    let ?d = "d[i := d ! (i + h)]"
    have "copy_down i n h d = take (Suc i) ?d @ take (n - Suc i) (drop (Suc i + h) ?d) @ drop n ?d"
      using 1 True by (simp add: copy_down.simps [of i])
    also have "take (Suc i) ?d = take i d @ [d ! (i + h)]"
      using True 1(3) by (simp add: take_Suc_conv_app_nth)
    also have "drop (Suc i + h) ?d = drop (Suc i + h) d" by simp
    also have "drop n ?d = drop n d" using True by simp
    also have "(take i d @ [d ! (i + h)]) @ take (n - Suc i) (drop (Suc i + h) d) @ drop n d
        = take i d @ take (n - i) (drop (i + h) d) @ drop n d"
      using True 1(3) by (simp add: drop_eq_nth_Cons [of "i + h" d] take_Cons' Suc_diff_Suc)
    finally show ?thesis .
  next
    case False
    with 1(2) show ?thesis by (simp add: copy_down.simps [of n n])
  qed
qed

lemma poke_split:
  "length pre = off \<Longrightarrow> length bs \<le> length post \<Longrightarrow>
     poke off bs (pre @ post) = pre @ map Some bs @ drop (length bs) post"
  by (simp add: poke_def)

lemma writeN_ok:
  assumes wf: "io_wf b" and n: "unat n = length bs" "length bs \<le> unat (getRemainingSize b)"
  shows "\<exists>b'. writeN n (fill_tail bs b) = Some b' \<and> io_wf b' \<and> contents b' = contents b @ bs
    \<and> m_capacity b' = m_capacity b"
proof -
  obtain pre post where s: "m_data b = pre @ map Some (contents b) @ post"
    "length pre = unat (m_head b)" "unat (m_tail b) = length pre + length (contents b)"
    "unat (m_capacity b) = length pre + length (contents b) + length post"
    using io_wf_split [OF wf] by metis
  let ?f = "fill_tail bs b" and ?c = "contents b @ bs"
  have post: "length bs \<le> length post" using n(2) s by (simp add: io_wf_sizes(3) [OF wf])
  have "unat (m_capacity b) < 4294967296" by simp
  then have t: "unat (m_tail b + n) = length pre + length ?c" and z: "unat (getSize b + n) = length ?c"
    using n(1) s post io_wf_sizes(2) [OF wf] by (simp_all add: unat_add_u32)
  have d: "m_data ?f = pre @ map Some ?c @ drop (length bs) post"
    using s post poke_split [of "pre @ map Some (contents b)" "unat (m_tail b)" bs post]
    by (simp add: fill_tail_def)
  have g: "n \<le> getRemainingSize ?f" and sz: "getSize ?f = getSize b"
    using n by (simp_all add: word_le_nat_alt fill_tail_def getRemainingSize_def getSize_def)
  show ?thesis
  proof (cases "m_tail b + n = m_capacity b \<and> m_head b \<noteq> 0")
    case True
    let ?b = "?f\<lparr>m_data := copy_down 0 (length ?c) (length pre) (m_data ?f), m_head := 0, m_tail := getSize b + n\<rparr>"
    have "writeN n ?f = Some ?b"
      using True g sz z s(2) by (simp add: writeN_def Let_def fill_tail_def)
    moreover have "m_data ?b = [] @ map Some ?c @ drop (length ?c) (m_data ?f)"
      using d by (simp add: copy_down_eq)
    from io_wfI [OF this] have "io_wf ?b" "contents ?b = ?c"
      using z s d post by (simp_all add: fill_tail_def)
    ultimately show ?thesis by (simp add: fill_tail_def)
  next
    case False
    let ?b = "?f\<lparr>m_tail := m_tail b + n\<rparr>"
    have "writeN n ?f = Some ?b"
      using False g by (auto simp: writeN_def Let_def fill_tail_def)
    moreover have "m_data ?b = pre @ map Some ?c @ drop (length bs) post" using d by simp
    from io_wfI [OF this] have "io_wf ?b" "contents ?b = ?c"
      using t s post by (simp_all add: fill_tail_def)
    ultimately show ?thesis by (simp add: fill_tail_def)
  qed
qed

lemma subTail_ok:
  assumes wf: "io_wf b" and n: "unat n \<le> length (contents b)"
  shows "io_wf (subTail n b)" "contents (subTail n b) = take (length (contents b) - unat n) (contents b)"
proof -
  obtain pre post where s: "m_data b = pre @ map Some (contents b) @ post"
    "length pre = unat (m_head b)" "unat (m_tail b) = length pre + length (contents b)"
    "unat (m_capacity b) = length pre + length (contents b) + length post"
    using io_wf_split [OF wf] by metis
  let ?k = "length (contents b) - unat n"
  have lt: "\<not> getSize b < n" using n by (simp add: word_less_nat_alt io_wf_sizes(2) [OF wf])
  have t: "unat (m_tail b - n) = length pre + ?k" using n s by (simp add: unat_sub_u32)
  have "map Some (contents b) = map Some (take ?k (contents b)) @ map Some (drop ?k (contents b))"
    by (simp flip: map_append)
  with s(1) lt have "m_data (subTail n b) =
      pre @ map Some (take ?k (contents b)) @ (map Some (drop ?k (contents b)) @ post)"
    by (simp add: subTail_def)
  note ok = io_wfI [OF this]
  show "io_wf (subTail n b)" "contents (subTail n b) = take ?k (contents b)"
    by (rule ok; use s t lt n in \<open>simp add: subTail_def\<close>)+
qed

section \<open>Growing\<close>

lemma doubleCapacity_ok:
  assumes wf: "io_wf b" and c: "unat (m_capacity b) < 2 ^ 31"
  shows "io_wf (doubleCapacity b)" "contents (doubleCapacity b) = contents b"
    and "unat (m_capacity (doubleCapacity b)) = 2 * unat (m_capacity b)"
    and "m_tail (doubleCapacity b) = m_tail b"
proof -
  obtain pre post where s: "m_data b = pre @ map Some (contents b) @ post"
    "length pre = unat (m_head b)" "unat (m_tail b) = length pre + length (contents b)"
    "unat (m_capacity b) = length pre + length (contents b) + length post"
    using io_wf_split [OF wf] by metis
  have "unat (m_capacity b * 2) = unat (m_capacity b) * unat (2 :: u32)"
    using c unat_mult_lem [of "m_capacity b" "2 :: u32"] by simp
  then have c2: "unat (m_capacity b * 2) = 2 * unat (m_capacity b)" by simp
  then show "unat (m_capacity (doubleCapacity b)) = 2 * unat (m_capacity b)"
    and "m_tail (doubleCapacity b) = m_tail b"
    by (simp_all add: doubleCapacity_def Let_def)
  have "m_data (doubleCapacity b) = pre @ map Some (contents b) @ (post @ replicate (unat (m_capacity b)) None)"
    using s io_wf_sizes(4) [OF wf] by (simp add: doubleCapacity_def Let_def)
  note ok = io_wfI [OF this]
  show "io_wf (doubleCapacity b)" "contents (doubleCapacity b) = contents b"
    by (rule ok; use s c2 in \<open>simp add: doubleCapacity_def Let_def\<close>)+
qed

text \<open>The loop of \<open>reserve\<close> ends when the buffer has a capacity to double and what is asked for
  stays within half the 32-bit range.\<close>

lemma reserve_ok:
  assumes "io_wf b" and "m_capacity b \<noteq> 0" and "unat (m_tail b) + unat n \<le> 2 ^ 31"
  shows "\<exists>b'. reserve n b = Some b' \<and> io_wf b' \<and> contents b' = contents b \<and> m_tail b' = m_tail b
    \<and> m_capacity b' \<noteq> 0 \<and> unat n \<le> unat (getRemainingSize b')"
  using assms
proof (induction "unat (m_tail b) + unat n - unat (m_capacity b)" arbitrary: b rule: less_induct)
  case less
  show ?case
  proof (cases "getRemainingSize b < n")
    case False
    then show ?thesis using less.prems
      by (subst reserve.simps) (simp add: word_less_nat_alt not_less)
  next
    case True
    let ?b = "doubleCapacity b"
    have t: "unat (m_tail b) \<le> unat (m_capacity b)" using less.prems(1) by (simp add: io_wf_def)
    then have short: "unat (m_capacity b) < unat (m_tail b) + unat n"
      using True less.prems(1) by (simp add: word_less_nat_alt io_wf_sizes(3))
    note dbl = doubleCapacity_ok [OF less.prems(1)]
    have pos: "0 < unat (m_capacity b)" using less.prems(2) by (simp add: unat_gt_0)
    have c: "unat (m_capacity b) < 2 ^ 31" using short less.prems(3) by simp
    have "\<exists>b'. reserve n ?b = Some b' \<and> io_wf b' \<and> contents b' = contents ?b \<and> m_tail b' = m_tail ?b
        \<and> m_capacity b' \<noteq> 0 \<and> unat n \<le> unat (getRemainingSize b')"
    proof (rule less.hyps)
      show "io_wf ?b" by (rule dbl(1) [OF c])
      show "m_capacity ?b \<noteq> 0" using dbl(3) [OF c] pos by (metis mult_pos_pos unat_0 less_numeral_extra(3) zero_less_numeral)
      show "unat (m_tail ?b) + unat n \<le> 2 ^ 31" using dbl(4) [OF c] less.prems(3) by simp
      show "unat (m_tail ?b) + unat n - unat (m_capacity ?b) < unat (m_tail b) + unat n - unat (m_capacity b)"
        using dbl(3,4) [OF c] pos short by simp
    qed
    then show ?thesis
      using True dbl(2,4) [OF c] by (subst reserve.simps) simp
  qed
qed

text \<open>With no capacity, doubling makes none: the loop does not end.\<close>

lemma reserve_empty_diverges:
  assumes "m_capacity b = 0" and "m_tail b = 0" and "n \<noteq> 0"
  shows "reserve n b = None"
proof (rule ccontr)
  assume "reserve n b \<noteq> None"
  then obtain r where r: "reserve n b = Some r" by auto
  have "\<not> (m_capacity b = 0 \<and> m_tail b = 0 \<and> n \<noteq> 0)"
  proof (rule reserve.raw_induct [where P = "\<lambda>n b r. \<not> (m_capacity b = 0 \<and> m_tail b = 0 \<and> n \<noteq> 0)", OF _ r])
    fix f n b r
    assume IH: "\<And>n b r. f n b = Some r \<Longrightarrow> \<not> (m_capacity b = 0 \<and> m_tail b = 0 \<and> n \<noteq> 0)"
      and eq: "(if getRemainingSize b < n then f n (doubleCapacity b) else Some b) = Some r"
    show "\<not> (m_capacity b = 0 \<and> m_tail b = 0 \<and> n \<noteq> 0)"
    proof
      assume z: "m_capacity b = 0 \<and> m_tail b = 0 \<and> n \<noteq> 0"
      then have "getRemainingSize b < n" by (simp add: getRemainingSize_def word_neq_0_conv)
      with eq have "f n (doubleCapacity b) = Some r" by simp
      from IH [OF this] z show False by (simp add: doubleCapacity_def Let_def)
    qed
  qed
  with assms show False by simp
qed

section \<open>Appending\<close>

lemma push_back_data_ok:
  assumes wf: "io_wf b" and cap: "m_capacity b \<noteq> 0"
    and len: "unat (m_tail b) + unat len \<le> 2 ^ 31" and d: "unat len \<le> length d"
  shows "\<exists>b'. push_back_data d len b = Some b' \<and> io_wf b' \<and> contents b' = contents b @ take (unat len) d
    \<and> m_capacity b' \<noteq> 0 \<and> unat (m_tail b') = unat (m_tail b) + unat len"
proof -
  obtain b1 where r: "reserve len b = Some b1" "io_wf b1" "contents b1 = contents b" "m_tail b1 = m_tail b"
    "m_capacity b1 \<noteq> 0" "unat len \<le> unat (getRemainingSize b1)"
    using reserve_ok [OF wf cap len] by blast
  obtain pre post where s: "m_data b1 = pre @ map Some (contents b1) @ post"
    "length pre = unat (m_head b1)" "unat (m_tail b1) = length pre + length (contents b1)"
    "unat (m_capacity b1) = length pre + length (contents b1) + length post"
    using io_wf_split [OF r(2)] by metis
  let ?bs = "take (unat len) d"
  let ?b = "b1\<lparr>m_data := poke (unat (m_tail b1)) ?bs (m_data b1), m_tail := m_tail b1 + len\<rparr>"
  have post: "length ?bs \<le> length post" "length ?bs = unat len"
    using r(6) s d by (simp_all add: io_wf_sizes(3) [OF r(2)])
  have t: "unat (m_tail b1 + len) = unat (m_tail b1) + unat len"
    using len r(4) by (simp add: unat_add_u32)
  have "m_data ?b = pre @ map Some (contents b1 @ ?bs) @ drop (length ?bs) post"
    using s post poke_split [of "pre @ map Some (contents b1)" "unat (m_tail b1)" ?bs post] by simp
  from io_wfI [OF this] have "io_wf ?b" "contents ?b = contents b1 @ ?bs"
    using s t post by simp_all
  then show ?thesis using r t by (simp add: push_back_data_def)
qed

text \<open>The four bytes of a 32-bit value, most significant first.\<close>

definition be32 :: "u32 \<Rightarrow> string" where
  "be32 w = map (\<lambda>k. char_of_byte (ucast (drop_bit k w))) [24, 16, 8, 0]"

lemma length_be32 [simp]: "length (be32 w) = 4"
  by (simp add: be32_def)

lemma ucast_low_byte: "(ucast (w AND 0xFF :: u32) :: u8) = ucast w"
proof -
  have "w AND 0xFF = take_bit 8 w" by (simp add: take_bit_eq_mask mask_eq_exp_minus_1)
  then show ?thesis by (auto intro!: bit_word_eqI simp: bit_simps)
qed

lemma length_ge_4: "4 \<le> length xs \<Longrightarrow> \<exists>a b c e post. xs = a # b # c # e # post"
  by (auto simp: numeral_eq_Suc Suc_le_length_iff)

lemma put_u32_poke:
  assumes "off + 4 \<le> length d"
  shows "fst (fold (put_u32_byte off) [0, 1, 2, 3] (d, w)) = poke off (be32 w) d"
proof -
  have "length (drop off d) \<ge> 4" using assms by simp
  then obtain a b c e post where "drop off d = a # b # c # e # post"
    using length_ge_4 by blast
  then obtain pre where d: "d = pre @ a # b # c # e # post" and off: "length pre = off"
    using assms by (metis append_take_drop_id length_take min_absorb2 add_leD1)
  show ?thesis
    unfolding d off [symmetric]
    by (simp add: put_u32_byte_def ucast_low_byte poke_def be32_def list_update_append drop_bit_drop_bit
        numeral_eq_Suc)
qed

lemma push_back_u32_data:
  assumes "io_wf b" and "m_capacity b \<noteq> 0" and "unat (m_tail b) + 4 \<le> 2 ^ 31"
  shows "push_back_u32 w b = push_back_data (be32 w) 4 b"
proof -
  obtain b1 where r: "reserve 4 b = Some b1" "io_wf b1" "unat (4 :: u32) \<le> unat (getRemainingSize b1)"
    using reserve_ok [of b 4] assms by auto
  have "unat (m_tail b1) + 4 \<le> length (m_data b1)"
    using r io_wf_sizes(3,4) [OF r(2)] by (simp add: io_wf_def)
  then show ?thesis
    unfolding push_back_u32_def push_back_data_def r(1) by (simp only: option.case put_u32_poke) (simp add: be32_def)
qed

section \<open>The buffer as a FIFO of bytes\<close>

text \<open>A client puts byte strings in and takes counted prefixes out. \<open>fifo_run\<close> runs such a
  sequence and collects what was taken; \<open>fifo_ok\<close> says that every step is within the limits
  the operations promise to work in.\<close>

datatype fifo_op = Put string | Take u32

fun fifo_run ::
  "(string \<Rightarrow> 'b \<Rightarrow> 'b option) \<Rightarrow> (u32 \<Rightarrow> 'b \<Rightarrow> 'b option) \<Rightarrow> ('b \<Rightarrow> string) \<Rightarrow>
   fifo_op list \<Rightarrow> 'b \<Rightarrow> (string \<times> 'b) option" where
  "fifo_run put get view [] b = Some ([], b)"
| "fifo_run put get view (Put s # ops) b =
     (case put s b of None \<Rightarrow> None | Some b' \<Rightarrow> fifo_run put get view ops b')"
| "fifo_run put get view (Take n # ops) b =
     (case get n b of
        None \<Rightarrow> None
      | Some b' \<Rightarrow> map_option (\<lambda>(out, b''). (take (unat n) (view b) @ out, b'')) (fifo_run put get view ops b'))"

fun fifo_ok ::
  "(string \<Rightarrow> 'b \<Rightarrow> 'b option) \<Rightarrow> (u32 \<Rightarrow> 'b \<Rightarrow> 'b option) \<Rightarrow> ('b \<Rightarrow> string) \<Rightarrow> (string \<Rightarrow> 'b \<Rightarrow> bool) \<Rightarrow>
   fifo_op list \<Rightarrow> 'b \<Rightarrow> bool" where
  "fifo_ok put get view fits [] b = True"
| "fifo_ok put get view fits (Put s # ops) b =
     (fits s b \<and> (case put s b of None \<Rightarrow> True | Some b' \<Rightarrow> fifo_ok put get view fits ops b'))"
| "fifo_ok put get view fits (Take n # ops) b =
     (unat n \<le> length (view b) \<and> (case get n b of None \<Rightarrow> True | Some b' \<Rightarrow> fifo_ok put get view fits ops b'))"

fun fifo_put :: "fifo_op list \<Rightarrow> string" where
  "fifo_put [] = []"
| "fifo_put (Put s # ops) = s @ fifo_put ops"
| "fifo_put (Take n # ops) = fifo_put ops"

locale byte_fifo =
  fixes view :: "'b \<Rightarrow> string"
    and put :: "string \<Rightarrow> 'b \<Rightarrow> 'b option"
    and get :: "u32 \<Rightarrow> 'b \<Rightarrow> 'b option"
    and fits :: "string \<Rightarrow> 'b \<Rightarrow> bool"
    and invar :: "'b \<Rightarrow> bool"
  assumes put_ok: "invar b \<Longrightarrow> fits s b \<Longrightarrow> \<exists>b'. put s b = Some b' \<and> invar b' \<and> view b' = view b @ s"
    and get_ok: "invar b \<Longrightarrow> unat n \<le> length (view b) \<Longrightarrow>
      \<exists>b'. get n b = Some b' \<and> invar b' \<and> view b' = drop (unat n) (view b)"
begin

text \<open>No byte is lost, duplicated or reordered: what came out, followed by what is still inside,
  is what was inside followed by what was put in.\<close>

lemma fifo_order:
  "invar b \<Longrightarrow> fifo_ok put get view fits ops b \<Longrightarrow>
     \<exists>out b'. fifo_run put get view ops b = Some (out, b') \<and> invar b' \<and>
       out @ view b' = view b @ fifo_put ops"
proof (induction ops arbitrary: b)
  case (Cons op ops)
  show ?case
  proof (cases op)
    case (Put s)
    then obtain b' where b': "put s b = Some b'" "invar b'" "view b' = view b @ s"
      using put_ok Cons.prems by fastforce
    with Put Cons.IH [of b'] Cons.prems show ?thesis by auto
  next
    case (Take n)
    then obtain b' where b': "get n b = Some b'" "invar b'" "view b' = drop (unat n) (view b)"
      using get_ok Cons.prems by fastforce
    with Take Cons.IH [of b'] Cons.prems obtain out b'' where
      "fifo_run put get view ops b' = Some (out, b'')" "invar b''" "out @ view b'' = view b' @ fifo_put ops"
      by auto
    with Take b' show ?thesis by auto
  qed
qed simp

end

text \<open>The write side of a connection being opened: \<open>push_back\<close> and \<open>readN\<close>.\<close>

definition push_ready :: "IoBuffer \<Rightarrow> bool" where
  "push_ready b \<longleftrightarrow> io_wf b \<and> m_capacity b \<noteq> 0"

definition push_fits :: "string \<Rightarrow> IoBuffer \<Rightarrow> bool" where
  "push_fits s b \<longleftrightarrow> unat (m_tail b) + length s \<le> 2 ^ 31"

lemma push_back_string_ok:
  assumes "push_ready b" and "push_fits s b"
  shows "\<exists>b'. push_back_string s b = Some b' \<and> push_ready b' \<and> contents b' = contents b @ s"
proof -
  have len: "unat (word_of_nat (length s) :: u32) = length s"
    using assms(2) by (simp add: push_fits_def)
  show ?thesis
    using push_back_data_ok [of b "word_of_nat (length s)" s] assms len
    by (auto simp: push_back_string_def push_ready_def push_fits_def)
qed

lemma push_readN_ok:
  assumes "push_ready b" and "unat n \<le> length (contents b)"
  shows "\<exists>b'. readN n b = Some b' \<and> push_ready b' \<and> contents b' = drop (unat n) (contents b)"
  using readN_ok [of b n] assms by (auto simp: push_ready_def)

interpretation pushbuf: byte_fifo contents push_back_string readN push_fits push_ready
  by unfold_locales (simp_all add: push_back_string_ok push_readN_ok)

section \<open>Assignment\<close>

text \<open>The assignment allocates like the copy constructor, without freeing the old array: the second
  result are the arrays that nothing refers to any more. The object must not be assigned to itself, where
  \<open>memcpy\<close> would read the new array.\<close>

definition assign_IoBuffer :: "IoBuffer \<Rightarrow> IoBuffer \<Rightarrow> IoBuffer \<times> char option list list" where
  "assign_IoBuffer rhs b = (copy_IoBuffer rhs, [m_data b])"

definition assign_self :: "IoBuffer \<Rightarrow> IoBuffer \<times> char option list list" where
  "assign_self b = (b\<lparr>m_data := replicate (unat (m_capacity b)) None\<rparr>, [m_data b])"

lemma assign_IoBuffer_ok:
  "io_wf b \<Longrightarrow> io_wf (fst (assign_IoBuffer b c)) \<and> contents (fst (assign_IoBuffer b c)) = contents b"
  by (simp add: assign_IoBuffer_def copy_IoBuffer_ok)

lemma assign_self_loses: "i < unat (m_capacity b) \<Longrightarrow> m_data (fst (assign_self b)) ! i = None"
  by (simp add: assign_self_def)

end
