(* ===== verification/Util_Protocol.thy ===== *)
theory Util_Protocol
  imports Io_Buffer
begin

text \<open>
  \<open>source/util/util_protocol.h\<close> (the two packet formats) and \<open>source/net/socket_handler.cpp\<close> (the
  loop that cuts a connection's bytes into packets).

  A parser takes the read buffer and returns a code, the packet's place (an offset into the
  buffer's block, where the C++ returns a pointer) with its size, and the buffer after
  \<open>readN\<close>; \<open>None\<close> is a failed assertion. \<open>view_packet\<close> reads the packet's bytes: \<open>None\<close> when
  they run past the allocated block.

  The locale \<open>packet_parser\<close> is what \<open>SocketHandler\<close> relies on: a complete frame in front of the
  buffer is delivered and removed, a partial frame is left alone. The lemmas about \<open>onData\<close> are
  proved in it; both formats are interpretations.
\<close>

section \<open>Codes and packets\<close>

datatype packet_code = Packet_Normal | Packet_Less | Packet_Error

type_synonym parse_result = "(packet_code \<times> nat \<times> u32 \<times> IoBuffer) option"

definition view_packet :: "IoBuffer \<Rightarrow> nat \<Rightarrow> u32 \<Rightarrow> string option" where
  "view_packet b off sz =
     (if off + unat sz \<le> length (m_data b)
      then Some (map the (take (unat sz) (drop off (m_data b)))) else None)"

text \<open>\<open>getHead()[i]\<close>.\<close>

definition byte_at :: "IoBuffer \<Rightarrow> nat \<Rightarrow> char" where
  "byte_at b i = the (m_data b ! (unat (m_head b) + i))"

section \<open>Length-prefixed packets\<close>

definition Len_encode :: "string \<Rightarrow> IoBuffer option" where
  "Len_encode data =
     (let bufferLen = word_of_nat (length data + 4) in
      case push_back_u32 bufferLen (new_IoBuffer bufferLen) of
        None \<Rightarrow> None
      | Some buffer \<Rightarrow> push_back_string data buffer)"

text \<open>The overload for a protobuf message: \<open>byteSize\<close> is \<open>msg.ByteSize()\<close> and \<open>bytes\<close> what
  \<open>msg.SerializeToArray\<close> writes (\<open>None\<close> when it fails, and the result is the null pointer,
  \<open>Some None\<close>).\<close>

definition Len_encode_msg :: "u32 \<Rightarrow> string option \<Rightarrow> IoBuffer option option" where
  "Len_encode_msg byteSize bytes =
     (let len = byteSize; bufferLen = len + 4 in
      case push_back_u32 bufferLen (new_IoBuffer bufferLen) of
        None \<Rightarrow> None
      | Some buffer \<Rightarrow>
          (case bytes of
             None \<Rightarrow> Some None
           | Some bs \<Rightarrow>
               map_option Some
                 (writeN len (buffer\<lparr>m_data := poke (unat (m_head buffer) + 4) bs (m_data buffer)\<rparr>))))"

text \<open>One round of the loop that reads the length: \<open>data[i]\<close> is a signed \<open>char\<close>, promoted to
  \<open>int\<close>, shifted and masked.\<close>

definition add_len_byte :: "IoBuffer \<Rightarrow> nat \<Rightarrow> u32 \<Rightarrow> u32" where
  "add_len_byte b i bufferLen =
     (let shift_bit = (3 - i) * 8 in
      bufferLen + (push_bit shift_bit (scast (byte_of (byte_at b i))) AND push_bit shift_bit 0xFF))"

definition Len_decode :: "u32 \<Rightarrow> IoBuffer \<Rightarrow> parse_result" where
  "Len_decode maxLen b =
     (let len = getSize b in
      if len < 4 then Some (Packet_Less, 0, 0, b)
      else
        let bufferLen = fold (add_len_byte b) [0, 1, 2, 3] 0 in
        if bufferLen > maxLen then Some (Packet_Error, 0, 0, b)
        else if len < bufferLen then Some (Packet_Less, 0, 0, b)
        else
          (case readN bufferLen b of
             None \<Rightarrow> None
           | Some b' \<Rightarrow> Some (Packet_Normal, unat (m_head b) + 4, bufferLen - 4, b')))"

section \<open>Lines\<close>

function line_loop :: "u32 \<Rightarrow> IoBuffer \<Rightarrow> nat \<Rightarrow> nat \<Rightarrow> parse_result" where
  "line_loop maxLen b len i =
     (if i < len - 1 then
        (if byte_at b i = CHR 0x0D \<and> byte_at b (Suc i) = CHR 0x0A then
           (case readN (word_of_nat (i + 2)) b of
              None \<Rightarrow> None
            | Some b' \<Rightarrow> Some (Packet_Normal, unat (m_head b), word_of_nat i, b'))
         else if i \<ge> unat maxLen then Some (Packet_Error, 0, 0, b)
         else line_loop maxLen b len (Suc i))
      else Some (Packet_Less, 0, 0, b))"
  by pat_completeness auto
termination
  by (relation "measure (\<lambda>(maxLen, b, len, i). len - i)") auto

declare line_loop.simps [simp del]

definition Line_decode :: "u32 \<Rightarrow> IoBuffer \<Rightarrow> parse_result" where
  "Line_decode maxLen b =
     (let len = getSize b in
      if len = 0 then Some (Packet_Less, 0, 0, b) else line_loop maxLen b (unat len) 0)"

section \<open>Cutting a connection's bytes into packets\<close>

text \<open>\<open>OutOfBounds\<close>: an assertion failed, or the handler was given a packet that runs past the
  allocated block. \<open>onPacket\<close> is the virtual member, acting on the handler's state.\<close>

datatype 'h data_result = Returned bool 'h IoBuffer | OutOfBounds

partial_function (option) onData ::
  "(IoBuffer \<Rightarrow> parse_result) \<Rightarrow> (string \<Rightarrow> 'h \<Rightarrow> 'h) \<Rightarrow> 'h \<Rightarrow> IoBuffer \<Rightarrow> 'h data_result option" where
  "onData m_parser onPacket h b =
     (case m_parser b of
        None \<Rightarrow> Some OutOfBounds
      | Some (code, off, sz, b') \<Rightarrow>
          (case code of
             Packet_Less \<Rightarrow> Some (Returned True h b')
           | Packet_Error \<Rightarrow> Some (Returned False h b')
           | Packet_Normal \<Rightarrow>
               (case view_packet b' off sz of
                  None \<Rightarrow> Some OutOfBounds
                | Some d \<Rightarrow> onData m_parser onPacket (onPacket d h) b')))"

section \<open>The parser interface\<close>

text \<open>Taking bytes from the front moves no boundary up.\<close>

definition consumed :: "IoBuffer \<Rightarrow> IoBuffer \<Rightarrow> bool" where
  "consumed b b' \<longleftrightarrow> m_capacity b' = m_capacity b \<and> m_tail b' \<le> m_tail b"

lemma consumed_refl [simp]: "consumed b b"
  by (simp add: consumed_def)

lemma consumed_trans [trans]: "consumed b b' \<Longrightarrow> consumed b' b'' \<Longrightarrow> consumed b b''"
  by (auto simp: consumed_def)

lemma readN_consumed: "readN n b = Some b' \<Longrightarrow> consumed b b'"
  by (auto simp: readN_def consumed_def Let_def split: if_splits)

locale packet_parser =
  fixes parse :: "IoBuffer \<Rightarrow> parse_result"
    and frame :: "string \<Rightarrow> string"
    and valid :: "string \<Rightarrow> bool"
  assumes parse_frame: "io_wf b \<Longrightarrow> valid p \<Longrightarrow> contents b = frame p @ rest \<Longrightarrow>
      \<exists>off sz b'. parse b = Some (Packet_Normal, off, sz, b') \<and> view_packet b' off sz = Some p \<and>
        io_wf b' \<and> contents b' = rest \<and> consumed b b'"
    and parse_partial: "io_wf b \<Longrightarrow> valid p \<Longrightarrow> strict_prefix (contents b) (frame p) \<Longrightarrow>
      parse b = Some (Packet_Less, 0, 0, b)"
    and parse_empty: "io_wf b \<Longrightarrow> contents b = [] \<Longrightarrow> parse b = Some (Packet_Less, 0, 0, b)"
begin

text \<open>Complete frames are delivered in order; a partial frame stays in the buffer.\<close>

lemma onData_frames:
  assumes "io_wf b" and "\<forall>p \<in> set ps. valid p"
    and "part = [] \<or> (\<exists>q. valid q \<and> strict_prefix part (frame q))"
    and "contents b = concat (map frame ps) @ part"
  shows "\<exists>b'. onData parse f h b = Some (Returned True (fold f ps h) b') \<and> io_wf b' \<and>
    contents b' = part \<and> consumed b b'"
  using assms
proof (induction ps arbitrary: b h)
  case Nil
  then have "parse b = Some (Packet_Less, 0, 0, b)" by (auto simp: parse_partial parse_empty)
  with Nil show ?case by (subst onData.simps) simp
next
  case (Cons p ps)
  then obtain off sz b' where p: "parse b = Some (Packet_Normal, off, sz, b')"
    "view_packet b' off sz = Some p" "io_wf b'" "contents b' = concat (map frame ps) @ part"
    "consumed b b'"
    using parse_frame [of b p] by fastforce
  moreover have "\<exists>b''. onData parse f (f p h) b' = Some (Returned True (fold f ps (f p h)) b'') \<and>
      io_wf b'' \<and> contents b'' = part \<and> consumed b' b''"
    by (rule Cons.IH) (use Cons.prems p in auto)
  ultimately show ?case by (subst onData.simps) (auto intro: consumed_trans)
qed

text \<open>Every prefix of a sequence of frames is a sequence of frames and a partial one.\<close>

lemma prefix_frames:
  "prefix s (concat (map frame ps)) \<Longrightarrow> \<forall>p \<in> set ps. valid p \<Longrightarrow>
     \<exists>qs rs part. ps = qs @ rs \<and> s = concat (map frame qs) @ part \<and>
       (part = [] \<or> (\<exists>q. valid q \<and> strict_prefix part (frame q)))"
proof (induction ps arbitrary: s)
  case (Cons p ps)
  show ?case
  proof (cases "strict_prefix s (frame p)")
    case True
    then show ?thesis using Cons.prems
      by (intro exI [of _ "[]"] exI [of _ "p # ps"] exI [of _ s]) auto
  next
    case False
    have "prefix s (frame p @ concat (map frame ps))" using Cons.prems by simp
    with False obtain s' where s: "s = frame p @ s'" "prefix s' (concat (map frame ps))"
      by (auto simp: prefix_append strict_prefix_def)
    with Cons.IH [of s'] Cons.prems obtain qs rs part where
      "ps = qs @ rs" "s' = concat (map frame qs) @ part"
      "part = [] \<or> (\<exists>q. valid q \<and> strict_prefix part (frame q))"
      by auto
    with s show ?thesis
      by (intro exI [of _ "p # qs"] exI [of _ rs] exI [of _ part]) simp
  qed
qed simp

text \<open>A partial frame is decided by the bytes alone, so a sequence of frames cut anywhere gives
  the same packets: first those complete in the first part, then the others.\<close>

lemma onData_split:
  assumes "\<forall>p \<in> set ps. valid p" and "s1 @ s2 = concat (map frame ps)"
    and "io_wf b1" and "contents b1 = s1"
  obtains qs rs b1' where "ps = qs @ rs"
    and "onData parse f h b1 = Some (Returned True (fold f qs h) b1')"
    and "io_wf b1'" and "contents b1' @ s2 = concat (map frame rs)" and "consumed b1 b1'"
    and "contents b1' = [] \<or> (\<exists>q. valid q \<and> strict_prefix (contents b1') (frame q))"
proof -
  have "prefix s1 (concat (map frame ps))" using assms(2) by (metis prefixI)
  from prefix_frames [OF this assms(1)] obtain qs rs part where
    q: "ps = qs @ rs" "s1 = concat (map frame qs) @ part"
      "part = [] \<or> (\<exists>q. valid q \<and> strict_prefix part (frame q))"
    by blast
  have "\<exists>b'. onData parse f h b1 = Some (Returned True (fold f qs h) b') \<and> io_wf b' \<and>
      contents b' = part \<and> consumed b1 b'"
    by (rule onData_frames) (use assms q in auto)
  then obtain b' where b': "onData parse f h b1 = Some (Returned True (fold f qs h) b')" "io_wf b'"
    "contents b' = part" "consumed b1 b'"
    by blast
  have "part @ s2 = concat (map frame rs)" using assms(2) q by simp
  with b' q(1,3) that show thesis by simp
qed

end

section \<open>The length format\<close>

text \<open>Sign extension does not matter: shift and mask keep exactly the byte.\<close>

lemma masked_byte:
  "s \<le> 24 \<Longrightarrow> push_bit s (scast (w :: u8)) AND push_bit s 0xFF = (push_bit s (ucast w) :: u32)"
proof (rule bit_word_eqI)
  fix n
  have m: "(0xFF :: u32) = mask 8" by (simp add: mask_eq_exp_minus_1)
  assume "s \<le> 24" and "n < LENGTH(32)"
  then show "bit (push_bit s (scast w) AND push_bit s 0xFF :: u32) n = bit (push_bit s (ucast w) :: u32) n"
    unfolding m using bit_imp_le_length [of w "n - s"]
    by (cases "n - s = 7") (auto simp: bit_simps min_def)
qed

lemma add_disjoint: "x AND y = 0 \<Longrightarrow> x + y = (x OR y :: u32)"
  by (rule disjunctive_add_eq_or)

lemma be32_sum:
  "push_bit 24 (ucast (ucast (drop_bit 24 w) :: u8)) + push_bit 16 (ucast (ucast (drop_bit 16 w) :: u8))
   + push_bit 8 (ucast (ucast (drop_bit 8 w) :: u8)) + ucast (ucast w :: u8) = (w :: u32)"
proof -
  let ?a = "push_bit 24 (ucast (ucast (drop_bit 24 w) :: u8)) :: u32"
  let ?b = "push_bit 16 (ucast (ucast (drop_bit 16 w) :: u8)) :: u32"
  let ?c = "push_bit 8 (ucast (ucast (drop_bit 8 w) :: u8)) :: u32"
  let ?d = "ucast (ucast w :: u8) :: u32"
  have "?a AND ?b = 0" "(?a OR ?b) AND ?c = 0" "(?a OR ?b OR ?c) AND ?d = 0"
    by (auto intro!: bit_word_eqI simp: bit_simps)
  then have "?a + ?b + ?c + ?d = ?a OR ?b OR ?c OR ?d"
    by (simp add: add_disjoint or.assoc)
  also have "\<dots> = w"
  proof (rule bit_word_eqI)
    fix n
    assume "n < LENGTH(32)"
    then consider "n < 8" | "8 \<le> n" "n < 16" | "16 \<le> n" "n < 24" | "24 \<le> n" "n < 32" by fastforce
    then show "bit (?a OR ?b OR ?c OR ?d) n = bit w n"
      by cases (auto simp: bit_simps)
  qed
  finally show ?thesis .
qed

lemma byte_at_contents: "io_wf b \<Longrightarrow> i < length (contents b) \<Longrightarrow> byte_at b i = contents b ! i"
  by (simp add: byte_at_def contents_def io_wf_def)

lemma add_len_byte_eq:
  "add_len_byte b i acc = acc + push_bit ((3 - i) * 8) (ucast (byte_of (byte_at b i)))"
  unfolding add_len_byte_def Let_def by (subst masked_byte) simp_all

lemma read_len:
  assumes "io_wf b" and "prefix (be32 w) (contents b)"
  shows "fold (add_len_byte b) [0, 1, 2, 3] 0 = w"
proof -
  obtain rest where c: "contents b = be32 w @ rest" using assms(2) by (auto simp: prefix_def)
  have "byte_of (byte_at b i) = ucast (drop_bit ((3 - i) * 8) w)" if "i < 4" for i
  proof -
    have "byte_at b i = be32 w ! i"
      using byte_at_contents [OF assms(1), of i] that by (simp add: c nth_append)
    also have "\<dots> = char_of_byte (ucast (drop_bit ((3 - i) * 8) w))"
      using that by (auto simp: be32_def numeral_eq_Suc less_Suc_eq)
    finally show ?thesis by simp
  qed
  then show ?thesis
    using be32_sum [of w] by (simp add: add_len_byte_eq)
qed

text \<open>The frame of a payload: its length with the header, then the payload.\<close>

definition len_frame :: "string \<Rightarrow> string" where
  "len_frame p = be32 (word_of_nat (length p + 4)) @ p"

definition len_valid :: "u32 \<Rightarrow> string \<Rightarrow> bool" where
  "len_valid maxLen p \<longleftrightarrow> length p + 4 \<le> unat maxLen"

lemma len_valid_unat:
  "len_valid maxLen p \<Longrightarrow> unat (word_of_nat (length p + 4) :: u32) = length p + 4"
  using unat_u32_less [of maxLen] by (intro unat_of_nat_u32) (simp add: len_valid_def del: unat_u32_less)

lemma Len_decode_frame:
  assumes wf: "io_wf b" and v: "len_valid maxLen p" and c: "contents b = len_frame p @ rest"
  shows "\<exists>off sz b'. Len_decode maxLen b = Some (Packet_Normal, off, sz, b') \<and>
    view_packet b' off sz = Some p \<and> io_wf b' \<and> contents b' = rest \<and> consumed b b'"
proof -
  let ?n = "word_of_nat (length p + 4) :: u32"
  note n = len_valid_unat [OF v]
  have len: "fold (add_len_byte b) [0, 1, 2, 3] 0 = ?n"
    by (rule read_len [OF wf]) (simp add: c len_frame_def)
  have sz: "unat (getSize b) = length p + 4 + length rest"
    using c by (simp add: io_wf_sizes(2) [OF wf] len_frame_def)
  have "\<exists>b'. readN ?n b = Some b' \<and> io_wf b' \<and> contents b' = drop (unat ?n) (contents b)
    \<and> m_capacity b' = m_capacity b \<and> m_data b' = m_data b"
    by (rule readN_ok [OF wf]) (use n c in \<open>simp add: len_frame_def\<close>)
  then obtain b' where b': "readN ?n b = Some b'" "io_wf b'" "contents b' = rest"
    "m_capacity b' = m_capacity b" "m_data b' = m_data b"
    using n c by (auto simp: len_frame_def)
  have "Len_decode maxLen b = Some (Packet_Normal, unat (m_head b) + 4, ?n - 4, b')"
    using len sz n v b' unfolding Len_decode_def
    by (simp add: word_less_nat_alt Let_def len_valid_def del: fold.simps of_nat_add)
  moreover have "view_packet b' (unat (m_head b) + 4) (?n - 4) = Some p"
  proof -
    obtain pre post where s: "m_data b = pre @ map Some (contents b) @ post" "length pre = unat (m_head b)"
      using io_wf_split [OF wf] by metis
    have "unat (?n - 4) = length p" using n by (simp add: unat_sub_u32 del: of_nat_add)
    then show ?thesis using s c b'(5) by (simp add: view_packet_def len_frame_def comp_def)
  qed
  ultimately show ?thesis using b' readN_consumed [OF b'(1)] by blast
qed

lemma Len_decode_partial:
  assumes wf: "io_wf b" and v: "len_valid maxLen p" and c: "strict_prefix (contents b) (len_frame p)"
  shows "Len_decode maxLen b = Some (Packet_Less, 0, 0, b)"
proof -
  note n = len_valid_unat [OF v]
  have short: "unat (getSize b) < length p + 4"
    using c prefix_length_less [OF c] by (simp add: io_wf_sizes(2) [OF wf] len_frame_def)
  show ?thesis
  proof (cases "length (contents b) < 4")
    case True
    then show ?thesis by (simp add: Len_decode_def word_less_nat_alt io_wf_sizes(2) [OF wf])
  next
    case False
    have "prefix (be32 (word_of_nat (length p + 4))) (contents b)"
      using c False unfolding len_frame_def
      by (metis length_be32 not_less prefix_length_prefix prefixI strict_prefixE')
    from read_len [OF wf this] show ?thesis
      using short n v False
      by (simp add: Len_decode_def word_less_nat_alt Let_def len_valid_def io_wf_sizes(2) [OF wf] del: fold.simps of_nat_add)
  qed
qed

lemma Len_decode_empty: "io_wf b \<Longrightarrow> contents b = [] \<Longrightarrow> Len_decode maxLen b = Some (Packet_Less, 0, 0, b)"
  by (simp add: Len_decode_def word_less_nat_alt io_wf_sizes(2))

interpretation len: packet_parser "Len_decode maxLen" len_frame "len_valid maxLen" for maxLen
  by unfold_locales (simp_all add: Len_decode_frame Len_decode_partial Len_decode_empty)

text \<open>The encoder builds exactly one frame.\<close>

lemma len_header_ok:
  assumes "n < 2 ^ 31" and n: "bufferLen = word_of_nat (n + 4)" and "n + 4 \<le> 2 ^ 31"
  shows "\<exists>b. push_back_u32 bufferLen (new_IoBuffer bufferLen) = Some b \<and> io_wf b \<and> contents b = be32 bufferLen
    \<and> m_capacity b \<noteq> 0 \<and> unat (m_tail b) = 4 \<and> unat (getRemainingSize b) = n \<and> m_head b = 0"
proof -
  have u: "unat bufferLen = n + 4" using assms by (simp add: n del: of_nat_add)
  then have cap: "bufferLen \<noteq> 0" by auto
  have "getRemainingSize (new_IoBuffer bufferLen) = bufferLen" by (simp add: new_IoBuffer_def getRemainingSize_def)
  moreover have "\<not> bufferLen < 4" using u by (simp add: word_less_nat_alt)
  ultimately have r: "reserve 4 (new_IoBuffer bufferLen) = Some (new_IoBuffer bufferLen)"
    by (subst reserve.simps) simp
  have eq: "push_back_u32 bufferLen (new_IoBuffer bufferLen) = push_back_data (be32 bufferLen) 4 (new_IoBuffer bufferLen)"
    by (rule push_back_u32_data) (use cap new_IoBuffer_ok in \<open>simp_all add: new_IoBuffer_def\<close>)
  have "\<exists>b. push_back_data (be32 bufferLen) 4 (new_IoBuffer bufferLen) = Some b \<and> io_wf b \<and>
      contents b = contents (new_IoBuffer bufferLen) @ take (unat (4 :: u32)) (be32 bufferLen) \<and> m_capacity b \<noteq> 0 \<and>
      unat (m_tail b) = unat (m_tail (new_IoBuffer bufferLen)) + unat (4 :: u32)"
    by (rule push_back_data_ok) (use cap new_IoBuffer_ok in \<open>simp_all add: new_IoBuffer_def\<close>)
  then obtain b where b: "push_back_data (be32 bufferLen) 4 (new_IoBuffer bufferLen) = Some b" "io_wf b"
    "contents b = be32 bufferLen" "m_capacity b \<noteq> 0" "unat (m_tail b) = 4"
    using new_IoBuffer_ok(2) by (auto simp: new_IoBuffer_def)
  moreover have "m_capacity b = bufferLen" "m_head b = 0"
    using b(1) r by (auto simp: push_back_data_def new_IoBuffer_def)
  ultimately show ?thesis using eq u io_wf_sizes(3) [OF b(2)] by auto
qed

lemma Len_encode_ok:
  assumes "length data + 4 \<le> 2 ^ 31"
  shows "\<exists>b. Len_encode data = Some b \<and> io_wf b \<and> contents b = len_frame data"
proof -
  let ?n = "word_of_nat (length data + 4) :: u32"
  obtain b where b: "push_back_u32 ?n (new_IoBuffer ?n) = Some b" "io_wf b" "contents b = be32 ?n"
    "m_capacity b \<noteq> 0" "unat (m_tail b) = 4"
    using len_header_ok [of "length data" ?n] assms by auto
  have "\<exists>b'. push_back_string data b = Some b' \<and> push_ready b' \<and> contents b' = contents b @ data"
    by (rule push_back_string_ok) (use b assms in \<open>simp_all add: push_ready_def push_fits_def\<close>)
  then show ?thesis using b by (auto simp: Len_encode_def Let_def len_frame_def push_ready_def)
qed

lemma Len_encode_msg_ok:
  assumes "length bs + 4 \<le> 2 ^ 31"
  shows "\<exists>b. Len_encode_msg (word_of_nat (length bs)) (Some bs) = Some (Some b) \<and> io_wf b \<and> contents b = len_frame bs"
proof -
  let ?n = "word_of_nat (length bs) + 4 :: u32"
  have n: "?n = word_of_nat (length bs + 4)" by simp
  have a: "length bs < 2 ^ 31" using assms by simp
  obtain b where b: "push_back_u32 ?n (new_IoBuffer ?n) = Some b" "io_wf b" "contents b = be32 ?n"
    "unat (m_tail b) = 4" "unat (getRemainingSize b) = length bs" "m_head b = 0"
    using len_header_ok [OF a n assms] by blast
  have "\<exists>b'. writeN (word_of_nat (length bs)) (fill_tail bs b) = Some b' \<and> io_wf b' \<and> contents b' = contents b @ bs
    \<and> m_capacity b' = m_capacity b"
    by (rule writeN_ok) (use b assms in simp_all)
  then show ?thesis
    using b by (auto simp: Len_encode_msg_def Let_def fill_tail_def len_frame_def add.commute)
qed

text \<open>On a well-formed buffer the decoder never trips the assertion of \<open>readN\<close>.\<close>

lemma Len_decode_total:
  assumes "io_wf b"
  shows "Len_decode maxLen b \<noteq> None"
proof -
  define n where "n = fold (add_len_byte b) [0, 1, 2, 3] 0"
  have "readN n b \<noteq> None" if "\<not> getSize b < n"
    using readN_ok [OF assms, of n] that by (auto simp: word_less_nat_alt io_wf_sizes(2) [OF assms])
  then show ?thesis
    unfolding Len_decode_def Let_def n_def [symmetric] by auto
qed

text \<open>A length field below the size of the header is not rejected: the packet's size wraps, and
  no block holds that many bytes.\<close>

lemma Len_decode_short:
  assumes wf: "io_wf b" and p: "prefix (be32 w) (contents b)" and w: "unat w < 4" "w \<le> maxLen"
  shows "\<exists>b'. Len_decode maxLen b = Some (Packet_Normal, unat (m_head b) + 4, w - 4, b') \<and>
    view_packet b' (unat (m_head b) + 4) (w - 4) = None"
proof -
  have len: "fold (add_len_byte b) [0, 1, 2, 3] 0 = w" by (rule read_len [OF wf p])
  have sz: "4 \<le> unat (getSize b)"
    using prefix_length_le [OF p] by (simp add: io_wf_sizes(2) [OF wf])
  have "\<exists>b'. readN w b = Some b' \<and> io_wf b' \<and> contents b' = drop (unat w) (contents b)
    \<and> m_capacity b' = m_capacity b \<and> m_data b' = m_data b"
    by (rule readN_ok [OF wf]) (use w sz in \<open>simp add: io_wf_sizes(2) [OF wf]\<close>)
  then obtain b' where b': "readN w b = Some b'" "m_data b' = m_data b" by blast
  have "Len_decode maxLen b = Some (Packet_Normal, unat (m_head b) + 4, w - 4, b')"
    using len sz w b' by (simp add: Len_decode_def word_less_nat_alt Let_def word_le_nat_alt del: fold.simps)
  moreover have "unat (w - 4) + 4 = 2 ^ 32 + unat w"
    using w(1) unat_sub_if_size [of w 4] by (simp add: word_size)
  then have "view_packet b' (unat (m_head b) + 4) (w - 4) = None"
    using b'(2) io_wf_sizes(4) [OF wf] unat_u32_less [of "m_capacity b"] by (simp add: view_packet_def del: unat_u32_less)
  ultimately show ?thesis by blast
qed

section \<open>The line format\<close>

definition line_frame :: "string \<Rightarrow> string" where
  "line_frame p = p @ [CHR 0x0D, CHR 0x0A]"

definition line_valid :: "u32 \<Rightarrow> string \<Rightarrow> bool" where
  "line_valid maxLen p \<longleftrightarrow> length p \<le> unat maxLen \<and> length p + 2 < 2 ^ 32 \<and>
     (\<forall>i < length p. \<not> (p ! i = CHR 0x0D \<and> (p @ [CHR 0x0D]) ! Suc i = CHR 0x0A))"

lemma line_no_break:
  assumes "line_valid maxLen p" and "prefix s (line_frame p)" and "i < length p" and "Suc i < length s"
  shows "\<not> (s ! i = CHR 0x0D \<and> s ! Suc i = CHR 0x0A)"
proof -
  obtain t where t: "line_frame p = s @ t" using assms(2) by (auto simp: prefix_def)
  have "s ! i = line_frame p ! i" "s ! Suc i = line_frame p ! Suc i"
    using assms(4) by (simp_all add: t nth_append)
  moreover have "line_frame p ! i = p ! i" "line_frame p ! Suc i = (p @ [CHR 0x0D]) ! Suc i"
    using assms(3) by (auto simp: line_frame_def nth_append)
  ultimately show ?thesis using assms(1,3) by (simp add: line_valid_def)
qed

lemma line_loop_frame:
  assumes wf: "io_wf b" and v: "line_valid maxLen p" and c: "contents b = line_frame p @ rest"
  shows "i \<le> length p \<Longrightarrow> line_loop maxLen b (unat (getSize b)) i = line_loop maxLen b (unat (getSize b)) (length p)"
proof (induction "length p - i" arbitrary: i)
  case (Suc n)
  then have i: "i < length p" by simp
  have len: "unat (getSize b) = length p + 2 + length rest"
    using c by (simp add: io_wf_sizes(2) [OF wf] line_frame_def)
  have "byte_at b i = line_frame p ! i" "byte_at b (Suc i) = line_frame p ! Suc i"
    using i c by (simp_all add: byte_at_contents [OF wf] nth_append line_frame_def)
  moreover have "\<not> (line_frame p ! i = CHR 0x0D \<and> line_frame p ! Suc i = CHR 0x0A)"
    by (rule line_no_break [OF v]) (use i in \<open>simp_all add: line_frame_def\<close>)
  moreover have "line_loop maxLen b (unat (getSize b)) (Suc i) = line_loop maxLen b (unat (getSize b)) (length p)"
    by (rule Suc.hyps(1)) (use Suc.hyps(2) i in simp_all)
  ultimately show ?case
    using i v len by (subst line_loop.simps) (auto simp: line_valid_def)
qed simp

lemma Line_decode_frame:
  assumes wf: "io_wf b" and v: "line_valid maxLen p" and c: "contents b = line_frame p @ rest"
  shows "\<exists>off sz b'. Line_decode maxLen b = Some (Packet_Normal, off, sz, b') \<and>
    view_packet b' off sz = Some p \<and> io_wf b' \<and> contents b' = rest \<and> consumed b b'"
proof -
  let ?n = "length p"
  have len: "unat (getSize b) = ?n + 2 + length rest"
    using c by (simp add: io_wf_sizes(2) [OF wf] line_frame_def)
  then have pos: "getSize b \<noteq> 0" by auto
  have u: "unat (word_of_nat (?n + 2) :: u32) = ?n + 2" using v by (intro unat_of_nat_u32) (simp add: line_valid_def)
  have "\<exists>b'. readN (word_of_nat (?n + 2)) b = Some b' \<and> io_wf b' \<and>
      contents b' = drop (unat (word_of_nat (?n + 2) :: u32)) (contents b)
    \<and> m_capacity b' = m_capacity b \<and> m_data b' = m_data b"
    by (rule readN_ok [OF wf]) (use c u in \<open>simp add: line_frame_def del: of_nat_add\<close>)
  then obtain b' where b': "readN (word_of_nat (?n + 2)) b = Some b'" "io_wf b'" "contents b' = rest"
    "m_capacity b' = m_capacity b" "m_data b' = m_data b"
    using c u by (auto simp: line_frame_def simp del: of_nat_add)
  have "byte_at b ?n = CHR 0x0D" "byte_at b (Suc ?n) = CHR 0x0A"
    using c by (simp_all add: byte_at_contents [OF wf] nth_append line_frame_def)
  then have "Line_decode maxLen b = Some (Packet_Normal, unat (m_head b), word_of_nat ?n, b')"
    using b'(1) len pos line_loop_frame [OF wf v c, of 0]
    by (simp add: Line_decode_def Let_def line_loop.simps [of maxLen b _ ?n] del: of_nat_add)
  moreover have "view_packet b' (unat (m_head b)) (word_of_nat ?n) = Some p"
  proof -
    obtain pre post where s: "m_data b = pre @ map Some (contents b) @ post" "length pre = unat (m_head b)"
      using io_wf_split [OF wf] by metis
    have "unat (word_of_nat ?n :: u32) = ?n" using v by (intro unat_of_nat_u32) (simp add: line_valid_def)
    then show ?thesis using s c b'(5) by (simp add: view_packet_def line_frame_def comp_def)
  qed
  ultimately show ?thesis using b' readN_consumed [OF b'(1)] by blast
qed

lemma line_loop_partial:
  assumes wf: "io_wf b" and v: "line_valid maxLen p" and c: "strict_prefix (contents b) (line_frame p)"
  shows "line_loop maxLen b (unat (getSize b)) i = Some (Packet_Less, 0, 0, b)"
proof (induction "length (contents b) - i" arbitrary: i)
  case 0
  then have "\<not> i < unat (getSize b) - 1" by (simp add: io_wf_sizes(2) [OF wf])
  then show ?case by (subst line_loop.simps) simp
next
  case (Suc n)
  show ?case
  proof (cases "Suc i < length (contents b)")
    case True
    have "length (contents b) < length (line_frame p)" by (rule prefix_length_less [OF c])
    then have i: "i < length p" using True by (simp add: line_frame_def)
    have "\<not> (contents b ! i = CHR 0x0D \<and> contents b ! Suc i = CHR 0x0A)"
      by (rule line_no_break [OF v]) (use c i True in \<open>simp_all add: strict_prefix_def\<close>)
    then show ?thesis
      using True i v Suc.hyps
      by (subst line_loop.simps) (auto simp: io_wf_sizes(2) [OF wf] byte_at_contents [OF wf] line_valid_def)
  next
    case False
    then have "\<not> i < unat (getSize b) - 1" by (simp add: io_wf_sizes(2) [OF wf])
    then show ?thesis by (subst line_loop.simps) simp
  qed
qed

lemma Line_decode_partial:
  "io_wf b \<Longrightarrow> line_valid maxLen p \<Longrightarrow> strict_prefix (contents b) (line_frame p) \<Longrightarrow>
     Line_decode maxLen b = Some (Packet_Less, 0, 0, b)"
  by (simp add: Line_decode_def Let_def line_loop_partial)

lemma Line_decode_empty: "io_wf b \<Longrightarrow> contents b = [] \<Longrightarrow> Line_decode maxLen b = Some (Packet_Less, 0, 0, b)"
  using io_wf_sizes(2) [of b] by (simp add: Line_decode_def unat_0_iff)

interpretation line: packet_parser "Line_decode maxLen" line_frame "line_valid maxLen" for maxLen
  by unfold_locales (simp_all add: Line_decode_frame Line_decode_partial Line_decode_empty)

end
