(* ===== verification/Util_Timelist.thy ===== *)
theory Util_Timelist
  imports Storm_Prelude
begin

text \<open>
  \<open>source/util/util_timelist.h\<close>: the deadline list behind connection, idle, keep-alive and request
  timeouts. The C++ keeps a list of \<open>(map iterator, deadline)\<close> nodes and a hash map from keys to
  list iterators. An iterator is modelled by the identity of its list node, a number drawn
  from \<open>tl_fresh\<close>; a node carries the key its map iterator points to.

  The invariant \<open>tl_wf\<close> ties the two structures together; under it the operations refine a plain
  queue of \<open>(key, deadline)\<close> pairs with distinct keys (\<open>spec_add\<close>, \<open>spec_del\<close>, \<open>spec_expire\<close>).
  The locale \<open>deadline_queue\<close> is what the timeouts of the loop, the listeners and the proxies rely
  on. All operations run under the list's own mutex, so each is one step; the callback runs
  inside \<open>timeout\<close> with that mutex held and so cannot touch the same list.
\<close>

section \<open>The list and its operations\<close>

record ('k, 't) TimeList =
  tl_timeout :: 't
  tl_map :: "'k \<rightharpoonup> nat"
  tl_list :: "(nat \<times> 'k \<times> 't) list"
  tl_func :: bool
  tl_fresh :: nat

text \<open>A new list has no function and an uninitialised timeout, the argument of \<open>tl_new\<close>. Whether
  \<open>m_func\<close> is set is \<open>tl_func\<close>; the calls of it are what \<open>tl_expire\<close> returns.\<close>

definition tl_new :: "'t \<Rightarrow> ('k, 't) TimeList" where
  "tl_new indeterminate =
     \<lparr>tl_timeout = indeterminate, tl_map = Map.empty, tl_list = [], tl_func = False, tl_fresh = 0\<rparr>"

definition tl_setTimeout :: "'t \<Rightarrow> ('k, 't) TimeList \<Rightarrow> ('k, 't) TimeList" where
  "tl_setTimeout time t = t\<lparr>tl_timeout := time\<rparr>"

definition tl_setFunction :: "bool \<Rightarrow> ('k, 't) TimeList \<Rightarrow> ('k, 't) TimeList" where
  "tl_setFunction func t = t\<lparr>tl_func := func\<rparr>"

definition tl_erase_node :: "nat \<Rightarrow> (nat \<times> 'k \<times> 't) list \<Rightarrow> (nat \<times> 'k \<times> 't) list" where
  "tl_erase_node i l = filter (\<lambda>(j, k, d). j \<noteq> i) l"

definition tl_size :: "('k, 't) TimeList \<Rightarrow> nat" where
  "tl_size t = length (tl_list t)"

definition tl_add :: "'k \<Rightarrow> 'n::len word \<Rightarrow> ('k, 'n word) TimeList \<Rightarrow> ('k, 'n word) TimeList" where
  "tl_add key now t =
     (let l = (case tl_map t key of Some it \<Rightarrow> tl_erase_node it (tl_list t) | None \<Rightarrow> tl_list t);
          i = tl_fresh t in
      t\<lparr>tl_map := (tl_map t)(key \<mapsto> i), tl_list := l @ [(i, key, now + tl_timeout t)], tl_fresh := Suc i\<rparr>)"

definition tl_del :: "'k \<Rightarrow> ('k, 't) TimeList \<Rightarrow> ('k, 't) TimeList" where
  "tl_del key t =
     (case tl_map t key of
        Some it \<Rightarrow> t\<lparr>tl_list := tl_erase_node it (tl_list t), tl_map := (tl_map t)(key := None)\<rparr>
      | None \<Rightarrow> t)"

text \<open>\<open>timeout(now)\<close>: the loop from the front; the keys passed to the callback come out in order.\<close>

fun tl_timeout_loop ::
  "'n::len word \<Rightarrow> ('k \<rightharpoonup> nat) \<Rightarrow> (nat \<times> 'k \<times> 'n word) list \<Rightarrow>
   'k list \<times> ('k \<rightharpoonup> nat) \<times> (nat \<times> 'k \<times> 'n word) list" where
  "tl_timeout_loop now m [] = ([], m, [])"
| "tl_timeout_loop now m ((i, k, d) # l) =
     (if now \<ge> d then
        (case tl_timeout_loop now (m(k := None)) l of (ks, m', l') \<Rightarrow> (k # ks, m', l'))
      else ([], m, (i, k, d) # l))"

definition tl_expire :: "'n::len word \<Rightarrow> ('k, 'n word) TimeList \<Rightarrow> 'k list \<times> ('k, 'n word) TimeList" where
  "tl_expire now t =
     (case tl_timeout_loop now (tl_map t) (tl_list t) of
        (ks, m, l) \<Rightarrow> (if tl_func t then ks else [], t\<lparr>tl_map := m, tl_list := l\<rparr>))"

section \<open>The queue it implements\<close>

definition tl_abs :: "('k, 't) TimeList \<Rightarrow> ('k \<times> 't) list" where
  "tl_abs t = map snd (tl_list t)"

definition spec_add :: "'k \<Rightarrow> 't \<Rightarrow> ('k \<times> 't) list \<Rightarrow> ('k \<times> 't) list" where
  "spec_add k d q = filter (\<lambda>(k', _). k' \<noteq> k) q @ [(k, d)]"

definition spec_del :: "'k \<Rightarrow> ('k \<times> 't) list \<Rightarrow> ('k \<times> 't) list" where
  "spec_del k q = filter (\<lambda>(k', _). k' \<noteq> k) q"

definition spec_expire :: "'t::linorder \<Rightarrow> ('k \<times> 't) list \<Rightarrow> 'k list \<times> ('k \<times> 't) list" where
  "spec_expire now q = (map fst (takeWhile (\<lambda>(_, d). d \<le> now) q), dropWhile (\<lambda>(_, d). d \<le> now) q)"

definition tl_wf :: "('k, 't) TimeList \<Rightarrow> bool" where
  "tl_wf t \<longleftrightarrow>
     distinct (map fst (tl_list t)) \<and> distinct (map fst (tl_abs t)) \<and>
     (\<forall>i \<in> fst ` set (tl_list t). i < tl_fresh t) \<and>
     (\<forall>k i. tl_map t k = Some i \<longleftrightarrow> (\<exists>d. (i, k, d) \<in> set (tl_list t)))"

lemma tl_wf_new: "tl_wf (tl_new d)" "tl_abs (tl_new d) = []"
  by (simp_all add: tl_wf_def tl_abs_def tl_new_def)

text \<open>Under the invariant, erasing the node a key maps to is erasing the key.\<close>

lemma tl_erase_is_filter:
  assumes "tl_wf t" and "tl_map t k = Some i"
  shows "tl_erase_node i (tl_list t) = filter (\<lambda>(j, k', d). k' \<noteq> k) (tl_list t)"
proof -
  from assms obtain d where d: "(i, k, d) \<in> set (tl_list t)" by (auto simp: tl_wf_def)
  have "j = i \<longleftrightarrow> k' = k" if e: "(j, k', d') \<in> set (tl_list t)" for j k' d'
  proof
    assume "j = i"
    then have "(i, k', d') = (i, k, d)"
      using e d assms(1) by (auto simp: tl_wf_def dest: eq_key_imp_eq_value)
    then show "k' = k" by simp
  next
    assume "k' = k"
    then have "tl_map t k = Some j" using e assms(1) by (auto simp: tl_wf_def)
    with assms(2) show "j = i" by simp
  qed
  then show ?thesis by (auto simp: tl_erase_node_def intro!: filter_cong)
qed

lemma tl_unmapped_filter:
  assumes "tl_wf t" and "tl_map t k = None"
  shows "filter (\<lambda>(j, k', d). k' \<noteq> k) (tl_list t) = tl_list t"
proof -
  have "tl_map t k' = Some j" if "(j, k', d) \<in> set (tl_list t)" for j k' d
    using that assms(1) by (auto simp: tl_wf_def)
  then have "k' \<noteq> k" if "(j, k', d) \<in> set (tl_list t)" for j k' d
    using that assms(2) by fastforce
  then show ?thesis by (auto intro!: filter_True)
qed

lemma map_snd_filter_key:
  "map snd (filter (\<lambda>(j, k', d). k' \<noteq> k) l) = filter (\<lambda>(k', d). k' \<noteq> k) (map snd l)"
  by (induction l) auto

text \<open>\<open>tl_del\<close> in one formula: the key's node and its map entry go.\<close>

lemma tl_del_eq:
  assumes "tl_wf t"
  shows "tl_del k t = t\<lparr>tl_list := filter (\<lambda>(j, k', d). k' \<noteq> k) (tl_list t), tl_map := (tl_map t)(k := None)\<rparr>"
  using assms
  by (cases "tl_map t k")
    (simp_all add: tl_del_def tl_erase_is_filter tl_unmapped_filter fun_upd_idem)

lemma tl_add_eq:
  assumes "tl_wf t"
  shows "tl_add k now t =
    (tl_del k t)\<lparr>tl_map := (tl_map t)(k \<mapsto> tl_fresh t),
      tl_list := tl_list (tl_del k t) @ [(tl_fresh t, k, now + tl_timeout t)], tl_fresh := Suc (tl_fresh t)\<rparr>"
  using assms
  by (cases "tl_map t k") (simp_all add: tl_add_def Let_def tl_del_eq tl_erase_is_filter tl_unmapped_filter)

section \<open>Refinement\<close>

lemma tl_del_abs: "tl_wf t \<Longrightarrow> tl_abs (tl_del k t) = spec_del k (tl_abs t)"
  by (simp add: tl_del_eq tl_abs_def spec_del_def map_snd_filter_key)

lemma sorted_map_filter_sub: "sorted (map f l) \<Longrightarrow> sorted (map f (filter P l))"
  by (rule sorted_filter)

lemma distinct_map_filter_sub: "distinct (map f l) \<Longrightarrow> distinct (map f (filter P l))"
  by (induction l) auto

lemma tl_del_wf: "tl_wf t \<Longrightarrow> tl_wf (tl_del k t)"
  by (auto simp: tl_del_eq tl_wf_def tl_abs_def distinct_map_filter_sub map_snd_filter_key split: if_splits)

lemma tl_add_abs: "tl_wf t \<Longrightarrow> tl_abs (tl_add k now t) = spec_add k (now + tl_timeout t) (tl_abs t)"
  by (simp add: tl_add_eq tl_abs_def spec_add_def tl_del_eq map_snd_filter_key)

lemma tl_add_wf:
  assumes "tl_wf t"
  shows "tl_wf (tl_add k now t)"
proof -
  define l where "l = tl_list (tl_del k t)"
  have d: "tl_wf (tl_del k t)" by (rule tl_del_wf [OF assms])
  have nok: "k \<notin> fst ` snd ` set l" using assms by (auto simp: tl_del_eq l_def)
  have "tl_fresh (tl_del k t) = tl_fresh t" using assms by (simp add: tl_del_eq)
  with d have lt: "\<forall>i \<in> fst ` set l. i < tl_fresh t"
    and di: "distinct (map fst l)" and dk: "distinct (map fst (map snd l))"
    by (simp_all add: tl_wf_def tl_abs_def l_def)
  have mp: "tl_map t k' = Some i \<longleftrightarrow> (\<exists>d. (i, k', d) \<in> set l)" if "k' \<noteq> k" for k' i
    using d that assms by (simp add: tl_wf_def l_def tl_del_eq)
  have nok': "(i, k, d) \<notin> set l" for i d using nok by force
  have "tl_map (tl_add k now t) = (tl_map t)(k \<mapsto> tl_fresh t)" by (simp add: tl_add_eq [OF assms])
  then have "tl_map (tl_add k now t) k' = Some i \<longleftrightarrow>
      (\<exists>d. (i, k', d) \<in> set (l @ [(tl_fresh t, k, now + tl_timeout t)]))" for k' i
    using mp [of k' i] nok' by (cases "k' = k") auto
  moreover have "tl_fresh t \<notin> fst ` set l" using lt by blast
  moreover have "tl_list (tl_add k now t) = l @ [(tl_fresh t, k, now + tl_timeout t)]"
    "tl_fresh (tl_add k now t) = Suc (tl_fresh t)"
    by (simp_all add: tl_add_eq [OF assms] l_def)
  ultimately show ?thesis
    using di dk lt nok by (auto simp: tl_wf_def tl_abs_def less_Suc_eq)
qed

lemma tl_timeout_loop_eq:
  "tl_timeout_loop now m l =
     (let ks = map (fst \<circ> snd) (takeWhile (\<lambda>(i, k, d). d \<le> now) l) in
      (ks, (\<lambda>k. if k \<in> set ks then None else m k), dropWhile (\<lambda>(i, k, d). d \<le> now) l))"
proof (induction l arbitrary: m)
  case (Cons e l)
  obtain i k d where e: "e = (i, k, d)" by (cases e)
  show ?case
    by (cases "d \<le> now") (simp_all add: e Cons.IH Let_def fun_eq_iff)
qed simp

lemma takeWhile_map_snd:
  "takeWhile (\<lambda>(k, d). P d) (map snd l) = map snd (takeWhile (\<lambda>(i, k, d). P d) l)"
  "dropWhile (\<lambda>(k, d). P d) (map snd l) = map snd (dropWhile (\<lambda>(i, k, d). P d) l)"
  by (induction l) auto

lemma tl_expire_abs:
  "tl_func t \<Longrightarrow> spec_expire now (tl_abs t) = (fst (tl_expire now t), tl_abs (snd (tl_expire now t)))"
  by (auto simp: spec_expire_def tl_expire_def tl_timeout_loop_eq tl_abs_def takeWhile_map_snd Let_def
      split: prod.split)

lemma tl_expire_wf:
  assumes "tl_wf t"
  shows "tl_wf (snd (tl_expire now t))"
proof -
  let ?P = "\<lambda>(i, k, d). d \<le> now"
  let ?e = "takeWhile ?P (tl_list t)" and ?r = "dropWhile ?P (tl_list t)"
  define E where "E = (fst \<circ> snd) ` set ?e"
  have l: "tl_list t = ?e @ ?r" by simp
  have di: "distinct (map fst (?e @ ?r))" and dk: "distinct (map (fst \<circ> snd) (?e @ ?r))"
    using assms unfolding l [symmetric] by (simp_all add: tl_wf_def tl_abs_def)
  have map_iff: "tl_map t k = Some i \<longleftrightarrow> (\<exists>d. (i, k, d) \<in> set ?e \<or> (i, k, d) \<in> set ?r)" for k i
    using assms by (metis l set_append tl_wf_def UnE UnCI)
  have "E \<inter> (fst \<circ> snd) ` set ?r = {}"
    using dk by (simp only: map_append distinct_append set_map E_def)
  moreover have "k \<in> (fst \<circ> snd) ` set ?r" if "(i, k, d) \<in> set ?r" for i k d
    by (rule image_eqI [OF _ that]) simp
  ultimately have rest: "k \<notin> E" if "(i, k, d) \<in> set ?r" for i k d
    using that by blast
  have gone: "k \<in> E" if "(i, k, d) \<in> set ?e" for i k d
    unfolding E_def by (rule image_eqI [OF _ that]) simp
  have "(if k \<in> E then None else tl_map t k) = Some i \<longleftrightarrow> (\<exists>d. (i, k, d) \<in> set ?r)" for k i
    using rest [of i k] gone [of i k] map_iff [of k i] by (cases "k \<in> E") auto
  moreover have "\<forall>i \<in> fst ` set ?r. i < tl_fresh t"
    using assms set_dropWhileD by (fastforce simp: tl_wf_def)
  moreover have "distinct (map fst ?r)" "distinct (map (fst \<circ> snd) ?r)"
    using di dk by (simp_all only: map_append distinct_append)
  moreover have "tl_list (snd (tl_expire now t)) = ?r" "tl_fresh (snd (tl_expire now t)) = tl_fresh t"
    "tl_map (snd (tl_expire now t)) = (\<lambda>k. if k \<in> E then None else tl_map t k)"
    by (simp_all add: tl_expire_def tl_timeout_loop_eq Let_def E_def)
  ultimately show ?thesis
    by (simp add: tl_wf_def tl_abs_def)
qed

text \<open>Callers pass a clock that does not go back, so deadlines are appended in order; then what
  expires is exactly what is due.\<close>

definition tl_ordered :: "('k, 't::linorder) TimeList \<Rightarrow> bool" where
  "tl_ordered t \<longleftrightarrow> sorted (map snd (tl_abs t))"

lemma tl_ordered_del: "tl_wf t \<Longrightarrow> tl_ordered t \<Longrightarrow> tl_ordered (tl_del k t)"
  by (simp add: tl_ordered_def tl_del_abs spec_del_def sorted_map_filter_sub)

lemma tl_ordered_add:
  assumes "tl_wf t" and "tl_ordered t" and "\<forall>d \<in> snd ` set (tl_abs t). d \<le> now + tl_timeout t"
  shows "tl_ordered (tl_add k now t)"
  using assms
  by (auto simp: tl_ordered_def tl_add_abs spec_add_def sorted_append sorted_map_filter_sub)

lemma tl_ordered_expire:
  assumes "tl_func t" and "tl_ordered t"
  shows "tl_ordered (snd (tl_expire now t))"
proof -
  have "tl_abs (snd (tl_expire now t)) = dropWhile (\<lambda>(_, d). d \<le> now) (tl_abs t)"
    using tl_expire_abs [OF assms(1), of now] by (simp add: spec_expire_def)
  then show ?thesis
    using assms(2) by (simp add: tl_ordered_def dropWhile_eq_drop drop_map [symmetric] sorted_wrt_drop)
qed

lemma takeWhile_sorted_filter:
  "sorted (map snd q) \<Longrightarrow> takeWhile (\<lambda>(_, d). d \<le> now) q = filter (\<lambda>(_, d). d \<le> (now::'t::linorder)) q"
  "sorted (map snd q) \<Longrightarrow> dropWhile (\<lambda>(_, d). d \<le> now) q = filter (\<lambda>(_, d). now < d) q"
proof (induction q)
  case (Cons e q)
  obtain k d where e: "e = (k, d)" by (cases e)
  have late: "now < snd x" if "\<not> d \<le> now" and "sorted (map snd (e # q))" and "x \<in> set q" for x
    using that by (auto simp: e)
  { case 1 then show ?case using Cons.IH(1) late
      by (cases "d \<le> now") (auto simp: e not_le intro!: filter_False [symmetric]) }
  { case 2 then show ?case using Cons.IH(2) late
      by (cases "d \<le> now") (auto simp: e not_le intro!: filter_True [symmetric]) }
qed simp_all

lemma tl_expire_exact:
  assumes "tl_func t" and "tl_ordered t"
  shows "fst (tl_expire now t) = map fst (filter (\<lambda>(_, d). d \<le> now) (tl_abs t))"
    "tl_abs (snd (tl_expire now t)) = filter (\<lambda>(_, d). now < d) (tl_abs t)"
  using tl_expire_abs [OF assms(1), of now] assms(2)
  by (simp_all add: spec_expire_def tl_ordered_def takeWhile_sorted_filter)

lemma tl_abs_distinct: "tl_wf t \<Longrightarrow> distinct (map fst (tl_abs t))"
  by (simp add: tl_wf_def)

text \<open>The keys of a list after each operation.\<close>

lemma tl_expire_keys:
  assumes "tl_wf t" and "tl_func t" and "tl_expire now t = (ids, t')"
  shows "fst ` set (tl_abs t') = fst ` set (tl_abs t) - set ids"
proof -
  have e: "ids = map fst (takeWhile (\<lambda>(_, d). d \<le> now) (tl_abs t))"
    "tl_abs t' = dropWhile (\<lambda>(_, d). d \<le> now) (tl_abs t)"
    using tl_expire_abs [OF assms(2), of now] assms(3) by (simp_all add: spec_expire_def)
  have "distinct (map fst (takeWhile (\<lambda>(_, d). d \<le> now) (tl_abs t) @ dropWhile (\<lambda>(_, d). d \<le> now) (tl_abs t)))"
    using tl_abs_distinct [OF assms(1)] by simp
  then have d: "set ids \<inter> fst ` set (tl_abs t') = {}"
    unfolding e by (simp only: map_append distinct_append set_map)
  have "fst ` set (takeWhile (\<lambda>(_, d). d \<le> now) (tl_abs t) @ dropWhile (\<lambda>(_, d). d \<le> now) (tl_abs t)) =
      set ids \<union> fst ` set (tl_abs t')"
    unfolding e by (simp only: set_append image_Un set_map)
  then have "fst ` set (tl_abs t) = set ids \<union> fst ` set (tl_abs t')" by simp
  with d show ?thesis by blast
qed

lemma tl_del_keys: "tl_wf t \<Longrightarrow> fst ` set (tl_abs (tl_del k t)) = fst ` set (tl_abs t) - {k}"
  by (auto simp: tl_del_abs spec_del_def)

lemma tl_add_keys: "tl_wf t \<Longrightarrow> fst ` set (tl_abs (tl_add k now t)) = insert k (fst ` set (tl_abs t))"
  by (auto simp: tl_add_abs spec_add_def)

section \<open>The contract its clients rely on\<close>

text \<open>A client arms a key at a time, disarms it, and polls at a time; its clock does not go back.
  \<open>inv now q\<close> says that \<open>q\<close> is a proper queue whose last operation was not after \<open>now\<close>, and
  \<open>deadline q k\<close> is when \<open>k\<close> is due.\<close>

datatype ('k, 't) tl_op = Arm 'k 't | Disarm 'k 't | Poll 't

fun tl_op_time :: "('k, 't) tl_op \<Rightarrow> 't" where
  "tl_op_time (Arm k now) = now"
| "tl_op_time (Disarm k now) = now"
| "tl_op_time (Poll now) = now"

text \<open>What is due after each operation, as the client sees it.\<close>

fun armed :: "('t \<Rightarrow> 't) \<Rightarrow> ('k, 't::linorder) tl_op \<Rightarrow> ('k \<rightharpoonup> 't) \<Rightarrow> ('k \<rightharpoonup> 't)" where
  "armed due (Arm k now) m = m(k \<mapsto> due now)"
| "armed due (Disarm k now) m = m(k := None)"
| "armed due (Poll now) m = (\<lambda>k. case m k of Some d \<Rightarrow> if d \<le> now then None else Some d | None \<Rightarrow> None)"

fun fires :: "('k, 't::linorder) tl_op \<Rightarrow> ('k \<rightharpoonup> 't) \<Rightarrow> 'k set" where
  "fires (Poll now) m = {k. \<exists>d. m k = Some d \<and> d \<le> now}"
| "fires _ m = {}"

fun armed_run :: "('t \<Rightarrow> 't) \<Rightarrow> ('k, 't::linorder) tl_op list \<Rightarrow> ('k \<rightharpoonup> 't) \<Rightarrow> 'k set list" where
  "armed_run due [] m = []"
| "armed_run due (op # ops) m = fires op m # armed_run due ops (armed due op m)"

locale deadline_queue =
  fixes arm :: "'k \<Rightarrow> 't::linorder \<Rightarrow> 'q \<Rightarrow> 'q"
    and disarm :: "'k \<Rightarrow> 'q \<Rightarrow> 'q"
    and expire :: "'t \<Rightarrow> 'q \<Rightarrow> 'k list \<times> 'q"
    and deadline :: "'q \<Rightarrow> 'k \<rightharpoonup> 't"
    and due :: "'t \<Rightarrow> 't"
    and in_range :: "'t \<Rightarrow> bool"
    and inv :: "'t \<Rightarrow> 'q \<Rightarrow> bool"
  assumes inv_later: "inv now q \<Longrightarrow> now \<le> now' \<Longrightarrow> in_range now' \<Longrightarrow> inv now' q"
    and inv_arm: "inv now q \<Longrightarrow> inv now (arm k now q)"
    and inv_disarm: "inv now q \<Longrightarrow> inv now (disarm k q)"
    and inv_expire: "inv now q \<Longrightarrow> inv now (snd (expire now q))"
    and deadline_arm: "inv now q \<Longrightarrow> deadline (arm k now q) = (deadline q)(k \<mapsto> due now)"
    and deadline_disarm: "inv now q \<Longrightarrow> deadline (disarm k q) = (deadline q)(k := None)"
    and deadline_expire: "inv now q \<Longrightarrow> deadline (snd (expire now q)) = armed due (Poll now) (deadline q)"
    and expire_fires: "inv now q \<Longrightarrow>
      distinct (fst (expire now q)) \<and> set (fst (expire now q)) = fires (Poll now) (deadline q)"
begin

fun do_op :: "('k, 't) tl_op \<Rightarrow> 'q \<Rightarrow> 'k list \<times> 'q" where
  "do_op (Arm k now) q = ([], arm k now q)"
| "do_op (Disarm k now) q = ([], disarm k q)"
| "do_op (Poll now) q = expire now q"

fun do_ops :: "('k, 't) tl_op list \<Rightarrow> 'q \<Rightarrow> 'k list list" where
  "do_ops [] q = []"
| "do_ops (op # ops) q = fst (do_op op q) # do_ops ops (snd (do_op op q))"

lemma do_op_correct:
  assumes "inv (tl_op_time op) q"
  shows "inv (tl_op_time op) (snd (do_op op q))"
    "deadline (snd (do_op op q)) = armed due op (deadline q)"
    "distinct (fst (do_op op q)) \<and> set (fst (do_op op q)) = fires op (deadline q)"
  using assms
  by (cases op; simp add: inv_arm inv_disarm inv_expire deadline_arm deadline_disarm deadline_expire
      expire_fires del: fires.simps(1) armed.simps(3); simp)+

theorem do_ops_correct:
  assumes "inv now q" and "sorted (now # map tl_op_time ops)" and "\<forall>op \<in> set ops. in_range (tl_op_time op)"
  shows "map set (do_ops ops q) = armed_run due ops (deadline q) \<and> list_all distinct (do_ops ops q)"
  using assms
proof (induction ops arbitrary: now q)
  case (Cons op ops)
  have i: "inv (tl_op_time op) q" using Cons.prems by (auto intro: inv_later [of now])
  note step = do_op_correct [OF i]
  have "map set (do_ops ops (snd (do_op op q))) = armed_run due ops (deadline (snd (do_op op q))) \<and>
      list_all distinct (do_ops ops (snd (do_op op q)))"
    by (rule Cons.IH [OF step(1)]) (use Cons.prems in auto)
  then show ?case using step by simp
qed simp

end

text \<open>A time list with a callback and timeout \<open>T\<close> meets the contract as long as no deadline wraps.\<close>

definition tl_inv :: "'n::len word \<Rightarrow> 'n word \<Rightarrow> ('k, 'n word) TimeList \<Rightarrow> bool" where
  "tl_inv T now t \<longleftrightarrow> tl_wf t \<and> tl_func t \<and> tl_timeout t = T \<and> tl_ordered t \<and>
     unat now + unat T < 2 ^ LENGTH('n) \<and> (\<forall>d \<in> snd ` set (tl_abs t). d \<le> now + T)"

lemma tl_op_fields [simp]:
  "tl_wf t \<Longrightarrow> tl_func (tl_add k now t) = tl_func t" "tl_wf t \<Longrightarrow> tl_timeout (tl_add k now t) = tl_timeout t"
  "tl_wf t \<Longrightarrow> tl_func (tl_del k t) = tl_func t" "tl_wf t \<Longrightarrow> tl_timeout (tl_del k t) = tl_timeout t"
  "tl_func (snd (tl_expire now t)) = tl_func t" "tl_timeout (snd (tl_expire now t)) = tl_timeout t"
  by (simp_all add: tl_add_eq tl_del_eq tl_expire_def split: prod.split)

lemma word_add_mono_no_wrap:
  fixes a b c :: "'n::len word"
  assumes "a \<le> b" and "unat b + unat c < 2 ^ LENGTH('n)"
  shows "a + c \<le> b + c"
  using assms by (simp add: word_le_nat_alt unat_word_ariths)

lemma map_of_filter_key: "map_of (filter (\<lambda>(k', d). k' \<noteq> k) q) = (map_of q)(k := None)"
  by (induction q) auto

lemma map_of_filter_value:
  "distinct (map fst q) \<Longrightarrow>
   map_of (filter (\<lambda>(k, d). P d) q) k = (case map_of q k of Some d \<Rightarrow> if P d then Some d else None | None \<Rightarrow> None)"
proof (induction q)
  case (Cons e q)
  have "map_of q (fst e) = None" using Cons.prems by (simp add: map_of_eq_None_iff)
  then show ?case using Cons by (auto split: option.splits)
qed simp

lemma tl_expire_fires:
  assumes "tl_inv T now t"
  shows "distinct (fst (tl_expire now t))"
    "set (fst (tl_expire now t)) = {k. \<exists>d. map_of (tl_abs t) k = Some d \<and> d \<le> now}"
proof -
  have e: "fst (tl_expire now t) = map fst (filter (\<lambda>(_, d). d \<le> now) (tl_abs t))"
    and d: "distinct (map fst (tl_abs t))"
    using assms tl_expire_exact(1) [of t now] by (simp_all add: tl_inv_def tl_abs_distinct)
  show "distinct (fst (tl_expire now t))" using d by (simp add: e distinct_map_filter_sub)
  show "set (fst (tl_expire now t)) = {k. \<exists>d. map_of (tl_abs t) k = Some d \<and> d \<le> now}"
    using d by (force simp: e)
qed

lemma tl_abs_expire:
  "tl_inv T now t \<Longrightarrow> tl_abs (snd (tl_expire now t)) = filter (\<lambda>(_, d). now < d) (tl_abs t)"
  using tl_expire_exact(2) [of t now] by (simp add: tl_inv_def)

interpretation tl: deadline_queue tl_add tl_del tl_expire "\<lambda>t. map_of (tl_abs t)"
  "\<lambda>now. now + T" "\<lambda>now. unat now + unat T < 2 ^ LENGTH('n)" "tl_inv T"
  for T :: "'n::len word"
proof
  fix now now' :: "'n word" and t :: "('k, 'n word) TimeList" and k
  show "tl_inv T now' t"
    if "tl_inv T now t" "now \<le> now'" "unat now' + unat T < 2 ^ LENGTH('n)"
    using that word_add_mono_no_wrap [of now now' T] by (auto simp: tl_inv_def intro: order.trans)
  assume i: "tl_inv T now t"
  show "tl_inv T now (tl_add k now t)"
    using i by (auto simp: tl_inv_def tl_add_wf tl_ordered_add tl_add_abs spec_add_def)
  show "tl_inv T now (tl_del k t)"
    using i by (auto simp: tl_inv_def tl_del_wf tl_ordered_del tl_del_abs spec_del_def)
  show "tl_inv T now (snd (tl_expire now t))"
    using i tl_abs_expire [OF i] by (auto simp: tl_inv_def tl_expire_wf tl_ordered_expire)
  show "map_of (tl_abs (tl_add k now t)) = (map_of (tl_abs t))(k \<mapsto> now + T)"
    using i by (auto simp: tl_inv_def tl_add_abs spec_add_def map_of_filter_key map_add_def fun_eq_iff
        split: option.split)
  show "map_of (tl_abs (tl_del k t)) = (map_of (tl_abs t))(k := None)"
    using i by (simp add: tl_inv_def tl_del_abs spec_del_def map_of_filter_key)
  show "map_of (tl_abs (snd (tl_expire now t))) = armed (\<lambda>now. now + T) (Poll now) (map_of (tl_abs t))"
    using i by (auto simp: tl_abs_expire [OF i] tl_inv_def map_of_filter_value tl_abs_distinct fun_eq_iff
        split: option.splits)
  show "distinct (fst (tl_expire now t)) \<and> set (fst (tl_expire now t)) = fires (Poll now) (map_of (tl_abs t))"
    using tl_expire_fires [OF i] by simp
qed

end
