(* ===== verification/Util_Thread.thy ===== *)
theory Util_Thread
  imports Storm_Prelude
begin

text \<open>
  \<open>source/util/util_thread.h\<close> and \<open>util_misc.h\<close>: the command queue between threads, the pool of
  reusable objects and the scoped lock. A method that holds the queue's mutex from its first to
  its last line is one step. Waiting on the condition variable gives the mutex up, so what other
  threads did meanwhile is an argument of \<open>pop_front\<close>.

  \<open>queue_spec\<close> is what the loop, the services and the proxies rely on: what is taken out is what
  was put in, in order.
\<close>

section \<open>LockQueue\<close>

definition lq_push_back :: "'t \<Rightarrow> 't list \<Rightarrow> 't list" where
  "lq_push_back t m_list = m_list @ [t]"

text \<open>\<open>waited\<close> is the list as another thread left it when \<open>wait\<close> or \<open>timedwait\<close> returned: empty
  after a time-out, a \<open>wakeup\<close> or when a third thread was faster.\<close>

definition lq_pop_front :: "int \<Rightarrow> 't list \<Rightarrow> 't list \<Rightarrow> 't option \<times> 't list" where
  "lq_pop_front ms waited m_list =
     (if m_list = [] \<and> ms = 0 then (None, m_list)
      else let l = (if m_list = [] then waited else m_list) in
        case l of [] \<Rightarrow> (None, []) | t # l' \<Rightarrow> (Some t, l'))"

definition lq_swap :: "'t list \<Rightarrow> 't list \<Rightarrow> 't list \<times> 't list" where
  "lq_swap l m_list = (m_list, l)"

definition lq_size :: "'t list \<Rightarrow> u32" where
  "lq_size m_list = word_of_nat (length m_list)"

definition lq_empty :: "'t list \<Rightarrow> bool" where
  "lq_empty m_list \<longleftrightarrow> m_list = []"

text \<open>The contract: a run of puts and takes, where a take may find nothing.\<close>

datatype 't queue_op = Enq 't | Deq

fun enqueued :: "'t queue_op list \<Rightarrow> 't list" where
  "enqueued [] = []"
| "enqueued (Enq t # ops) = t # enqueued ops"
| "enqueued (Deq # ops) = enqueued ops"

locale queue_spec =
  fixes enq :: "'t \<Rightarrow> 'q \<Rightarrow> 'q"
    and deq :: "'q \<Rightarrow> 't option \<times> 'q"
    and items :: "'q \<Rightarrow> 't list"
  assumes items_enq: "items (enq t q) = items q @ [t]"
    and deq_items: "deq q = (r, q') \<Longrightarrow>
      (case items q of [] \<Rightarrow> r = None \<and> items q' = [] | t # ts \<Rightarrow> r = Some t \<and> items q' = ts)"
begin

fun run :: "'t queue_op list \<Rightarrow> 'q \<Rightarrow> 't list \<times> 'q" where
  "run [] q = ([], q)"
| "run (Enq t # ops) q = run ops (enq t q)"
| "run (Deq # ops) q =
     (case deq q of (r, q') \<Rightarrow> (case run ops q' of (out, q'') \<Rightarrow> ((case r of None \<Rightarrow> out | Some t \<Rightarrow> t # out), q'')))"

lemma run_order: "run ops q = (out, q') \<Longrightarrow> out @ items q' = items q @ enqueued ops"
proof (induction ops arbitrary: q out q' rule: enqueued.induct)
  case (3 ops)
  obtain r q1 where d: "deq q = (r, q1)" by (cases "deq q")
  obtain out1 where o: "run ops q1 = (out1, q')" and out: "out = (case r of None \<Rightarrow> out1 | Some t \<Rightarrow> t # out1)"
    using "3.prems" d by (auto split: prod.splits)
  from deq_items [OF d] out "3.IH" [OF o] show ?case by (auto split: list.splits)
qed (auto simp: items_enq)

end

interpretation lq: queue_spec lq_push_back "lq_pop_front 0 []" id
  by unfold_locales (auto simp: lq_push_back_def lq_pop_front_def Let_def split: list.splits if_splits)

text \<open>A waiting \<open>pop_front\<close> still takes from the front, of what it finds when it wakes up.\<close>

lemma lq_pop_front_wait:
  "ms \<noteq> 0 \<Longrightarrow> lq_pop_front ms waited [] = lq_pop_front 0 [] waited"
  by (simp add: lq_pop_front_def split: list.split)

lemma lq_pop_front_nonempty:
  "l \<noteq> [] \<Longrightarrow> lq_pop_front ms waited l = (Some (hd l), tl l)"
  by (cases l) (simp_all add: lq_pop_front_def)

section \<open>ObjectPool\<close>

record 't ObjectPool =
  m_nodeNum :: u32
  m_freeNode :: "'t list"

text \<open>\<open>new_node\<close> is the default constructor \<open>T()\<close>.\<close>

definition expandNode :: "'t \<Rightarrow> 't ObjectPool \<Rightarrow> 't ObjectPool" where
  "expandNode new_node p = p\<lparr>m_freeNode := m_freeNode p @ replicate (unat (m_nodeNum p)) new_node\<rparr>"

definition new_ObjectPool :: "'t \<Rightarrow> u32 \<Rightarrow> 't ObjectPool" where
  "new_ObjectPool new_node nodeNum = expandNode new_node \<lparr>m_nodeNum = nodeNum, m_freeNode = []\<rparr>"

text \<open>\<open>front()\<close> of an empty list is undefined: a pool created with 0 nodes.\<close>

definition pool_get :: "'t \<Rightarrow> 't ObjectPool \<Rightarrow> ('t \<times> 't ObjectPool) option" where
  "pool_get new_node p =
     (let p' = (if m_freeNode p = [] then expandNode new_node p else p) in
      case m_freeNode p' of [] \<Rightarrow> None | node # rest \<Rightarrow> Some (node, p'\<lparr>m_freeNode := rest\<rparr>))"

definition pool_put :: "'t \<Rightarrow> 't ObjectPool \<Rightarrow> 't ObjectPool" where
  "pool_put node p = p\<lparr>m_freeNode := m_freeNode p @ [node]\<rparr>"

text \<open>Every node of a pool is a fresh one or one that was put back: a property that both have
  is a property of what \<open>get\<close> returns.\<close>

definition pool_all :: "('t \<Rightarrow> bool) \<Rightarrow> 't ObjectPool \<Rightarrow> bool" where
  "pool_all P p \<longleftrightarrow> m_nodeNum p \<noteq> 0 \<and> list_all P (m_freeNode p)"

lemma list_all_replicate: "list_all P (replicate n x) \<longleftrightarrow> n = 0 \<or> P x"
  by (induction n) auto

lemma pool_get_ok:
  assumes "pool_all P p" and "P new_node"
  obtains node p' where "pool_get new_node p = Some (node, p')" "P node" "pool_all P p'"
proof -
  define p1 where "p1 = (if m_freeNode p = [] then expandNode new_node p else p)"
  have "unat (m_nodeNum p) \<noteq> 0" using assms(1) by (simp add: pool_all_def unat_eq_0)
  then have ne: "m_freeNode p1 \<noteq> []" by (simp add: p1_def expandNode_def)
  have all: "list_all P (m_freeNode p1)" "m_nodeNum p1 = m_nodeNum p"
    using assms by (simp_all add: p1_def expandNode_def pool_all_def list_all_replicate)
  obtain node rest where n: "m_freeNode p1 = node # rest" using ne by (cases "m_freeNode p1") auto
  show thesis
    by (rule that [of node "p1\<lparr>m_freeNode := rest\<rparr>"])
      (use assms(1) n all in \<open>simp_all add: pool_get_def pool_all_def Let_def p1_def [symmetric]\<close>)
qed

lemma pool_put_ok: "pool_all P p \<Longrightarrow> P node \<Longrightarrow> pool_all P (pool_put node p)"
  by (simp add: pool_all_def pool_put_def)

lemma new_ObjectPool_ok: "nodeNum \<noteq> 0 \<Longrightarrow> P new_node \<Longrightarrow> pool_all P (new_ObjectPool new_node nodeNum)"
  by (simp add: pool_all_def new_ObjectPool_def expandNode_def list_all_replicate)

section \<open>ScopeMutex\<close>

text \<open>\<open>held\<close> is the mutex's state, \<open>m_bLocked\<close> the scope's own flag; \<open>None\<close> is the deadlock of
  locking a mutex the same thread holds.\<close>

record scope_mutex =
  held :: bool
  m_bLocked :: bool

definition mutex_lock :: "bool \<Rightarrow> bool option" where
  "mutex_lock h = (if h then None else Some True)"

definition scope_construct :: "bool \<Rightarrow> scope_mutex option" where
  "scope_construct h = map_option (\<lambda>h'. \<lparr>held = h', m_bLocked = True\<rparr>) (mutex_lock h)"

definition scope_lock :: "scope_mutex \<Rightarrow> scope_mutex option" where
  "scope_lock s =
     (if \<not> m_bLocked s then map_option (\<lambda>h'. s\<lparr>held := h', m_bLocked := True\<rparr>) (mutex_lock (held s)) else Some s)"

definition scope_unlock :: "scope_mutex \<Rightarrow> scope_mutex" where
  "scope_unlock s = (if m_bLocked s then s\<lparr>held := False, m_bLocked := False\<rparr> else s)"

definition scope_destroy :: "scope_mutex \<Rightarrow> bool" where
  "scope_destroy s = held (scope_unlock s)"

text \<open>Whatever locks and unlocks happen inside the scope, it never deadlocks on itself and its end
  releases the mutex.\<close>

datatype scope_op = S_lock | S_unlock

fun scope_run :: "scope_op list \<Rightarrow> scope_mutex \<Rightarrow> scope_mutex option" where
  "scope_run [] s = Some s"
| "scope_run (S_lock # ops) s = (case scope_lock s of None \<Rightarrow> None | Some s' \<Rightarrow> scope_run ops s')"
| "scope_run (S_unlock # ops) s = scope_run ops (scope_unlock s)"

lemma scope_run_ok: "held s = m_bLocked s \<Longrightarrow> \<exists>s'. scope_run ops s = Some s' \<and> held s' = m_bLocked s'"
  by (induction ops s rule: scope_run.induct) (auto simp: scope_lock_def scope_unlock_def mutex_lock_def)

lemma scope_releases:
  "\<exists>s s'. scope_construct False = Some s \<and> scope_run ops s = Some s' \<and> scope_destroy s' = False"
  using scope_run_ok [of "\<lparr>held = True, m_bLocked = True\<rparr>" ops]
  by (auto simp: scope_construct_def mutex_lock_def scope_destroy_def scope_unlock_def)

end
