(* ===== verification/Socket_Loop.thy ===== *)
theory Socket_Loop
  imports Socket_Poller Util_Protocol Util_Timelist Util_Thread "HOL-Library.Monad_Syntax"
begin

text \<open>
  \<open>source/net/socket_loop.cpp\<close> with \<open>socket_define.h\<close>: the event loop. Its state is the record
  \<open>SocketLoop\<close>; a \<open>Socket*\<close> is the index of its slot. System calls answer from the scripts of the
  \<open>Kernel\<close> record, per descriptor, and an exhausted script answers EAGAIN; what was written to a
  descriptor is collected in \<open>k_out\<close> and what was closed in \<open>k_closed\<close>. The \<open>SocketHandler\<close>s are
  the record \<open>handlers\<close>: each callback maps the application's state to a new one and the commands
  it pushes (\<open>send\<close>, \<open>close\<close>, \<open>terminate\<close> of the loop only push commands).

  The operations return an option: \<open>None\<close> is a run that does not come back, because an assertion
  failed, a null handler or buffer was used, memory was overrun or a loop did not end.
  \<open>int32_t\<close> and \<open>uint32_t\<close> values are 32-bit words, signed comparisons use \<open>sint\<close>.
\<close>

section \<open>Data\<close>

datatype SocketCloseType =
    CloseType_Self | CloseType_Peer | CloseType_Timeout | CloseType_IdleTimeout
  | CloseType_ConnTimeOut | CloseType_PacketError | CloseType_ConnectFail

definition etos :: "SocketCloseType \<Rightarrow> string" where
  "etos closeType =
     (case closeType of
        CloseType_Self \<Rightarrow> ''Self''
      | CloseType_Peer \<Rightarrow> ''Peer''
      | CloseType_Timeout \<Rightarrow> ''Timeout''
      | CloseType_IdleTimeout \<Rightarrow> ''IdleTimeout''
      | CloseType_ConnTimeOut \<Rightarrow> ''ConnTimeOut''
      | CloseType_PacketError \<Rightarrow> ''PacketError''
      | CloseType_ConnectFail \<Rightarrow> ''ConnectFail'')"

datatype SocketType = SocketType_Normal | SocketType_Listen | SocketType_Notify

datatype SocketStatus =
    SocketStatus_Idle | SocketStatus_Reserse | SocketStatus_Listen
  | SocketStatus_Connecting | SocketStatus_Connected

datatype SocketCmdType = SocketCmd_Connect | SocketCmd_Listen | SocketCmd_Send | SocketCmd_Close | SocketCmd_Exit

record SocketCmd =
  cmd_type :: SocketCmdType
  cmd_id :: u32
  cmd_closeType :: SocketCloseType
  cmd_buffer :: "IoBuffer option"

definition new_SocketCmd :: SocketCmd where
  "new_SocketCmd =
     \<lparr>cmd_type = SocketCmd_Send, cmd_id = 0, cmd_closeType = CloseType_Self, cmd_buffer = None\<rparr>"

record Socket =
  s_id :: u32
  s_fd :: u32
  s_type :: SocketType
  s_status :: SocketStatus
  s_handler :: "nat option"
  readBuffer :: "IoBuffer option"
  writeBuffer :: "IoBuffer list"
  s_ip :: string
  s_port :: int

definition new_Socket :: Socket where
  "new_Socket =
     \<lparr>s_id = 0, s_fd = -1, s_type = SocketType_Normal, s_status = SocketStatus_Idle, s_handler = None,
      readBuffer = None, writeBuffer = [], s_ip = [], s_port = 0\<rparr>"

text \<open>What a callback may look at of the socket it is given: the buffers belong to the loop.\<close>

definition sock_view :: "Socket \<Rightarrow> Socket" where
  "sock_view s = s\<lparr>readBuffer := None, writeBuffer := []\<rparr>"

text \<open>The kernel's answers: a value, or \<open>errno\<close> as far as the code tells errors apart.\<close>

datatype 'r sysres = Ret 'r | Eagain | Eintr | Eother

datatype connect_result = NoSocket | Refused u32 | Established u32 | InProgress u32

record Kernel =
  k_read :: "u32 \<Rightarrow> string sysres list"
  k_write :: "u32 \<Rightarrow> nat sysres list"
  k_out :: "u32 \<Rightarrow> string"
  k_accept :: "u32 \<Rightarrow> (u32 \<times> string \<times> int) sysres list"
  k_connect :: "connect_result list"
  k_listen :: "u32 option list"
  k_sockerr :: "u32 \<Rightarrow> int \<times> int"
  k_closed :: "u32 list"
  k_eventfd :: nat
  k_now :: u32

record 'a SocketLoop =
  m_running :: bool
  m_inLoop :: bool
  m_maxSocket :: u32
  m_allocId :: u32
  m_poll :: SocketPoller
  m_notifier :: nat
  m_queue :: "SocketCmd list"
  m_slot :: "Socket list"
  m_bufferPool :: "IoBuffer ObjectPool"
  m_connTimeout :: "(u32, u32) TimeList"
  l_kernel :: Kernel
  l_app :: 'a

record 'a handlers =
  onConnect :: "nat \<Rightarrow> Socket \<Rightarrow> 'a \<Rightarrow> 'a \<times> SocketCmd list"
  onAccept :: "nat \<Rightarrow> Socket \<Rightarrow> 'a \<Rightarrow> 'a \<times> SocketCmd list"
  onClose :: "nat \<Rightarrow> Socket \<Rightarrow> SocketCloseType \<Rightarrow> 'a \<Rightarrow> 'a \<times> SocketCmd list"
  onPacket :: "nat \<Rightarrow> Socket \<Rightarrow> string \<Rightarrow> 'a \<Rightarrow> 'a \<times> SocketCmd list"
  m_parser :: "nat \<Rightarrow> IoBuffer \<Rightarrow> parse_result"

section \<open>System calls\<close>

text \<open>One call transfers at most \<open>0x7ffff000\<close> bytes. A script entry \<open>Ret s\<close> for \<open>read\<close> is data that
  has arrived, taken in as many calls as the caller needs; \<open>Ret []\<close> is the end of the stream.\<close>

definition max_transfer :: nat where
  "max_transfer = 0x7ffff000"

fun sys_read :: "nat \<Rightarrow> string sysres list \<Rightarrow> string sysres \<times> string sysres list" where
  "sys_read n [] = (Eagain, [])"
| "sys_read n (Ret s # rs) =
     (let m = min n max_transfer in
      (Ret (take m s), if drop m s = [] then rs else Ret (drop m s) # rs))"
| "sys_read n (r # rs) = (r, rs)"

text \<open>For \<open>write\<close> of \<open>n\<close> bytes, \<open>Ret k\<close> means that the kernel had room for \<open>k\<close>.\<close>

fun sys_write :: "nat \<Rightarrow> nat sysres list \<Rightarrow> nat sysres \<times> nat sysres list" where
  "sys_write n [] = (Eagain, [])"
| "sys_write n (Ret k # ws) = (Ret (min k (min n max_transfer)), ws)"
| "sys_write n (r # ws) = (r, ws)"

definition sys_close :: "u32 \<Rightarrow> 'a SocketLoop \<Rightarrow> 'a SocketLoop" where
  "sys_close fd l =
     l\<lparr>l_kernel := (l_kernel l)\<lparr>k_closed := k_closed (l_kernel l) @ [fd]\<rparr>, m_poll := epoll_closed fd (m_poll l)\<rparr>"

section \<open>Slots\<close>

definition slot :: "'a SocketLoop \<Rightarrow> nat \<Rightarrow> Socket" where
  "slot l i = m_slot l ! i"

definition set_slot :: "nat \<Rightarrow> Socket \<Rightarrow> 'a SocketLoop \<Rightarrow> 'a SocketLoop" where
  "set_slot i s l = l\<lparr>m_slot := (m_slot l)[i := s]\<rparr>"

definition hash_id :: "'a SocketLoop \<Rightarrow> u32 \<Rightarrow> u32" where
  "hash_id l n = n mod m_maxSocket l"

definition getSocket :: "u32 \<Rightarrow> 'a SocketLoop \<Rightarrow> nat option" where
  "getSocket n l = (if sint n < 0 then None else Some (unat (hash_id l n)))"

text \<open>\<open>getNewSocket\<close> without another thread in between, so that its compare-and-swap succeeds.
  The first argument counts the iterations left.\<close>

fun getNewSocket_loop :: "nat \<Rightarrow> 'a SocketLoop \<Rightarrow> nat option \<times> 'a SocketLoop" where
  "getNewSocket_loop 0 l = (None, l)"
| "getNewSocket_loop (Suc n) l =
     (let n1 = m_allocId l + 1;
          n2 = (if sint n1 < 0 then n1 AND 0x7fffffff else n1);
          l' = l\<lparr>m_allocId := n2\<rparr>;
          i = unat (hash_id l n2);
          s = slot l i in
      if s_status s \<noteq> SocketStatus_Idle then getNewSocket_loop n l'
      else (Some i, set_slot i (s\<lparr>s_status := SocketStatus_Reserse, s_id := hash_id l n2, s_fd := -1\<rparr>) l'))"

definition getNewSocket :: "'a SocketLoop \<Rightarrow> nat option \<times> 'a SocketLoop" where
  "getNewSocket l = getNewSocket_loop (nat (sint (m_maxSocket l))) l"

section \<open>Callbacks and commands\<close>

definition pushCmd :: "SocketCmd \<Rightarrow> 'a SocketLoop \<Rightarrow> 'a SocketLoop" where
  "pushCmd cmd l =
     l\<lparr>m_queue := lq_push_back cmd (m_queue l),
       l_kernel := (l_kernel l)\<lparr>k_eventfd := k_eventfd (l_kernel l) + 1\<rparr>\<rparr>"

definition callback :: "('a \<Rightarrow> 'a \<times> SocketCmd list) \<Rightarrow> 'a SocketLoop \<Rightarrow> 'a SocketLoop" where
  "callback f l = (case f (l_app l) of (a, cmds) \<Rightarrow> fold pushCmd cmds (l\<lparr>l_app := a\<rparr>))"

definition forceClose :: "'a handlers \<Rightarrow> nat \<Rightarrow> SocketCloseType \<Rightarrow> 'a SocketLoop \<Rightarrow> 'a SocketLoop" where
  "forceClose H i closeType l =
     (let s = slot l i in
      if s_status s = SocketStatus_Idle \<or> s_status s = SocketStatus_Reserse then l
      else
        let l1 = sys_close (s_fd s) l;
            l2 = (case s_handler s of None \<Rightarrow> l1 | Some h \<Rightarrow> callback (onClose H h (sock_view s) closeType) l1);
            l3 = (case readBuffer s of
                    None \<Rightarrow> l2
                  | Some b \<Rightarrow> l2\<lparr>m_bufferPool := pool_put (reset b) (m_bufferPool l2)\<rparr>) in
        set_slot i (s\<lparr>readBuffer := None, writeBuffer := [], s_fd := -1, s_status := SocketStatus_Idle\<rparr>)
          (l3\<lparr>m_poll := poll_del (s_fd s) (m_poll l3)\<rparr>))"

definition destroy :: "'a handlers \<Rightarrow> 'a SocketLoop \<Rightarrow> 'a SocketLoop" where
  "destroy H l = fold (\<lambda>i. forceClose H i CloseType_Self) [0..<unat (m_maxSocket l)] l"

section \<open>Events\<close>

fun accept_loop ::
  "'a handlers \<Rightarrow> nat \<Rightarrow> (u32 \<times> string \<times> int) sysres list \<Rightarrow> 'a SocketLoop \<Rightarrow>
   ((u32 \<times> string \<times> int) sysres list \<times> 'a SocketLoop) option" where
  "accept_loop H i [] l = Some ([], l)"
| "accept_loop H i (Eagain # as) l = Some (as, l)"
| "accept_loop H i (Eintr # as) l = accept_loop H i as l"
| "accept_loop H i (Eother # as) l = accept_loop H i as l"
| "accept_loop H i (Ret (fd, ip, port) # as) l =
     (case getNewSocket l of
        (None, l1) \<Rightarrow> Some (as, sys_close fd l1)
      | (Some j, l1) \<Rightarrow> do {
          let ns = (slot l1 j)\<lparr>s_fd := fd, s_type := SocketType_Normal, s_status := SocketStatus_Connected,
                     s_handler := s_handler (slot l1 i), s_ip := ip, s_port := port\<rparr>;
          let l2 = set_slot j ns (l1\<lparr>m_poll := snd (addToRead fd j (m_poll l1))\<rparr>);
          h \<leftarrow> s_handler ns;
          accept_loop H i as (callback (onAccept H h (sock_view ns)) l2)
        })"

definition handleAccept :: "'a handlers \<Rightarrow> nat \<Rightarrow> 'a SocketLoop \<Rightarrow> 'a SocketLoop option" where
  "handleAccept H i l =
     (let s = slot l i in
      if s_type s \<noteq> SocketType_Listen then Some l
      else do {
        (as, l') \<leftarrow> accept_loop H i (k_accept (l_kernel l) (s_fd s)) l;
        Some (l'\<lparr>l_kernel := (l_kernel l')\<lparr>k_accept := (k_accept (l_kernel l'))(s_fd s := as)\<rparr>\<rparr>)
      })"

definition handleConnect :: "'a handlers \<Rightarrow> nat \<Rightarrow> 'a SocketLoop \<Rightarrow> 'a SocketLoop option" where
  "handleConnect H i l =
     (let s = slot l i;
          (code, error) = k_sockerr (l_kernel l) (s_fd s);
          l1 = l\<lparr>m_connTimeout := tl_del (s_id s) (m_connTimeout l)\<rparr> in
      if code < 0 \<or> error \<noteq> 0 then Some (forceClose H i CloseType_ConnectFail l1)
      else do {
        let s' = s\<lparr>s_status := SocketStatus_Connected\<rparr>;
        let l2 = (set_slot i s' l1)\<lparr>m_poll := delEvent (s_fd s) EP_WRITE i (m_poll l1)\<rparr>;
        h \<leftarrow> s_handler s;
        let l3 = callback (onConnect H h (sock_view s')) l2;
        Some (l3\<lparr>m_poll := addEvent (s_fd s) EP_READ i (m_poll l3)\<rparr>)
      })"

function read_loop :: "string sysres list \<Rightarrow> IoBuffer \<Rightarrow> (bool \<times> string sysres list \<times> IoBuffer) option" where
  "read_loop rs b =
     (let b1 = (if getRemainingSize b = 0 then doubleCapacity b else b);
          maxSize = getRemainingSize b1 in
      case sys_read (unat maxSize) rs of
        (Ret [], rs') \<Rightarrow> Some (True, rs', b1)
      | (Ret s, rs') \<Rightarrow>
          (case writeN (word_of_nat (length s)) (fill_tail s b1) of
             None \<Rightarrow> None
           | Some b2 \<Rightarrow> read_loop rs' b2)
      | (Eagain, rs') \<Rightarrow> Some (False, rs', b1)
      | (Eintr, rs') \<Rightarrow> read_loop rs' b1
      | (Eother, rs') \<Rightarrow> Some (True, rs', b1))"
  by pat_completeness auto

fun read_measure :: "string sysres list \<Rightarrow> nat" where
  "read_measure [] = 0"
| "read_measure (Ret s # rs) = Suc (length s) + read_measure rs"
| "read_measure (r # rs) = Suc (read_measure rs)"

lemma sys_read_measure:
  "sys_read n rs = (Ret (c # s), rs') \<Longrightarrow> read_measure rs' < read_measure rs"
  "sys_read n rs = (Eintr, rs') \<Longrightarrow> read_measure rs' < read_measure rs"
proof -
  { assume a: "sys_read n rs = (Ret (c # s), rs')"
    show "read_measure rs' < read_measure rs"
    proof (cases "(n, rs)" rule: sys_read.cases)
      case (2 m t ts)
      with a have "take (min m max_transfer) t = c # s" by (simp add: Let_def)
      then have "min m max_transfer \<noteq> 0" "t \<noteq> []" by (metis list.distinct(1) take0 take_Nil)+
      with 2 a show ?thesis by (cases t) (auto simp: Let_def min_def split: if_splits)
    qed (use a in auto) }
  { assume a: "sys_read n rs = (Eintr, rs')"
    then show "read_measure rs' < read_measure rs"
      by (cases "(n, rs)" rule: sys_read.cases) (auto simp: Let_def) }
qed

termination read_loop
  by (relation "measure (read_measure \<circ> fst)") (auto dest: sys_read_measure [OF sym])

declare read_loop.simps [simp del]

definition handleRead :: "'a handlers \<Rightarrow> nat \<Rightarrow> 'a SocketLoop \<Rightarrow> 'a SocketLoop option" where
  "handleRead H i l =
     (let s = slot l i in
      if s_status s \<noteq> SocketStatus_Connected then Some l
      else do {
        (b, pool) \<leftarrow> (case readBuffer s of
            None \<Rightarrow> pool_get (new_IoBuffer 4096) (m_bufferPool l)
          | Some b \<Rightarrow> Some (b, m_bufferPool l));
        (needClose, rs, b1) \<leftarrow> read_loop (k_read (l_kernel l) (s_fd s)) b;
        let s1 = s\<lparr>readBuffer := Some b1\<rparr>;
        let l1 = set_slot i s1 (l\<lparr>m_bufferPool := pool,
                   l_kernel := (l_kernel l)\<lparr>k_read := (k_read (l_kernel l))(s_fd s := rs)\<rparr>\<rparr>);
        if needClose then Some (forceClose H i CloseType_Peer l1)
        else do {
          h \<leftarrow> s_handler s;
          r \<leftarrow> onData (m_parser H h) (\<lambda>p. callback (onPacket H h (sock_view s1) p)) l1 b1;
          (case r of
             OutOfBounds \<Rightarrow> None
           | Returned ok l2 b2 \<Rightarrow>
               let l3 = set_slot i (s1\<lparr>readBuffer := Some b2\<rparr>) l2 in
               Some (if ok then l3 else forceClose H i CloseType_Self l3))
        }
      })"

text \<open>\<open>handleWrite\<close>: the loop over the queued buffers. The result says whether to close, whether the
  queue ran empty, what is left, what was written and the script that remains.\<close>

lemma sys_write_shorter:
  "sys_write n ws = (Ret k, ws') \<Longrightarrow> length ws' < length ws"
  "sys_write n ws = (Eintr, ws') \<Longrightarrow> length ws' < length ws"
  by (induction n ws rule: sys_write.induct) auto

function write_loop ::
  "nat sysres list \<Rightarrow> IoBuffer list \<Rightarrow> string \<Rightarrow> (bool \<times> nat sysres list \<times> IoBuffer list \<times> string) option" where
  "write_loop ws [] out = Some (False, ws, [], out)"
| "write_loop ws (b # bs) out =
     (case sys_write (unat (getSize b)) ws of
        (Ret k, ws') \<Rightarrow>
          if k = 0 then Some (True, ws', b # bs, out)
          else (case readN (word_of_nat k) b of
                  None \<Rightarrow> None
                | Some b' \<Rightarrow> write_loop ws' (if getSize b' = 0 then bs else b' # bs) (out @ take k (contents b)))
      | (Eagain, ws') \<Rightarrow> Some (False, ws', b # bs, out)
      | (Eintr, ws') \<Rightarrow> write_loop ws' (b # bs) out
      | (Eother, ws') \<Rightarrow> Some (True, ws', b # bs, out))"
  by pat_completeness auto
termination
  by (relation "measure (\<lambda>(ws, bs, out). length ws)") (auto dest: sys_write_shorter [OF sym])

declare write_loop.simps [simp del]

text \<open>The write script and output of a descriptor.\<close>

definition set_write :: "u32 \<Rightarrow> nat sysres list \<Rightarrow> string \<Rightarrow> 'a SocketLoop \<Rightarrow> 'a SocketLoop" where
  "set_write fd ws out l =
     l\<lparr>l_kernel := (l_kernel l)\<lparr>k_write := (k_write (l_kernel l))(fd := ws),
       k_out := (k_out (l_kernel l))(fd := out)\<rparr>\<rparr>"

definition handleWrite :: "'a handlers \<Rightarrow> nat \<Rightarrow> 'a SocketLoop \<Rightarrow> 'a SocketLoop option" where
  "handleWrite H i l =
     (let s = slot l i; fd = s_fd s in
      if s_status s \<noteq> SocketStatus_Connected then Some l
      else do {
        (needClose, ws, bs, out) \<leftarrow> write_loop (k_write (l_kernel l) fd) (writeBuffer s) (k_out (l_kernel l) fd);
        let l1 = set_slot i (s\<lparr>writeBuffer := bs\<rparr>) (set_write fd ws out l);
        let l2 = (if bs = [] then l1\<lparr>m_poll := delEvent fd EP_WRITE i (m_poll l1)\<rparr> else l1);
        Some (if needClose then forceClose H i CloseType_Peer l2 else l2)
      })"

section \<open>Commands\<close>

definition connectSocket :: "'a handlers \<Rightarrow> u32 \<Rightarrow> 'a SocketLoop \<Rightarrow> 'a SocketLoop option" where
  "connectSocket H cid l =
     (case getSocket cid l of
        None \<Rightarrow> Some l
      | Some i \<Rightarrow>
          let s = slot l i;
              (r, rs) = (case k_connect (l_kernel l) of [] \<Rightarrow> (NoSocket, []) | r # rs \<Rightarrow> (r, rs));
              l1 = l\<lparr>l_kernel := (l_kernel l)\<lparr>k_connect := rs\<rparr>\<rparr>;
              failed = (\<lambda>l. do {
                h \<leftarrow> s_handler s;
                let l' = callback (onClose H h (sock_view s) CloseType_ConnectFail) l;
                Some (set_slot i (s\<lparr>s_status := SocketStatus_Idle\<rparr>) l')
              }) in
          case r of
            NoSocket \<Rightarrow> failed l1
          | Refused fd \<Rightarrow> failed (sys_close fd l1)
          | Established fd \<Rightarrow> do {
              let s' = s\<lparr>s_fd := fd, s_status := SocketStatus_Connected\<rparr>;
              h \<leftarrow> s_handler s;
              let l2 = callback (onConnect H h (sock_view s')) (set_slot i s' l1);
              Some (l2\<lparr>m_poll := addEvent fd EP_READ i (m_poll l2)\<rparr>)
            }
          | InProgress fd \<Rightarrow>
              let l2 = set_slot i (s\<lparr>s_fd := fd, s_status := SocketStatus_Connecting\<rparr>) l1 in
              Some (l2\<lparr>m_poll := addEvent fd EP_WRITE i (m_poll l2),
                       m_connTimeout := tl_add cid (k_now (l_kernel l2)) (m_connTimeout l2)\<rparr>))"

definition listenSocket :: "u32 \<Rightarrow> 'a SocketLoop \<Rightarrow> 'a SocketLoop" where
  "listenSocket cid l =
     (case getSocket cid l of
        None \<Rightarrow> l
      | Some i \<Rightarrow> l\<lparr>m_poll := snd (addToRead (s_fd (slot l i)) i (m_poll l))\<rparr>)"

text \<open>\<open>sendSocket\<close>: \<open>rem\<close> is the \<open>remainSize\<close> bytes at \<open>sendBuf\<close>. The two flags of the result are
  \<open>needClose\<close> and whether the write event was requested.\<close>

function send_loop ::
  "nat sysres list \<Rightarrow> string \<Rightarrow> IoBuffer \<Rightarrow> string \<Rightarrow>
   (bool \<times> bool \<times> nat sysres list \<times> string \<times> IoBuffer \<times> string) option" where
  "send_loop ws rem b out =
     (if rem = [] then Some (False, False, ws, rem, b, out)
      else case sys_write (length rem) ws of
        (Ret k, ws') \<Rightarrow>
          if k = 0 then Some (True, False, ws', rem, b, out)
          else (case readN (word_of_nat k) b of
                  None \<Rightarrow> None
                | Some b' \<Rightarrow> send_loop ws' (drop k rem) b' (out @ take k rem))
      | (Eagain, ws') \<Rightarrow> Some (False, True, ws', rem, b, out)
      | (Eintr, ws') \<Rightarrow> send_loop ws' rem b out
      | (Eother, ws') \<Rightarrow> Some (True, False, ws', rem, b, out))"
  by pat_completeness auto
termination
  by (relation "measure (\<lambda>(ws, rem, b, out). length ws)") (auto dest: sys_write_shorter [OF sym])

declare send_loop.simps [simp del]

definition sendSocket :: "'a handlers \<Rightarrow> u32 \<Rightarrow> IoBuffer option \<Rightarrow> 'a SocketLoop \<Rightarrow> 'a SocketLoop option" where
  "sendSocket H cid buffer l =
     (case getSocket cid l of
        None \<Rightarrow> Some l
      | Some i \<Rightarrow>
          let s = slot l i; fd = s_fd s in
          if s_status s \<noteq> SocketStatus_Connected then Some l
          else do {
            b \<leftarrow> buffer;
            if writeBuffer s \<noteq> [] then Some (set_slot i (s\<lparr>writeBuffer := writeBuffer s @ [b]\<rparr>) l)
            else do {
              (needClose, again, ws, rem, b', out) \<leftarrow>
                send_loop (k_write (l_kernel l) fd) (contents b) b (k_out (l_kernel l) fd);
              let l1 = set_write fd ws out l;
              let l2 = (if again then l1\<lparr>m_poll := addToWrite fd i True (m_poll l1)\<rparr> else l1);
              Some (if needClose then forceClose H i CloseType_Peer l2
                    else if rem \<noteq> [] then set_slot i (s\<lparr>writeBuffer := [b']\<rparr>) l2
                    else l2)
            }
          })"

definition closeSocket :: "'a handlers \<Rightarrow> u32 \<Rightarrow> SocketCloseType \<Rightarrow> 'a SocketLoop \<Rightarrow> 'a SocketLoop" where
  "closeSocket H cid closeType l =
     (case getSocket cid l of None \<Rightarrow> l | Some i \<Rightarrow> forceClose H i closeType l)"

definition handleOneCmd :: "'a handlers \<Rightarrow> SocketCmd \<Rightarrow> 'a SocketLoop \<Rightarrow> 'a SocketLoop option" where
  "handleOneCmd H cmd l =
     (case cmd_type cmd of
        SocketCmd_Connect \<Rightarrow> connectSocket H (cmd_id cmd) l
      | SocketCmd_Listen \<Rightarrow> Some (listenSocket (cmd_id cmd) l)
      | SocketCmd_Send \<Rightarrow> sendSocket H (cmd_id cmd) (cmd_buffer cmd) l
      | SocketCmd_Close \<Rightarrow> Some (closeSocket H (cmd_id cmd) (cmd_closeType cmd) l)
      | SocketCmd_Exit \<Rightarrow> Some (l\<lparr>m_running := False\<rparr>))"

text \<open>The commands a callback pushes while the queue is drained are handled in the same call.\<close>

partial_function (option) cmd_loop :: "'a handlers \<Rightarrow> 'a SocketLoop \<Rightarrow> 'a SocketLoop option" where
  "cmd_loop H l =
     (case lq_pop_front 0 [] (m_queue l) of
        (None, q) \<Rightarrow> Some (l\<lparr>m_queue := q\<rparr>)
      | (Some cmd, q) \<Rightarrow> do {
          l' \<leftarrow> handleOneCmd H cmd (l\<lparr>m_queue := q\<rparr>);
          cmd_loop H l'
        })"

definition handleCmd :: "'a handlers \<Rightarrow> 'a SocketLoop \<Rightarrow> 'a SocketLoop option" where
  "handleCmd H l = cmd_loop H (l\<lparr>l_kernel := (l_kernel l)\<lparr>k_eventfd := 0\<rparr>\<rparr>)"

definition handleEvent :: "'a handlers \<Rightarrow> SocketEvent \<Rightarrow> 'a SocketLoop \<Rightarrow> 'a SocketLoop option" where
  "handleEvent H event l =
     (let i = pUd event; s = slot l i in
      case s_type s of
        SocketType_Notify \<Rightarrow> handleCmd H l
      | SocketType_Listen \<Rightarrow> handleAccept H i l
      | SocketType_Normal \<Rightarrow>
          if s_status s = SocketStatus_Connecting then handleConnect H i l
          else do {
            l1 \<leftarrow> (if bRead event then handleRead H i l else Some l);
            if bWrite event then handleWrite H i l1 else Some l1
          })"

fun handleEvents :: "'a handlers \<Rightarrow> SocketEvent list \<Rightarrow> 'a SocketLoop \<Rightarrow> 'a SocketLoop option" where
  "handleEvents H [] l = Some l"
| "handleEvents H (e # es) l = do { l' \<leftarrow> handleEvent H e l; handleEvents H es l' }"

definition doConnTimeClose :: "'a handlers \<Rightarrow> u32 \<Rightarrow> 'a SocketLoop \<Rightarrow> 'a SocketLoop" where
  "doConnTimeClose H cid l = closeSocket H cid CloseType_ConnTimeOut l"

text \<open>\<open>runOnce\<close>, given what \<open>epoll_wait\<close> reports. The callback of \<open>m_connTimeout\<close> does not use that
  list, so the calls can follow the walk over it.\<close>

definition runOnce :: "'a handlers \<Rightarrow> (nat \<times> u32) list \<Rightarrow> 'a SocketLoop \<Rightarrow> 'a SocketLoop option" where
  "runOnce H reported l = do {
     l1 \<leftarrow> handleEvents H (poll_wait reported) l;
     let (ids, t) = tl_expire (k_now (l_kernel l1)) (m_connTimeout l1);
     Some (fold (doConnTimeClose H) ids (l1\<lparr>m_connTimeout := t\<rparr>))
   }"

section \<open>The interface for other threads\<close>

definition loop_connect :: "nat \<Rightarrow> string \<Rightarrow> int \<Rightarrow> 'a SocketLoop \<Rightarrow> u32 \<times> 'a SocketLoop" where
  "loop_connect handler ip port l =
     (case getNewSocket l of
        (None, l1) \<Rightarrow> (-1, l1)
      | (Some i, l1) \<Rightarrow>
          let s = (slot l1 i)\<lparr>s_ip := ip, s_port := port, s_handler := Some handler,
                    s_status := SocketStatus_Connecting\<rparr> in
          (s_id s, pushCmd (new_SocketCmd\<lparr>cmd_type := SocketCmd_Connect, cmd_id := s_id s\<rparr>) (set_slot i s l1)))"

definition loop_listen :: "nat \<Rightarrow> string \<Rightarrow> int \<Rightarrow> 'a SocketLoop \<Rightarrow> u32 \<times> 'a SocketLoop" where
  "loop_listen handler ip port l =
     (let (r, rs) = (case k_listen (l_kernel l) of [] \<Rightarrow> (None, []) | r # rs \<Rightarrow> (r, rs));
          l0 = l\<lparr>l_kernel := (l_kernel l)\<lparr>k_listen := rs\<rparr>\<rparr> in
      case r of
        None \<Rightarrow> (-1, l0)
      | Some fd \<Rightarrow>
          (case getNewSocket l0 of
             (None, l1) \<Rightarrow> (-1, sys_close fd l1)
           | (Some i, l1) \<Rightarrow>
               let s = (slot l1 i)\<lparr>s_ip := ip, s_port := port, s_fd := fd, s_type := SocketType_Listen,
                         s_status := SocketStatus_Listen, s_handler := Some handler\<rparr> in
               (s_id s, pushCmd (new_SocketCmd\<lparr>cmd_type := SocketCmd_Listen, cmd_id := s_id s\<rparr>) (set_slot i s l1))))"

definition loop_send :: "u32 \<Rightarrow> string \<Rightarrow> 'a SocketLoop \<Rightarrow> 'a SocketLoop" where
  "loop_send cid data l =
     pushCmd (new_SocketCmd\<lparr>cmd_type := SocketCmd_Send, cmd_id := cid,
                cmd_buffer := Some (IoBuffer_of_string data)\<rparr>) l"

definition loop_send_data :: "u32 \<Rightarrow> string \<Rightarrow> u32 \<Rightarrow> 'a SocketLoop \<Rightarrow> 'a SocketLoop" where
  "loop_send_data cid data len l =
     pushCmd (new_SocketCmd\<lparr>cmd_type := SocketCmd_Send, cmd_id := cid,
                cmd_buffer := Some (IoBuffer_of_data data len)\<rparr>) l"

definition loop_send_buffer :: "u32 \<Rightarrow> IoBuffer \<Rightarrow> bool \<Rightarrow> 'a SocketLoop \<Rightarrow> 'a SocketLoop" where
  "loop_send_buffer cid buffer copy l =
     pushCmd (new_SocketCmd\<lparr>cmd_type := SocketCmd_Send, cmd_id := cid,
                cmd_buffer := Some (if copy then copy_IoBuffer buffer else buffer)\<rparr>) l"

definition loop_close :: "u32 \<Rightarrow> SocketCloseType \<Rightarrow> 'a SocketLoop \<Rightarrow> 'a SocketLoop" where
  "loop_close cid closeType l =
     pushCmd (new_SocketCmd\<lparr>cmd_id := cid, cmd_type := SocketCmd_Close, cmd_closeType := closeType\<rparr>) l"

definition loop_terminate :: "'a SocketLoop \<Rightarrow> 'a SocketLoop" where
  "loop_terminate l = pushCmd (new_SocketCmd\<lparr>cmd_type := SocketCmd_Exit\<rparr>) l"

text \<open>The constructor: \<open>fd\<close> is the result of \<open>eventfd\<close>, which ends the process when negative.\<close>

definition new_SocketLoop :: "u32 \<Rightarrow> bool \<Rightarrow> u32 \<Rightarrow> Kernel \<Rightarrow> 'a \<Rightarrow> 'a SocketLoop option" where
  "new_SocketLoop maxSocket inLoop fd krn app =
     (let l = \<lparr>m_running = False, m_inLoop = inLoop, m_maxSocket = maxSocket, m_allocId = -1,
               m_poll = new_SocketPoller, m_notifier = 0, m_queue = [],
               m_slot = replicate (unat maxSocket) new_Socket,
               m_bufferPool = new_ObjectPool (new_IoBuffer 4096) 128,
               m_connTimeout = tl_new 0, l_kernel = krn, l_app = app\<rparr> in
      if sint fd < 0 then None
      else case getNewSocket l of
        (None, _) \<Rightarrow> None
      | (Some i, l1) \<Rightarrow>
          let s = (slot l1 i)\<lparr>s_fd := fd, s_type := SocketType_Notify, s_status := SocketStatus_Listen\<rparr> in
          Some ((set_slot i s l1)\<lparr>m_notifier := i, m_poll := snd (addToRead fd i (m_poll l1)),
                  m_connTimeout := tl_setFunction True (tl_setTimeout 3 (m_connTimeout l1))\<rparr>))"

section \<open>What callbacks leave alone\<close>

lemma fold_pushCmd:
  "fold pushCmd cmds l =
     l\<lparr>m_queue := m_queue l @ cmds,
       l_kernel := (l_kernel l)\<lparr>k_eventfd := k_eventfd (l_kernel l) + length cmds\<rparr>\<rparr>"
  by (induction cmds arbitrary: l) (simp_all add: pushCmd_def lq_push_back_def)

lemma callback_eq:
  "callback f l =
     l\<lparr>l_app := fst (f (l_app l)), m_queue := m_queue l @ snd (f (l_app l)),
       l_kernel := (l_kernel l)\<lparr>k_eventfd := k_eventfd (l_kernel l) + length (snd (f (l_app l)))\<rparr>\<rparr>"
  by (simp add: callback_def fold_pushCmd split: prod.split)

lemma callback_frame [simp]:
  "m_running (callback f l) = m_running l" "m_maxSocket (callback f l) = m_maxSocket l"
  "m_allocId (callback f l) = m_allocId l" "m_poll (callback f l) = m_poll l"
  "m_slot (callback f l) = m_slot l" "m_bufferPool (callback f l) = m_bufferPool l"
  "m_connTimeout (callback f l) = m_connTimeout l" "slot (callback f l) i = slot l i"
  "k_read (l_kernel (callback f l)) = k_read (l_kernel l)"
  "k_write (l_kernel (callback f l)) = k_write (l_kernel l)"
  "k_out (l_kernel (callback f l)) = k_out (l_kernel l)"
  "k_accept (l_kernel (callback f l)) = k_accept (l_kernel l)"
  "k_closed (l_kernel (callback f l)) = k_closed (l_kernel l)"
  "k_now (l_kernel (callback f l)) = k_now (l_kernel l)"
  "l_app (callback f l) = fst (f (l_app l))"
  "m_queue (callback f l) = m_queue l @ snd (f (l_app l))"
  by (simp_all add: callback_eq slot_def)

lemma set_slot_frame [simp]:
  "m_running (set_slot i s l) = m_running l" "m_maxSocket (set_slot i s l) = m_maxSocket l"
  "m_allocId (set_slot i s l) = m_allocId l" "m_poll (set_slot i s l) = m_poll l"
  "m_slot (set_slot i s l) = (m_slot l)[i := s]" "m_bufferPool (set_slot i s l) = m_bufferPool l"
  "m_connTimeout (set_slot i s l) = m_connTimeout l" "l_kernel (set_slot i s l) = l_kernel l"
  "l_app (set_slot i s l) = l_app l" "m_queue (set_slot i s l) = m_queue l"
  by (simp_all add: set_slot_def)

lemma slot_set_slot [simp]:
  "i < length (m_slot l) \<Longrightarrow> slot (set_slot i s l) j = (if j = i then s else slot l j)"
  by (simp add: slot_def set_slot_def)

lemma sys_close_frame [simp]:
  "m_running (sys_close fd l) = m_running l" "m_maxSocket (sys_close fd l) = m_maxSocket l"
  "m_allocId (sys_close fd l) = m_allocId l" "m_slot (sys_close fd l) = m_slot l"
  "m_bufferPool (sys_close fd l) = m_bufferPool l" "m_connTimeout (sys_close fd l) = m_connTimeout l"
  "slot (sys_close fd l) i = slot l i" "l_app (sys_close fd l) = l_app l" "m_queue (sys_close fd l) = m_queue l"
  "k_read (l_kernel (sys_close fd l)) = k_read (l_kernel l)" "k_out (l_kernel (sys_close fd l)) = k_out (l_kernel l)"
  "k_eventfd (l_kernel (sys_close fd l)) = k_eventfd (l_kernel l)"
  by (simp_all add: sys_close_def slot_def)

lemma slot_other [simp]:
  "slot (l\<lparr>m_poll := p\<rparr>) i = slot l i" "slot (l\<lparr>m_bufferPool := bp\<rparr>) i = slot l i"
  "slot (l\<lparr>m_connTimeout := t\<rparr>) i = slot l i" "slot (l\<lparr>l_kernel := k\<rparr>) i = slot l i"
  "slot (l\<lparr>m_allocId := n\<rparr>) i = slot l i" "slot (l\<lparr>m_running := r\<rparr>) i = slot l i"
  "slot (l\<lparr>m_queue := q\<rparr>) i = slot l i"
  by (simp_all add: slot_def)

lemma cmd_loop_Nil: "m_queue l = [] \<Longrightarrow> cmd_loop H l = Some l"
  by (subst cmd_loop.simps) (simp add: lq_pop_front_def)

lemma cmd_loop_Cons:
  "m_queue l = c # q \<Longrightarrow> cmd_loop H l = (handleOneCmd H c (l\<lparr>m_queue := q\<rparr>) \<bind> cmd_loop H)"
  by (subst cmd_loop.simps) (simp add: lq_pop_front_def)

end
