(* ===== verification/Socket_Receive.thy ===== *)
theory Socket_Receive
  imports Socket_Loop
begin

text \<open>
  The receiving side of the loop: \<open>handleRead\<close> appends what arrived to the connection's buffer and
  cuts it into packets. The main result is that the packets handed to the handler do not depend
  on how the bytes were cut into system calls and events (\<open>receive_stream\<close>). The buffer grows by
  doubling only when it is full, so it stays below twice the bytes one event can leave in it
  (\<open>rx_ok\<close>), and the size arithmetic does not wrap.
\<close>

section \<open>The read loop\<close>

text \<open>Scripts that only bring data; interrupted calls are retried.\<close>

fun quiet :: "string sysres list \<Rightarrow> bool" where
  "quiet [] = True"
| "quiet (Ret s # rs) \<longleftrightarrow> s \<noteq> [] \<and> quiet rs"
| "quiet (Eintr # rs) \<longleftrightarrow> quiet rs"
| "quiet _ = False"

fun read_bytes :: "string sysres list \<Rightarrow> string" where
  "read_bytes [] = []"
| "read_bytes (Ret s # rs) = s @ read_bytes rs"
| "read_bytes (_ # rs) = read_bytes rs"

definition rx_ok :: "nat \<Rightarrow> IoBuffer \<Rightarrow> bool" where
  "rx_ok B b \<longleftrightarrow> io_wf b \<and> m_capacity b \<noteq> 0 \<and> (m_tail b = m_capacity b \<longrightarrow> unat (m_capacity b) \<le> B)"

lemma rx_ok_io_wf [simp]: "rx_ok B b \<Longrightarrow> io_wf b"
  by (simp add: rx_ok_def)

lemma getRemainingSize_0: "getRemainingSize b = 0 \<longleftrightarrow> m_tail b = m_capacity b"
  by (auto simp: getRemainingSize_def)

lemma grow_ok:
  assumes "rx_ok B b" and "B < 2 ^ 31"
  defines "b1 \<equiv> (if getRemainingSize b = 0 then doubleCapacity b else b)"
  shows "rx_ok B b1" "contents b1 = contents b" "getRemainingSize b1 \<noteq> 0"
proof -
  have "rx_ok B b1 \<and> contents b1 = contents b \<and> getRemainingSize b1 \<noteq> 0"
  proof (cases "getRemainingSize b = 0")
    case True
    then have t: "m_tail b = m_capacity b" and c: "unat (m_capacity b) < 2 ^ 31"
      using assms by (simp_all add: getRemainingSize_0 rx_ok_def)
    note d = doubleCapacity_ok [OF rx_ok_io_wf [OF assms(1)] c]
    have "unat (m_capacity b) \<noteq> 0" using assms(1) by (simp add: rx_ok_def unat_eq_0)
    then have "unat (m_capacity (doubleCapacity b)) \<noteq> 0"
      "unat (m_tail (doubleCapacity b)) \<noteq> unat (m_capacity (doubleCapacity b))"
      unfolding d(3,4) t by linarith+
    then have ne: "m_capacity (doubleCapacity b) \<noteq> 0" "m_tail (doubleCapacity b) \<noteq> m_capacity (doubleCapacity b)"
      by (metis unat_0)+
    then show ?thesis using True d(1,2) by (simp add: b1_def rx_ok_def getRemainingSize_0)
  qed (use assms in \<open>simp add: b1_def\<close>)
  then show "rx_ok B b1" "contents b1 = contents b" "getRemainingSize b1 \<noteq> 0" by auto
qed

lemma writeN_head:
  assumes "writeN n b = Some b'" and "m_tail b' = m_capacity b'"
  shows "m_head b' = 0"
  using assms by (auto simp: writeN_def Let_def split: if_splits)

lemma writeN_rx:
  assumes "rx_ok B b" and "length s \<le> unat (getRemainingSize b)" and "length (contents b) + length s \<le> B"
  shows "\<exists>b'. writeN (word_of_nat (length s)) (fill_tail s b) = Some b' \<and> rx_ok B b' \<and>
    contents b' = contents b @ s"
proof -
  have "length s < 2 ^ 32" using assms(2) unat_u32_less [of "getRemainingSize b"] by (simp del: unat_u32_less)
  then obtain b' where b': "writeN (word_of_nat (length s)) (fill_tail s b) = Some b'" "io_wf b'"
    "contents b' = contents b @ s" "m_capacity b' = m_capacity b"
    using writeN_ok [of b "word_of_nat (length s)" s] assms by auto
  have "unat (m_capacity b') \<le> B" if "m_tail b' = m_capacity b'"
    using writeN_head [OF b'(1) that] io_wf_sizes(1) [OF b'(2)] that b'(3) assms(3) by simp
  with b' assms(1) show ?thesis by (auto simp: rx_ok_def)
qed

lemma sys_read_quiet:
  assumes "quiet rs" and "n \<noteq> 0"
  shows "(rs = [] \<and> sys_read n rs = (Eagain, [])) \<or>
    (\<exists>rs'. sys_read n rs = (Eintr, rs') \<and> quiet rs' \<and> read_bytes rs' = read_bytes rs) \<or>
    (\<exists>c s rs'. sys_read n rs = (Ret (c # s), rs') \<and> quiet rs' \<and> length (c # s) \<le> n \<and>
       read_bytes rs = (c # s) @ read_bytes rs')"
proof (cases rs rule: quiet.cases)
  case (2 s rs')
  define m where "m = min n max_transfer"
  have "m \<noteq> 0" using assms(2) by (simp add: m_def max_transfer_def)
  moreover obtain c s0 where s: "s = c # s0" using 2 assms(1) by (cases s) auto
  ultimately have "take m s = c # take (m - 1) s0" by (cases m) auto
  moreover have "length (take m s) \<le> n" by (simp add: m_def)
  moreover have "s = take m s @ drop m s" by simp
  ultimately show ?thesis
    using 2 assms(1) by (auto simp: Let_def m_def [symmetric])
qed (use assms in auto)

lemma read_loop_ok:
  assumes "rx_ok B b" and "B < 2 ^ 31" and "quiet rs" and "length (contents b) + length (read_bytes rs) \<le> B"
  shows "\<exists>b'. read_loop rs b = Some (False, [], b') \<and> rx_ok B b' \<and> contents b' = contents b @ read_bytes rs"
  using assms
proof (induction rs b rule: read_loop.induct)
  case (1 rs b)
  define b1 where "b1 = (if getRemainingSize b = 0 then doubleCapacity b else b)"
  note g = grow_ok [OF "1.prems"(1,2), folded b1_def]
  have n: "unat (getRemainingSize b1) \<noteq> 0" using g(3) by (simp add: unat_eq_0)
  note eq = read_loop.simps [of rs b, folded b1_def, unfolded Let_def]
  from sys_read_quiet [OF "1.prems"(3) n] show ?case
  proof (elim disjE exE conjE)
    assume "rs = []" "sys_read (unat (getRemainingSize b1)) rs = (Eagain, [])"
    with g show ?thesis unfolding eq by simp
  next
    fix rs'
    assume r: "sys_read (unat (getRemainingSize b1)) rs = (Eintr, rs')" "quiet rs'" "read_bytes rs' = read_bytes rs"
    have "\<exists>b'. read_loop rs' b1 = Some (False, [], b') \<and> rx_ok B b' \<and> contents b' = contents b1 @ read_bytes rs'"
      by (rule "1.IH"(2) [OF b1_def refl r(1) [symmetric] refl])
        (use g r "1.prems" in \<open>auto simp: b1_def [symmetric]\<close>)
    with r g show ?thesis by (simp add: eq)
  next
    fix c s rs'
    assume r: "sys_read (unat (getRemainingSize b1)) rs = (Ret (c # s), rs')" "quiet rs'"
      "length (c # s) \<le> unat (getRemainingSize b1)" "read_bytes rs = (c # s) @ read_bytes rs'"
    obtain b2 where w: "writeN (word_of_nat (length (c # s))) (fill_tail (c # s) b1) = Some b2"
      "rx_ok B b2" "contents b2 = contents b1 @ c # s"
      using writeN_rx [OF g(1) r(3)] g(2) r(4) "1.prems"(4) by auto
    have "\<exists>b'. read_loop rs' b2 = Some (False, [], b') \<and> rx_ok B b' \<and> contents b' = contents b2 @ read_bytes rs'"
      by (rule "1.IH"(1) [OF b1_def refl r(1) [symmetric] refl refl w(1) w(2)])
        (use g r w "1.prems" in auto)
    with r w g show ?thesis by (auto simp add: eq)
  qed
qed

section \<open>One read event\<close>

lemma fold_callback:
  "fold (\<lambda>p. callback (f p)) ps l =
     l\<lparr>l_app := fold (\<lambda>p a. fst (f p a)) ps (l_app l),
       m_queue := m_queue (fold (\<lambda>p. callback (f p)) ps l),
       l_kernel := (l_kernel l)\<lparr>k_eventfd := k_eventfd (l_kernel (fold (\<lambda>p. callback (f p)) ps l))\<rparr>\<rparr>"
proof (induction ps arbitrary: l)
  case (Cons p ps)
  show ?case unfolding fold_simps by (subst Cons.IH) (simp add: callback_eq)
qed simp

lemma fold_callback_frame [simp]:
  "m_slot (fold (\<lambda>p. callback (f p)) ps l) = m_slot l"
  "m_bufferPool (fold (\<lambda>p. callback (f p)) ps l) = m_bufferPool l"
  "k_read (l_kernel (fold (\<lambda>p. callback (f p)) ps l)) = k_read (l_kernel l)"
  "l_app (fold (\<lambda>p. callback (f p)) ps l) = fold (\<lambda>p a. fst (f p a)) ps (l_app l)"
  by (subst fold_callback, simp)+

text \<open>A connection ready to receive: in use, with a handler that parses with \<open>parse\<close>, and a buffer
  or a pool to take one from.\<close>

definition rx_conn :: "(IoBuffer \<Rightarrow> parse_result) \<Rightarrow> 'a handlers \<Rightarrow> nat \<Rightarrow> nat \<Rightarrow> nat \<Rightarrow> 'a SocketLoop \<Rightarrow> bool" where
  "rx_conn parse H h B i l \<longleftrightarrow>
     i < length (m_slot l) \<and> s_status (slot l i) = SocketStatus_Connected \<and> s_handler (slot l i) = Some h \<and>
     m_parser H h = parse \<and>
     (case readBuffer (slot l i) of None \<Rightarrow> pool_all (\<lambda>b. rx_ok B b \<and> contents b = []) (m_bufferPool l) | Some b \<Rightarrow> rx_ok B b)"

definition rx_bytes :: "nat \<Rightarrow> 'a SocketLoop \<Rightarrow> string" where
  "rx_bytes i l = (case readBuffer (slot l i) of None \<Rightarrow> [] | Some b \<Rightarrow> contents b)"

lemma new_rx_ok: "rx_ok B (new_IoBuffer 4096)" "contents (new_IoBuffer 4096) = []"
  by (simp_all add: rx_ok_def new_IoBuffer_ok) (simp_all add: new_IoBuffer_def)

lemma rx_conn_buffer:
  assumes "rx_conn parse H h B i l"
  obtains b pool where "(case readBuffer (slot l i) of
      None \<Rightarrow> pool_get (new_IoBuffer 4096) (m_bufferPool l) | Some b \<Rightarrow> Some (b, m_bufferPool l)) = Some (b, pool)"
    "rx_ok B b" "contents b = rx_bytes i l"
proof (cases "readBuffer (slot l i)")
  case None
  then have "pool_all (\<lambda>b. rx_ok B b \<and> contents b = []) (m_bufferPool l)"
    using assms by (simp add: rx_conn_def)
  then show thesis
    by (rule pool_get_ok [where new_node = "new_IoBuffer 4096"]) (use None that new_rx_ok in \<open>auto simp: rx_bytes_def\<close>)
qed (use assms that in \<open>auto simp: rx_conn_def rx_bytes_def\<close>)

lemma rx_ok_consumed: "rx_ok B b \<Longrightarrow> consumed b b' \<Longrightarrow> io_wf b' \<Longrightarrow> rx_ok B b'"
  by (auto simp: rx_ok_def consumed_def io_wf_def word_le_nat_alt word_unat_eq_iff)

text \<open>A sequence of read events on a slot, each with what has arrived for it.\<close>

definition arrive :: "u32 \<Rightarrow> string sysres list \<Rightarrow> 'a SocketLoop \<Rightarrow> 'a SocketLoop" where
  "arrive fd rs l = l\<lparr>l_kernel := (l_kernel l)\<lparr>k_read := (k_read (l_kernel l))(fd := rs)\<rparr>\<rparr>"

fun receive :: "'a handlers \<Rightarrow> nat \<Rightarrow> string sysres list list \<Rightarrow> 'a SocketLoop \<Rightarrow> 'a SocketLoop option" where
  "receive H i [] l = Some l"
| "receive H i (rs # rss) l = do { l' \<leftarrow> handleRead H i (arrive (s_fd (slot l i)) rs l); receive H i rss l' }"

lemma arrive_simps [simp]:
  "slot (arrive fd rs l) i = slot l i" "rx_bytes i (arrive fd rs l) = rx_bytes i l"
  "k_read (l_kernel (arrive fd rs l)) fd = rs" "l_app (arrive fd rs l) = l_app l"
  "rx_conn parse H h B i (arrive fd rs l) = rx_conn parse H h B i l"
  by (simp_all add: arrive_def slot_def rx_bytes_def rx_conn_def split: option.splits)

abbreviation app_packets ::
  "'a handlers \<Rightarrow> nat \<Rightarrow> Socket \<Rightarrow> string list \<Rightarrow> 'a \<Rightarrow> 'a" where
  "app_packets H h s ps \<equiv> fold (\<lambda>p a. fst (onPacket H h (sock_view s) p a)) ps"

lemma sock_view_read [simp]: "sock_view (s\<lparr>readBuffer := r\<rparr>) = sock_view s"
  by (simp add: sock_view_def)

lemma sock_view_fields:
  "s_fd (sock_view s) = s_fd s" "s_status (sock_view s) = s_status s" "s_handler (sock_view s) = s_handler s"
  by (simp_all add: sock_view_def)

context packet_parser
begin

lemma handleRead_packets:
  assumes conn: "rx_conn parse H h B i l" and B: "B < 2 ^ 31"
    and rs: "quiet (k_read (l_kernel l) (s_fd (slot l i)))"
    and fit: "length (rx_bytes i l) + length (read_bytes (k_read (l_kernel l) (s_fd (slot l i)))) \<le> B"
    and ps: "\<forall>p \<in> set ps. valid p"
    and bytes: "(rx_bytes i l @ read_bytes (k_read (l_kernel l) (s_fd (slot l i)))) @ later = concat (map frame ps)"
  obtains qs ts l' where "ps = qs @ ts" "handleRead H i l = Some l'" "rx_conn parse H h B i l'"
    "rx_bytes i l' @ later = concat (map frame ts)"
    "rx_bytes i l' = [] \<or> (\<exists>q. valid q \<and> strict_prefix (rx_bytes i l') (frame q))"
    "l_app l' = app_packets H h (slot l i) qs (l_app l)" "sock_view (slot l' i) = sock_view (slot l i)"
proof -
  obtain b pool where b: "(case readBuffer (slot l i) of
      None \<Rightarrow> pool_get (new_IoBuffer 4096) (m_bufferPool l) | Some b \<Rightarrow> Some (b, m_bufferPool l)) = Some (b, pool)"
    "rx_ok B b" "contents b = rx_bytes i l"
    using rx_conn_buffer [OF conn] by metis
  obtain b1 where r: "read_loop (k_read (l_kernel l) (s_fd (slot l i))) b = Some (False, [], b1)" "rx_ok B b1"
    "contents b1 = rx_bytes i l @ read_bytes (k_read (l_kernel l) (s_fd (slot l i)))"
    using read_loop_ok [OF b(2) B rs] fit b(3) by auto
  define s1 where "s1 = (slot l i)\<lparr>readBuffer := Some b1\<rparr>"
  define l1 where "l1 = set_slot i s1 (l\<lparr>m_bufferPool := pool,
      l_kernel := (l_kernel l)\<lparr>k_read := (k_read (l_kernel l))(s_fd (slot l i) := [])\<rparr>\<rparr>)"
  obtain qs ts b2 where d: "ps = qs @ ts"
    "onData parse (\<lambda>p. callback (onPacket H h (sock_view s1) p)) l1 b1 =
       Some (Returned True (fold (\<lambda>p. callback (onPacket H h (sock_view s1) p)) qs l1) b2)"
    "io_wf b2" "contents b2 @ later = concat (map frame ts)" "consumed b1 b2"
    "contents b2 = [] \<or> (\<exists>q. valid q \<and> strict_prefix (contents b2) (frame q))"
    using onData_split [OF ps bytes rx_ok_io_wf [OF r(2)] r(3)] by metis
  define l2 where "l2 = fold (\<lambda>p. callback (onPacket H h (sock_view s1) p)) qs l1"
  define l' where "l' = set_slot i (s1\<lparr>readBuffer := Some b2\<rparr>) l2"
  have c: "i < length (m_slot l)" "s_status (slot l i) = SocketStatus_Connected" "s_handler (slot l i) = Some h"
    "m_parser H h = parse"
    using conn by (simp_all add: rx_conn_def)
  have len: "i < length (m_slot l2)" using c(1) by (simp add: l2_def l1_def)
  have eq: "handleRead H i l = Some l'"
    using c b(1) r(1) d(2) by (simp add: handleRead_def Let_def l1_def s1_def l2_def l'_def)
  have s': "slot l' i = (slot l i)\<lparr>readBuffer := Some b2\<rparr>" using len by (simp add: l'_def s1_def)
  show thesis
  proof (rule that [OF d(1) eq])
    show "rx_conn parse H h B i l'"
      using c s' len rx_ok_consumed [OF r(2) d(5,3)] by (simp add: rx_conn_def) (simp add: l'_def)
    show "l_app l' = app_packets H h (slot l i) qs (l_app l)"
      by (simp add: l'_def l2_def l1_def s1_def)
  qed (use s' d in \<open>simp_all add: rx_bytes_def\<close>)
qed

theorem receive_stream:
  assumes M: "\<forall>p. valid p \<longrightarrow> length (frame p) \<le> M"
    and conn: "rx_conn parse H h B i l" and B: "B < 2 ^ 31"
    and part: "rx_bytes i l = [] \<or> (\<exists>q. valid q \<and> strict_prefix (rx_bytes i l) (frame q))"
    and rss: "\<forall>rs \<in> set rss. quiet rs \<and> M + length (read_bytes rs) \<le> B"
    and ps: "\<forall>p \<in> set ps. valid p"
    and bytes: "rx_bytes i l @ concat (map read_bytes rss) @ later = concat (map frame ps)"
  shows "\<exists>qs ts l'. ps = qs @ ts \<and> receive H i rss l = Some l' \<and> rx_conn parse H h B i l' \<and>
    rx_bytes i l' @ later = concat (map frame ts) \<and> l_app l' = app_packets H h (slot l i) qs (l_app l)"
  using conn part rss ps bytes
proof (induction rss arbitrary: l ps)
  case Nil
  then show ?case by (intro exI [of _ "[]"] exI [of _ ps] exI [of _ l]) simp
next
  case (Cons rs rss)
  let ?l = "arrive (s_fd (slot l i)) rs l"
  have "length (rx_bytes i l) \<le> M" using Cons.prems(2) M by (auto dest!: prefix_length_less)
  then have fit: "length (rx_bytes i ?l) + length (read_bytes (k_read (l_kernel ?l) (s_fd (slot ?l i)))) \<le> B"
    using Cons.prems(3) by force
  obtain qs ts l1 where h: "ps = qs @ ts" "handleRead H i ?l = Some l1" "rx_conn parse H h B i l1"
    "rx_bytes i l1 @ concat (map read_bytes rss) @ later = concat (map frame ts)"
    "rx_bytes i l1 = [] \<or> (\<exists>q. valid q \<and> strict_prefix (rx_bytes i l1) (frame q))"
    "l_app l1 = app_packets H h (slot l i) qs (l_app l)" "sock_view (slot l1 i) = sock_view (slot l i)"
    using handleRead_packets [of H h B i ?l ps "concat (map read_bytes rss) @ later"] Cons.prems B fit
    by (simp add: append_assoc) metis
  obtain qs' ts' l' where r: "ts = qs' @ ts'" "receive H i rss l1 = Some l'" "rx_conn parse H h B i l'"
    "rx_bytes i l' @ later = concat (map frame ts')" "l_app l' = app_packets H h (slot l1 i) qs' (l_app l1)"
    using Cons.IH [OF h(3,5) _ _ h(4)] Cons.prems(3,4) h(1) by auto
  show ?case
    by (intro exI [of _ "qs @ qs'"] exI [of _ ts'] exI [of _ l']) (use h r in simp)
qed

end

end
