(* ===== verification/Socket_Send.thy ===== *)
theory Socket_Send
  imports Socket_Receive
begin

text \<open>
  The sending side of the loop: \<open>sendSocket\<close> writes what it can and queues the rest, \<open>handleWrite\<close>
  continues when the descriptor is writable. The bytes the kernel accepted followed by the queued
  ones are always the bytes handed to \<open>send\<close>, in order, until the connection is closed
  (\<open>tx_stream\<close>).
\<close>

section \<open>The two loops\<close>

definition tx_ok :: "IoBuffer \<Rightarrow> bool" where
  "tx_ok b \<longleftrightarrow> io_wf b \<and> contents b \<noteq> []"

lemma sys_write_bound: "sys_write n ws = (Ret k, ws') \<Longrightarrow> k \<le> n"
  by (induction n ws rule: sys_write.induct) auto

lemma readN_taken:
  assumes "io_wf b" and "k \<le> length (contents b)"
  obtains b' where "readN (word_of_nat k) b = Some b'" "io_wf b'" "contents b' = drop k (contents b)"
proof -
  have "length (contents b) < 2 ^ 32" using io_wf_sizes(2) [OF assms(1)] unat_u32_less [of "getSize b"] by simp
  then have "unat (word_of_nat k :: u32) = k" using assms(2) by simp
  then show thesis using readN_ok [OF assms(1), of "word_of_nat k"] assms(2) that by auto
qed

lemma getSize_0: "io_wf b \<Longrightarrow> getSize b = 0 \<longleftrightarrow> contents b = []"
  by (metis io_wf_sizes(2) length_0_conv unat_eq_0)

lemma write_loop_ok:
  assumes "list_all tx_ok bs"
  shows "\<exists>c ws' bs' out'. write_loop ws bs out = Some (c, ws', bs', out') \<and> list_all tx_ok bs' \<and>
    out' @ concat (map contents bs') = out @ concat (map contents bs) \<and> prefix out out'"
  using assms
proof (induction ws bs out rule: write_loop.induct)
  case (2 ws b bs out)
  have wf: "io_wf b" "tx_ok b" "list_all tx_ok bs" using "2.prems" by simp_all (simp add: tx_ok_def)
  obtain r ws' where r: "sys_write (unat (getSize b)) ws = (r, ws')" by (cases "sys_write (unat (getSize b)) ws")
  note eq = write_loop.simps(2) [of ws b bs out, unfolded r]
  show ?case
  proof (cases r)
    case (Ret k)
    show ?thesis
    proof (cases "k = 0")
      case False
      have "k \<le> length (contents b)" using sys_write_bound r Ret io_wf_sizes(2) [OF wf(1)] by metis
      from readN_taken [OF wf(1) this] obtain b' where
        b': "readN (word_of_nat k) b = Some b'" "io_wf b'" "contents b' = drop k (contents b)" .
      let ?bs = "if getSize b' = 0 then bs else b' # bs"
      have ok: "list_all tx_ok ?bs" using b'(2) wf by (auto simp: tx_ok_def getSize_0)
      have c: "concat (map contents ?bs) = contents b' @ concat (map contents bs)"
        using b'(2) by (auto simp: getSize_0)
      have "\<exists>c ws'' bs' out'. write_loop ws' ?bs (out @ take k (contents b)) = Some (c, ws'', bs', out') \<and>
          list_all tx_ok bs' \<and>
          out' @ concat (map contents bs') = (out @ take k (contents b)) @ concat (map contents ?bs) \<and>
          prefix (out @ take k (contents b)) out'"
        using "2.IH"(1) [OF r [symmetric] Ret False b'(1)] ok by blast
      then show ?thesis using False Ret b' c by (fastforce simp: eq intro: append_prefixD)
    qed (use Ret wf in \<open>auto simp: eq\<close>)
  next
    case Eintr
    then show ?thesis using "2.IH"(2) [OF r [symmetric]] "2.prems" by (simp add: eq)
  qed (use wf in \<open>auto simp: eq\<close>)
qed (auto simp: write_loop.simps)

lemma send_loop_case:
  assumes "io_wf b" and "rem = contents b"
  shows "case send_loop ws rem b out of
      None \<Rightarrow> False
    | Some (c, a, ws', rem', b', out') \<Rightarrow>
        io_wf b' \<and> rem' = contents b' \<and> out' @ rem' = out @ rem \<and> prefix out out'"
  using assms
proof (induction ws rem b out rule: send_loop.induct)
  case (1 ws rem b out)
  obtain r ws' where r: "sys_write (length rem) ws = (r, ws')" by (cases "sys_write (length rem) ws")
  note eq = send_loop.simps [of ws rem b out, unfolded r]
  show ?case
  proof (cases "rem = []")
    case ne: False
    show ?thesis
    proof (cases r)
      case (Ret k)
      show ?thesis
      proof (cases "k = 0")
        case False
        have "k \<le> length (contents b)" using sys_write_bound r Ret "1.prems"(2) by metis
        from readN_taken [OF "1.prems"(1) this] obtain b' where
          b': "readN (word_of_nat k) b = Some b'" "io_wf b'" "contents b' = drop k (contents b)" .
        have "case send_loop ws' (drop k rem) b' (out @ take k rem) of
            None \<Rightarrow> False
          | Some (c, a, ws'', rem', b'', out') \<Rightarrow> io_wf b'' \<and> rem' = contents b'' \<and>
              out' @ rem' = (out @ take k rem) @ drop k rem \<and> prefix (out @ take k rem) out'"
          using "1.IH"(1) [OF ne r [symmetric] Ret False b'(1)] b' "1.prems"(2) by simp
        then show ?thesis
          unfolding eq using ne False Ret b' by (auto split: option.splits intro: append_prefixD)
      qed (unfold eq, use ne Ret "1.prems" in simp)
    next
      case Eintr
      then show ?thesis unfolding eq using "1.IH"(2) [OF ne r [symmetric]] ne "1.prems" by simp
    qed (unfold eq, use ne "1.prems" in simp_all)
  qed (unfold eq, use "1.prems" in simp)
qed

lemma send_loop_ok:
  assumes "io_wf b"
  obtains c a ws' b' out' where "send_loop ws (contents b) b out = Some (c, a, ws', contents b', b', out')"
    "io_wf b'" "out' @ contents b' = out @ contents b"
  using send_loop_case [OF assms refl, where ws = ws and out = out] by (auto split: option.splits)

section \<open>A connection's output\<close>

definition pending :: "nat \<Rightarrow> 'a SocketLoop \<Rightarrow> string" where
  "pending i l = concat (map contents (writeBuffer (slot l i)))"

definition out_of :: "u32 \<Rightarrow> 'a SocketLoop \<Rightarrow> string" where
  "out_of fd l = k_out (l_kernel l) fd"

text \<open>A slot connected on \<open>fd\<close>, or closed.\<close>

definition tx_conn :: "u32 \<Rightarrow> nat \<Rightarrow> 'a SocketLoop \<Rightarrow> bool" where
  "tx_conn fd i l \<longleftrightarrow> i < length (m_slot l) \<and> s_status (slot l i) = SocketStatus_Connected \<and>
     s_fd (slot l i) = fd \<and> list_all tx_ok (writeBuffer (slot l i))"

definition tx_closed :: "nat \<Rightarrow> 'a SocketLoop \<Rightarrow> bool" where
  "tx_closed i l \<longleftrightarrow> s_status (slot l i) = SocketStatus_Idle"

lemma forceClose_frame [simp]:
  "m_maxSocket (forceClose H i ct l) = m_maxSocket l" "m_allocId (forceClose H i ct l) = m_allocId l"
  "length (m_slot (forceClose H i ct l)) = length (m_slot l)"
  "k_out (l_kernel (forceClose H i ct l)) = k_out (l_kernel l)"
  "m_connTimeout (forceClose H i ct l) = m_connTimeout l"
  by (auto simp: forceClose_def Let_def split: option.splits)

lemma forceClose_slot:
  assumes "i < length (m_slot l)" and "s_status (slot l i) \<noteq> SocketStatus_Reserse"
  shows "s_status (slot (forceClose H i ct l) i) = SocketStatus_Idle"
  using assms by (auto simp: forceClose_def Let_def slot_def set_slot_def split: option.splits)

lemma set_write_simps [simp]:
  "m_slot (set_write fd ws out l) = m_slot l" "slot (set_write fd ws out l) j = slot l j"
  "k_out (l_kernel (set_write fd ws out l)) = (k_out (l_kernel l))(fd := out)"
  "m_maxSocket (set_write fd ws out l) = m_maxSocket l" "m_poll (set_write fd ws out l) = m_poll l"
  by (simp_all add: set_write_def slot_def)

text \<open>One operation: the descriptor becomes writable, or a buffer is sent to the id of the slot.\<close>

datatype tx_op = Writable "nat sysres list" | Send IoBuffer "nat sysres list"

fun tx_step :: "'a handlers \<Rightarrow> u32 \<Rightarrow> nat \<Rightarrow> u32 \<Rightarrow> tx_op \<Rightarrow> 'a SocketLoop \<Rightarrow> 'a SocketLoop option" where
  "tx_step H fd i cid (Writable ws) l = handleWrite H i (set_write fd ws (out_of fd l) l)"
| "tx_step H fd i cid (Send b ws) l = sendSocket H cid (Some b) (set_write fd ws (out_of fd l) l)"

fun tx_sent :: "tx_op \<Rightarrow> string" where
  "tx_sent (Writable ws) = []"
| "tx_sent (Send b ws) = contents b"

fun tx_op_ok :: "tx_op \<Rightarrow> bool" where
  "tx_op_ok (Writable ws) = True"
| "tx_op_ok (Send b ws) = tx_ok b"

fun tx_run :: "'a handlers \<Rightarrow> u32 \<Rightarrow> nat \<Rightarrow> u32 \<Rightarrow> tx_op list \<Rightarrow> 'a SocketLoop \<Rightarrow> 'a SocketLoop option" where
  "tx_run H fd i cid [] l = Some l"
| "tx_run H fd i cid (op # ops) l = do { l' \<leftarrow> tx_step H fd i cid op l; tx_run H fd i cid ops l' }"

text \<open>What a step promises: still connected with every byte accounted for, or closed with a prefix
  of them written.\<close>

definition tx_post :: "u32 \<Rightarrow> nat \<Rightarrow> string \<Rightarrow> 'a SocketLoop \<Rightarrow> bool" where
  "tx_post fd i bytes l \<longleftrightarrow>
     (tx_conn fd i l \<and> out_of fd l @ pending i l = bytes) \<or> (tx_closed i l \<and> prefix (out_of fd l) bytes)"

lemma forceClose_post:
  assumes "i < length (m_slot l)" and "s_status (slot l i) \<noteq> SocketStatus_Reserse" and "prefix (out_of fd l) bytes"
  shows "tx_post fd i bytes (forceClose H i ct l)"
  using assms forceClose_slot [OF assms(1,2)] by (simp add: tx_post_def tx_closed_def out_of_def)

lemma handleWrite_post:
  assumes "tx_conn fd i l"
  shows "\<exists>l'. handleWrite H i l = Some l' \<and> tx_post fd i (out_of fd l @ pending i l) l' \<and> m_maxSocket l' = m_maxSocket l"
proof -
  have c: "i < length (m_slot l)" "s_status (slot l i) = SocketStatus_Connected" "s_fd (slot l i) = fd"
    "list_all tx_ok (writeBuffer (slot l i))"
    using assms by (simp_all add: tx_conn_def)
  obtain cl ws bs out where w: "write_loop (k_write (l_kernel l) fd) (writeBuffer (slot l i)) (k_out (l_kernel l) fd) =
      Some (cl, ws, bs, out)" "list_all tx_ok bs"
    "out @ concat (map contents bs) = k_out (l_kernel l) fd @ concat (map contents (writeBuffer (slot l i)))"
    using write_loop_ok [OF c(4), of "k_write (l_kernel l) fd" "k_out (l_kernel l) fd"] by blast
  have "prefix out (k_out (l_kernel l) fd @ concat (map contents (writeBuffer (slot l i))))"
    unfolding w(3) [symmetric] by simp
  with c w show ?thesis
    by (cases cl)
      (auto simp: handleWrite_def Let_def pending_def intro!: forceClose_post,
       auto simp: tx_post_def tx_conn_def out_of_def pending_def slot_def)
qed

lemma sendSocket_post:
  assumes "tx_conn fd i l" and "getSocket cid l = Some i" and "tx_ok b"
  shows "\<exists>l'. sendSocket H cid (Some b) l = Some l' \<and>
    tx_post fd i (out_of fd l @ pending i l @ contents b) l' \<and> m_maxSocket l' = m_maxSocket l"
proof -
  have c: "i < length (m_slot l)" "s_status (slot l i) = SocketStatus_Connected" "s_fd (slot l i) = fd"
    "list_all tx_ok (writeBuffer (slot l i))"
    using assms by (simp_all add: tx_conn_def)
  show ?thesis
  proof (cases "writeBuffer (slot l i) = []")
    case False
    with c assms(2,3) show ?thesis
      by (auto simp: sendSocket_def Let_def tx_post_def tx_conn_def out_of_def pending_def)
  next
    case True
    obtain cl a ws b' out where s: "send_loop (k_write (l_kernel l) fd) (contents b) b (k_out (l_kernel l) fd) =
        Some (cl, a, ws, contents b', b', out)" "io_wf b'" "out @ contents b' = k_out (l_kernel l) fd @ contents b"
      using send_loop_ok [of b] assms(3) unfolding tx_ok_def by metis
    have "prefix out (k_out (l_kernel l) fd @ contents b)" unfolding s(3) [symmetric] by simp
    with c True s assms(2) show ?thesis
      by (cases cl)
        (auto simp: sendSocket_def Let_def pending_def intro!: forceClose_post,
         auto simp: tx_post_def tx_conn_def out_of_def pending_def slot_def tx_ok_def)
  qed
qed

lemma set_write_tx [simp]:
  "tx_conn fd i (set_write fd' ws out l) = tx_conn fd i l" "tx_closed i (set_write fd' ws out l) = tx_closed i l"
  "out_of fd (set_write fd ws out l) = out" "pending i (set_write fd' ws out l) = pending i l"
  "getSocket cid (set_write fd' ws out l) = getSocket cid l"
  by (simp_all add: tx_conn_def tx_closed_def out_of_def pending_def getSocket_def hash_id_def)

lemma tx_step_post:
  assumes "tx_post fd i bytes l" and "getSocket cid l = Some i" and "tx_op_ok op"
  shows "\<exists>l'. tx_step H fd i cid op l = Some l' \<and> tx_post fd i (bytes @ tx_sent op) l' \<and> m_maxSocket l' = m_maxSocket l"
proof (cases "tx_conn fd i l \<and> out_of fd l @ pending i l = bytes")
  case True
  show ?thesis
  proof (cases op)
    case (Writable ws)
    then show ?thesis using True handleWrite_post [of fd i "set_write fd ws (out_of fd l) l" H] by simp
  next
    case (Send b ws)
    then show ?thesis
      using True assms(2,3) sendSocket_post [of fd i "set_write fd ws (out_of fd l) l" cid b H] by auto
  qed
next
  case False
  then have c: "tx_closed i l" "prefix (out_of fd l) bytes" using assms(1) by (auto simp: tx_post_def)
  then have "tx_step H fd i cid op l = Some (set_write fd
      (case op of Writable ws \<Rightarrow> ws | Send b ws \<Rightarrow> ws) (out_of fd l) l)"
    using assms(2) by (cases op) (simp_all add: handleWrite_def sendSocket_def tx_closed_def)
  with c show ?thesis by (simp add: tx_post_def prefix_prefix)
qed

theorem tx_stream:
  assumes "tx_post fd i bytes l" and "getSocket cid l = Some i" and "list_all tx_op_ok ops"
  shows "\<exists>l'. tx_run H fd i cid ops l = Some l' \<and> tx_post fd i (bytes @ concat (map tx_sent ops)) l'"
  using assms
proof (induction ops arbitrary: l bytes)
  case (Cons op ops)
  obtain l1 where l1: "tx_step H fd i cid op l = Some l1" "tx_post fd i (bytes @ tx_sent op) l1"
    "m_maxSocket l1 = m_maxSocket l"
    using tx_step_post [OF Cons.prems(1,2)] Cons.prems(3) by auto
  then have "getSocket cid l1 = Some i" using Cons.prems(2) by (simp add: getSocket_def hash_id_def split: if_splits)
  from Cons.IH [OF l1(2) this] Cons.prems(3) l1(1) show ?case by simp
qed simp

text \<open>An empty buffer queued behind others is written with size 0, which the loop takes for a closed
  peer.\<close>

lemma write_loop_empty:
  assumes "getSize b = 0"
  shows "write_loop (Ret k # ws) (b # bs) out = Some (True, ws, b # bs, out)"
  using assms by (simp add: write_loop.simps)

lemma handleWrite_empty_closes:
  assumes "i < length (m_slot l)" and "s_status (slot l i) = SocketStatus_Connected"
    and "writeBuffer (slot l i) = b # bs" and "getSize b = 0" and "k_write (l_kernel l) (s_fd (slot l i)) = Ret k # ws"
  shows "\<exists>l'. handleWrite H i l = Some l' \<and> s_status (slot l' i) = SocketStatus_Idle"
proof -
  let ?l = "set_slot i ((slot l i)\<lparr>writeBuffer := b # bs\<rparr>)
      (set_write (s_fd (slot l i)) ws (k_out (l_kernel l) (s_fd (slot l i))) l)"
  have "handleWrite H i l = Some (forceClose H i CloseType_Peer ?l)"
    using assms by (simp add: handleWrite_def write_loop_empty Let_def)
  moreover have "s_status (slot (forceClose H i CloseType_Peer ?l) i) = SocketStatus_Idle"
    by (rule forceClose_slot) (use assms in simp_all)
  ultimately show ?thesis by blast
qed

end
