(* ===== verification/Socket_Invariant.thy ===== *)
theory Socket_Invariant
  imports Socket_Send
begin

text \<open>
  Invariants of the loop: only connected slots own buffers, so nothing of a closed connection is
  left for the next one in its slot (\<open>loop_inv\<close>, kept by \<open>runOnce\<close> when no callback opens
  connections), commands in the queue are announced on the notifier (\<open>wake_ok\<close>), what
  \<open>forceClose\<close> does exactly, and what \<open>getNewSocket\<close> finds.
\<close>

section \<open>Only connected slots own buffers\<close>

definition sock_clean :: "Socket \<Rightarrow> bool" where
  "sock_clean s \<longleftrightarrow> (s_status s \<noteq> SocketStatus_Connected \<longrightarrow> readBuffer s = None \<and> writeBuffer s = [])"

definition plain_cmd :: "SocketCmd \<Rightarrow> bool" where
  "plain_cmd c \<longleftrightarrow> cmd_type c \<noteq> SocketCmd_Connect"

text \<open>Handlers that send and close but open no connection, as those of a listening service.\<close>

definition plain_handlers :: "'a handlers \<Rightarrow> bool" where
  "plain_handlers H \<longleftrightarrow>
     (\<forall>h s a. list_all plain_cmd (snd (onConnect H h s a))) \<and> (\<forall>h s a. list_all plain_cmd (snd (onAccept H h s a))) \<and>
     (\<forall>h s c a. list_all plain_cmd (snd (onClose H h s c a))) \<and> (\<forall>h s p a. list_all plain_cmd (snd (onPacket H h s p a)))"

definition loop_inv :: "'a SocketLoop \<Rightarrow> bool" where
  "loop_inv l \<longleftrightarrow>
     length (m_slot l) = unat (m_maxSocket l) \<and> 0 < unat (m_maxSocket l) \<and> unat (m_maxSocket l) < 2 ^ 31 \<and>
     list_all sock_clean (m_slot l) \<and> list_all plain_cmd (m_queue l)"

lemma list_all_update: "list_all P xs \<Longrightarrow> P x \<Longrightarrow> list_all P (xs[i := x])"
  by (auto simp: list_all_iff dest: set_update_subset_insert [THEN subsetD])

lemma loop_inv_slot: "loop_inv l \<Longrightarrow> i < length (m_slot l) \<Longrightarrow> sock_clean (slot l i)"
  by (simp add: loop_inv_def slot_def list_all_length)

lemma loop_inv_set_slot: "loop_inv l \<Longrightarrow> sock_clean s \<Longrightarrow> loop_inv (set_slot i s l)"
  by (simp add: loop_inv_def list_all_update)

lemma loop_inv_callback:
  "loop_inv l \<Longrightarrow> list_all plain_cmd (snd (f (l_app l))) \<Longrightarrow> loop_inv (callback f l)"
  by (simp add: loop_inv_def)

lemma loop_inv_other [simp]:
  "loop_inv (l\<lparr>m_poll := p\<rparr>) = loop_inv l" "loop_inv (l\<lparr>m_bufferPool := bp\<rparr>) = loop_inv l"
  "loop_inv (l\<lparr>m_connTimeout := t\<rparr>) = loop_inv l" "loop_inv (l\<lparr>l_kernel := k\<rparr>) = loop_inv l"
  "loop_inv (l\<lparr>m_allocId := n\<rparr>) = loop_inv l" "loop_inv (l\<lparr>m_running := r\<rparr>) = loop_inv l"
  "loop_inv (sys_close fd l) = loop_inv l" "loop_inv (set_write fd ws out l) = loop_inv l"
  by (simp_all add: loop_inv_def sys_close_def set_write_def)

lemmas plain_handlersD =
  plain_handlers_def [THEN iffD1, THEN conjunct1, rule_format]
  plain_handlers_def [THEN iffD1, THEN conjunct2, THEN conjunct1, rule_format]
  plain_handlers_def [THEN iffD1, THEN conjunct2, THEN conjunct2, THEN conjunct1, rule_format]
  plain_handlers_def [THEN iffD1, THEN conjunct2, THEN conjunct2, THEN conjunct2, rule_format]

lemma forceClose_inv:
  assumes "loop_inv l" and "plain_handlers H"
  shows "loop_inv (forceClose H i ct l)"
  using assms
  by (auto simp: forceClose_def Let_def sock_clean_def split: option.split
      intro!: loop_inv_set_slot loop_inv_callback plain_handlersD)

lemma slot_Some: "loop_inv l \<Longrightarrow> unat (hash_id l n) < length (m_slot l)"
  by (simp add: loop_inv_def hash_id_def unat_mod)

lemma getSocket_bound: "loop_inv l \<Longrightarrow> getSocket cid l = Some i \<Longrightarrow> i < length (m_slot l)"
  by (auto simp: getSocket_def slot_Some split: if_splits)

lemma getNewSocket_loop_inv:
  "loop_inv l \<Longrightarrow> getNewSocket_loop n l = (r, l') \<Longrightarrow>
     loop_inv l' \<and> length (m_slot l') = length (m_slot l) \<and>
     (\<forall>i. r = Some i \<longrightarrow> i < length (m_slot l) \<and> s_status (slot l i) = SocketStatus_Idle \<and>
        readBuffer (slot l' i) = None \<and> writeBuffer (slot l' i) = [])"
proof (induction n arbitrary: l)
  case (Suc n)
  define n1 where "n1 = (if sint (m_allocId l + 1) < 0 then (m_allocId l + 1) AND 0x7fffffff else m_allocId l + 1)"
  define i where "i = unat (hash_id l n1)"
  have i: "i < length (m_slot l)" using slot_Some [OF Suc.prems(1)] by (simp add: i_def)
  note eq = getNewSocket_loop.simps(2) [of n l, unfolded Let_def, folded n1_def, folded i_def]
  show ?case
  proof (cases "s_status (slot l i) = SocketStatus_Idle")
    case True
    then have c: "readBuffer (slot l i) = None" "writeBuffer (slot l i) = []"
      using loop_inv_slot [OF Suc.prems(1) i] by (simp_all add: sock_clean_def)
    with True Suc.prems i show ?thesis
      by (auto simp: eq sock_clean_def simp del: getNewSocket_loop.simps(2) intro!: loop_inv_set_slot)
  next
    case False
    with Suc.prems Suc.IH [of "l\<lparr>m_allocId := n1\<rparr>"] show ?thesis
      by (simp add: eq slot_def del: getNewSocket_loop.simps(2))
  qed
qed simp

lemma getNewSocket_inv:
  assumes "loop_inv l" and "getNewSocket l = (r, l')"
  shows "loop_inv l'" "length (m_slot l') = length (m_slot l)"
    "r = Some i \<Longrightarrow> i < length (m_slot l')" "r = Some i \<Longrightarrow> s_status (slot l i) = SocketStatus_Idle"
    "r = Some i \<Longrightarrow> readBuffer (slot l' i) = None \<and> writeBuffer (slot l' i) = []"
  using getNewSocket_loop_inv [OF assms(1), of "nat (sint (m_maxSocket l))" r l'] assms(2)
  by (auto simp: getNewSocket_def)

section \<open>Every handler keeps it\<close>

lemma accept_loop_inv:
  "accept_loop H i as l = Some (as', l') \<Longrightarrow> loop_inv l \<Longrightarrow> plain_handlers H \<Longrightarrow> loop_inv l'"
proof (induction H i as l rule: accept_loop.induct)
  case (5 H i fd ip port as l)
  obtain r l1 where g: "getNewSocket l = (r, l1)" by (cases "getNewSocket l")
  note inv = getNewSocket_inv [OF "5.prems"(2) g]
  show ?case
  proof (cases r)
    case (Some j)
    define ns where "ns = (slot l1 j)\<lparr>s_fd := fd, s_type := SocketType_Normal, s_status := SocketStatus_Connected,
      s_handler := s_handler (slot l1 i), s_ip := ip, s_port := port\<rparr>"
    define l2 where "l2 = set_slot j ns (l1\<lparr>m_poll := snd (addToRead fd j (m_poll l1))\<rparr>)"
    have l2: "loop_inv l2" unfolding l2_def
      by (rule loop_inv_set_slot) (use inv(1) in \<open>simp_all add: ns_def sock_clean_def\<close>)
    obtain h where h: "s_handler ns = Some h" "accept_loop H i as (callback (onAccept H h (sock_view ns)) l2) = Some (as', l')"
      using "5.prems"(1) g Some by (auto simp: ns_def l2_def Let_def split: bind_splits)
    show ?thesis
      by (rule "5.IH" [OF g [symmetric] Some _ _ _ h(2)])
        (use h l2 "5.prems" in \<open>auto simp: ns_def l2_def intro!: loop_inv_callback plain_handlersD\<close>)
  qed (use "5.prems" g inv(1) in auto)
qed auto

lemma handleAccept_inv:
  assumes "handleAccept H i l = Some l'" and "loop_inv l" and "plain_handlers H"
  shows "loop_inv l'"
  using assms accept_loop_inv by (fastforce simp: handleAccept_def Let_def split: if_splits bind_splits)

lemma handleConnect_inv:
  assumes "handleConnect H i l = Some l'" and "loop_inv l" and "plain_handlers H"
  shows "loop_inv l'"
  using assms
  by (auto simp: handleConnect_def Let_def sock_clean_def split: if_splits bind_splits prod.splits
      intro!: forceClose_inv loop_inv_set_slot loop_inv_callback plain_handlersD)

text \<open>What every packet keeps, \<open>onData\<close> keeps.\<close>

lemma onData_inv:
  assumes "onData parse f h b = Some r" and "P h" and "\<And>p h. P h \<Longrightarrow> P (f p h)"
  shows "case r of Returned ok h' b' \<Rightarrow> P h' | OutOfBounds \<Rightarrow> True"
proof -
  have "f = f \<longrightarrow> P h \<longrightarrow> (case r of Returned ok h' b' \<Rightarrow> P h' | OutOfBounds \<Rightarrow> True)"
  proof (rule onData.raw_induct [where P = "\<lambda>parse g h b r. g = f \<longrightarrow> P h \<longrightarrow>
        (case r of Returned ok h' b' \<Rightarrow> P h' | OutOfBounds \<Rightarrow> True)", OF _ assms(1)])
    fix od parse' g h b r
    assume ih: "\<And>parse' g h b r. od parse' g h b = Some r \<Longrightarrow>
        g = f \<longrightarrow> P h \<longrightarrow> (case r of Returned ok h' b' \<Rightarrow> P h' | OutOfBounds \<Rightarrow> True)"
      and e: "(case parse' b of None \<Rightarrow> Some OutOfBounds
        | Some (code, off, sz, b') \<Rightarrow>
          (case code of Packet_Less \<Rightarrow> Some (Returned True h b') | Packet_Error \<Rightarrow> Some (Returned False h b')
           | Packet_Normal \<Rightarrow> (case view_packet b' off sz of None \<Rightarrow> Some OutOfBounds
               | Some d \<Rightarrow> od parse' g (g d h) b'))) = Some r"
    show "g = f \<longrightarrow> P h \<longrightarrow> (case r of Returned ok h' b' \<Rightarrow> P h' | OutOfBounds \<Rightarrow> True)"
      using e ih assms(3) by (auto split: option.splits prod.splits packet_code.splits)
  qed
  with assms(2) show ?thesis by blast
qed

lemma onData_loop_inv:
  assumes "onData parse (\<lambda>p. callback (onPacket H h (v p) p)) l b = Some (Returned ok l' b')"
    and "loop_inv l" and "plain_handlers H"
  shows "loop_inv l'"
  using onData_inv [where P = loop_inv, OF assms(1,2)] assms(3)
  by (auto intro: loop_inv_callback plain_handlersD)

lemma handleRead_inv:
  assumes "handleRead H i l = Some l'" and "loop_inv l" and "plain_handlers H"
  shows "loop_inv l'"
proof -
  have set: "loop_inv (set_slot i ((slot l i)\<lparr>readBuffer := r\<rparr>) k)"
    if "loop_inv k" "s_status (slot l i) = SocketStatus_Connected" for r k
    using that by (simp add: loop_inv_set_slot sock_clean_def)
  show ?thesis
    using assms
    by (auto simp: handleRead_def Let_def split: if_splits bind_splits option.splits data_result.splits
        intro!: forceClose_inv set dest!: onData_loop_inv)
qed

lemma handleWrite_inv:
  assumes "handleWrite H i l = Some l'" and "loop_inv l" and "plain_handlers H"
  shows "loop_inv l'"
  using assms
  by (auto simp: handleWrite_def Let_def sock_clean_def split: if_splits bind_splits
      intro!: forceClose_inv loop_inv_set_slot)

lemma sendSocket_inv:
  assumes "sendSocket H cid b l = Some l'" and "loop_inv l" and "plain_handlers H"
  shows "loop_inv l'"
  using assms
  by (auto simp: sendSocket_def Let_def sock_clean_def split: if_splits bind_splits option.splits
      intro!: forceClose_inv loop_inv_set_slot)

lemma handleOneCmd_inv:
  assumes "handleOneCmd H cmd l = Some l'" and "loop_inv l" and "plain_handlers H" and "plain_cmd cmd"
  shows "loop_inv l'"
  using assms
  by (auto simp: handleOneCmd_def plain_cmd_def listenSocket_def closeSocket_def
      split: SocketCmdType.splits option.splits intro: sendSocket_inv forceClose_inv)

lemma loop_inv_pop:
  "loop_inv l \<Longrightarrow> lq_pop_front 0 [] (m_queue l) = (r, q) \<Longrightarrow>
     loop_inv (l\<lparr>m_queue := q\<rparr>) \<and> (\<forall>c. r = Some c \<longrightarrow> plain_cmd c)"
  by (auto simp: loop_inv_def lq_pop_front_def split: list.splits if_splits)

lemma cmd_loop_inv:
  assumes "cmd_loop H l = Some l'" and "loop_inv l" and "plain_handlers H"
  shows "loop_inv l' \<and> m_queue l' = []"
proof -
  have "loop_inv l \<longrightarrow> plain_handlers H \<longrightarrow> loop_inv l' \<and> m_queue l' = []"
  proof (rule cmd_loop.raw_induct [where P = "\<lambda>H l l'. loop_inv l \<longrightarrow> plain_handlers H \<longrightarrow>
        loop_inv l' \<and> m_queue l' = []", OF _ assms(1)], intro impI)
    fix cl and H :: "'a handlers" and l l' :: "'a SocketLoop"
    assume ih: "\<And>H l l'. cl H l = Some l' \<Longrightarrow>
        loop_inv l \<longrightarrow> plain_handlers H \<longrightarrow> loop_inv l' \<and> m_queue l' = []"
      and e: "(case lq_pop_front 0 [] (m_queue l) of
          (None, q) \<Rightarrow> Some (l\<lparr>m_queue := q\<rparr>)
        | (Some cmd, q) \<Rightarrow> handleOneCmd H cmd (l\<lparr>m_queue := q\<rparr>) \<bind> cl H) = Some l'"
      and p: "loop_inv l" "plain_handlers H"
    obtain r q where r: "lq_pop_front 0 [] (m_queue l) = (r, q)" by (cases "lq_pop_front 0 [] (m_queue l)")
    note pop = loop_inv_pop [OF p(1) r]
    show "loop_inv l' \<and> m_queue l' = []"
    proof (cases r)
      case None
      then have "q = []" using r by (auto simp: lq_pop_front_def split: list.splits if_splits)
      then show ?thesis using None e r pop by auto
    next
      case (Some cmd)
      then obtain l1 where l1: "handleOneCmd H cmd (l\<lparr>m_queue := q\<rparr>) = Some l1" "cl H l1 = Some l'"
        using e r by (auto split: bind_splits)
      have "loop_inv l1" by (rule handleOneCmd_inv [OF l1(1)]) (use pop Some p in auto)
      with ih [OF l1(2)] p show ?thesis by blast
    qed
  qed
  with assms show ?thesis by blast
qed

lemma handleEvent_inv:
  assumes "handleEvent H e l = Some l'" and "loop_inv l" and "plain_handlers H"
  shows "loop_inv l'"
proof -
  have "loop_inv (l\<lparr>l_kernel := (l_kernel l)\<lparr>k_eventfd := 0\<rparr>\<rparr>)" using assms(2) by simp
  then show ?thesis
    using assms
    by (auto simp: handleEvent_def handleCmd_def Let_def split: SocketType.splits if_splits bind_splits
        intro: handleAccept_inv handleConnect_inv handleRead_inv handleWrite_inv dest!: cmd_loop_inv)
qed

lemma handleEvents_inv:
  "handleEvents H es l = Some l' \<Longrightarrow> loop_inv l \<Longrightarrow> plain_handlers H \<Longrightarrow> loop_inv l'"
  by (induction H es l rule: handleEvents.induct) (auto split: bind_splits dest: handleEvent_inv)

lemma closeSocket_inv: "loop_inv l \<Longrightarrow> plain_handlers H \<Longrightarrow> loop_inv (closeSocket H cid ct l)"
  by (simp add: closeSocket_def forceClose_inv split: option.split)

lemma runOnce_inv:
  assumes "runOnce H reported l = Some l'" and "loop_inv l" and "plain_handlers H"
  shows "loop_inv l'"
proof -
  obtain l1 where l1: "handleEvents H (poll_wait reported) l = Some l1"
    using assms(1) by (auto simp: runOnce_def split: bind_splits)
  have "loop_inv k \<Longrightarrow> loop_inv (fold (doConnTimeClose H) ids k)" for ids k
    by (induction ids arbitrary: k) (simp_all add: doConnTimeClose_def closeSocket_inv assms(3))
  moreover have "loop_inv l1" by (rule handleEvents_inv [OF l1 assms(2,3)])
  ultimately show ?thesis using assms(1) l1 by (auto simp: runOnce_def split: prod.splits)
qed

section \<open>Closing\<close>

text \<open>\<open>forceClose\<close> of a slot in use: the descriptor is closed once, the handler told once, the slot
  emptied and idle, no other slot touched. On an idle or reserved slot nothing happens, so a second
  close is harmless.\<close>

lemma forceClose_used:
  fixes H ct
  assumes "i < length (m_slot l)"
    and "s_status (slot l i) \<noteq> SocketStatus_Idle" and "s_status (slot l i) \<noteq> SocketStatus_Reserse"
  defines "l' \<equiv> forceClose H i ct l"
  shows "slot l' i = (slot l i)\<lparr>readBuffer := None, writeBuffer := [], s_fd := -1, s_status := SocketStatus_Idle\<rparr>"
    and "j \<noteq> i \<Longrightarrow> slot l' j = slot l j"
    and "k_closed (l_kernel l') = k_closed (l_kernel l) @ [s_fd (slot l i)]"
    and "l_app l' = (case s_handler (slot l i) of None \<Rightarrow> l_app l
      | Some h \<Rightarrow> fst (onClose H h (sock_view (slot l i)) ct (l_app l)))"
  using assms by (auto simp: forceClose_def Let_def sys_close_def slot_def set_slot_def split: option.splits)

lemma forceClose_unused:
  "s_status (slot l i) = SocketStatus_Idle \<or> s_status (slot l i) = SocketStatus_Reserse \<Longrightarrow> forceClose H i ct l = l"
  by (auto simp: forceClose_def Let_def)

lemma forceClose_twice:
  assumes "i < length (m_slot l)"
  shows "forceClose H i ct' (forceClose H i ct l) = forceClose H i ct l"
proof (cases "s_status (slot l i) = SocketStatus_Idle \<or> s_status (slot l i) = SocketStatus_Reserse")
  case False
  then have "s_status (slot (forceClose H i ct l) i) = SocketStatus_Idle"
    using forceClose_slot [OF assms] by simp
  then show ?thesis by (intro forceClose_unused) simp
qed (simp add: forceClose_unused)

section \<open>Wake-ups\<close>

text \<open>A command in the queue has been announced on the notifier and not yet been taken off it.\<close>

definition wake_ok :: "'a SocketLoop \<Rightarrow> bool" where
  "wake_ok l \<longleftrightarrow> (m_queue l \<noteq> [] \<longrightarrow> 0 < k_eventfd (l_kernel l))"

lemma wake_pushCmd: "wake_ok (pushCmd cmd l)"
  by (simp add: wake_ok_def pushCmd_def lq_push_back_def)

lemma wake_callback: "wake_ok l \<Longrightarrow> wake_ok (callback f l)"
  by (auto simp: wake_ok_def callback_eq)

lemma wake_handleCmd:
  assumes "handleCmd H l = Some l'" and "loop_inv l" and "plain_handlers H"
  shows "wake_ok l'"
  using cmd_loop_inv [OF assms(1) [unfolded handleCmd_def]] assms(2,3) by (simp add: wake_ok_def)

section \<open>Allocation\<close>

lemma sint_u32_nonneg:
  assumes "unat (w :: u32) < 2 ^ 31"
  shows "sint w = int (unat w)"
proof -
  have "int (unat w) < int (2 ^ 31)" using assms by (simp only: of_nat_less_iff)
  then have "uint w < 2 ^ 31" by simp
  moreover have "(0 :: int) \<le> uint w" by simp
  ultimately have "signed_take_bit 31 (uint w) = uint w" by (intro signed_take_bit_int_eq_self) linarith+
  then show ?thesis by (simp add: sint_uint)
qed

lemma unat_Suc_u32: "unat (w :: u32) < 2 ^ 31 \<Longrightarrow> unat (w + 1) = Suc (unat w)"
  by (simp add: unat_add_u32)

text \<open>\<open>getNewSocket\<close> tries the slots after the last one handed out, in turn.\<close>

lemma getNewSocket_loop_none:
  "getNewSocket_loop n l = (None, l') \<Longrightarrow> unat (m_allocId l + 1) + n \<le> 2 ^ 31 \<Longrightarrow> k < n \<Longrightarrow>
     s_status (slot l ((unat (m_allocId l + 1) + k) mod unat (m_maxSocket l))) \<noteq> SocketStatus_Idle"
proof (induction n arbitrary: l k)
  case (Suc n)
  let ?a = "m_allocId l + 1"
  have a: "unat ?a < 2 ^ 31" using Suc.prems(2) by simp
  then have nn: "\<not> sint ?a < 0" by (simp add: sint_u32_nonneg)
  have h: "unat (hash_id l ?a) = unat ?a mod unat (m_maxSocket l)" by (simp add: hash_id_def unat_mod)
  have busy: "s_status (slot l (unat ?a mod unat (m_maxSocket l))) \<noteq> SocketStatus_Idle"
    and rec: "getNewSocket_loop n (l\<lparr>m_allocId := ?a\<rparr>) = (None, l')"
    using Suc.prems(1) nn h by (auto simp: Let_def split: if_splits)
  have s: "unat (?a + 1) = Suc (unat ?a)" by (rule unat_Suc_u32 [OF a])
  show ?case
  proof (cases k)
    case (Suc k')
    have "s_status (slot (l\<lparr>m_allocId := ?a\<rparr>) ((unat (m_allocId (l\<lparr>m_allocId := ?a\<rparr>) + 1) + k')
        mod unat (m_maxSocket (l\<lparr>m_allocId := ?a\<rparr>)))) \<noteq> SocketStatus_Idle"
      by (rule Suc.IH [OF rec]) (use Suc.prems s \<open>k = Suc k'\<close> in simp_all)
    then show ?thesis using s Suc by (simp add: slot_def)
  qed (use busy in simp)
qed simp

lemma residue_reached:
  fixes a m i :: nat
  assumes "i < m"
  shows "\<exists>k < m. (a + k) mod m = i"
proof -
  have "(a + (i + (m - a mod m)) mod m) mod m = (a mod m + (i + (m - a mod m))) mod m"
    by (simp add: mod_simps)
  also have "a mod m + (i + (m - a mod m)) = i + m" using mod_less_divisor [of m a] assms by linarith
  finally show ?thesis using assms by (intro exI [of _ "(i + (m - a mod m)) mod m"]) simp
qed

lemma getNewSocket_complete:
  assumes "loop_inv l" and "i < length (m_slot l)" and "s_status (slot l i) = SocketStatus_Idle"
    and "unat (m_allocId l + 1) + unat (m_maxSocket l) \<le> 2 ^ 31"
  shows "\<exists>j l'. getNewSocket l = (Some j, l') \<and> s_status (slot l j) = SocketStatus_Idle"
proof -
  have m: "length (m_slot l) = unat (m_maxSocket l)" "nat (sint (m_maxSocket l)) = unat (m_maxSocket l)"
    using assms(1) by (simp_all add: loop_inv_def sint_u32_nonneg)
  obtain k where k: "k < unat (m_maxSocket l)" "(unat (m_allocId l + 1) + k) mod unat (m_maxSocket l) = i"
    using residue_reached [of i "unat (m_maxSocket l)"] assms(2) m by auto
  obtain r l' where r: "getNewSocket l = (r, l')" by (cases "getNewSocket l")
  show ?thesis
  proof (cases r)
    case None
    then show ?thesis
      using getNewSocket_loop_none [of "unat (m_maxSocket l)" l l' k] r k m assms(3,4) by (simp add: getNewSocket_def)
  next
    case (Some j)
    then show ?thesis using getNewSocket_inv(4) [OF assms(1) r] r by blast
  qed
qed

end
