(* ===== verification/Socket_Alloc.thy ===== *)
theory Socket_Alloc
  imports Socket_Loop
begin

text \<open>
  \<open>SocketLoop::getNewSocket\<close> as several threads run it at once: \<open>connect\<close> and \<open>listen\<close> are called
  from any thread while the loop's own thread accepts. Each atomic access of the C++ is a step of
  \<open>alloc_step\<close>; \<open>Owned\<close> is the state of a thread that was given a slot, until the slot is closed.
  A thread's local \<open>i\<close> counts the slots it still may try.

  The result is that a slot has at most one owner, whatever the interleaving (\<open>slot_exclusive\<close>), and
  that a thread alone behaves as the sequential \<open>getNewSocket\<close> of the loop (\<open>alloc_solo\<close>).
\<close>

datatype alloc_pc =
    Fetch nat                 \<comment> \<open>about to \<open>__sync_add_and_fetch\<close>\<close>
  | Mask nat u32              \<comment> \<open>the new id was negative\<close>
  | Check nat u32             \<comment> \<open>about to read the slot's status\<close>
  | Swap nat u32              \<comment> \<open>saw an idle slot, about to compare and swap\<close>
  | Fill u32                  \<comment> \<open>won the slot, about to set its id and fd\<close>
  | Owned u32
  | NoSlot

record alloc_state =
  a_alloc :: u32
  a_slot :: "nat \<Rightarrow> Socket"
  a_pc :: "nat \<Rightarrow> alloc_pc"

definition a_hash :: "u32 \<Rightarrow> u32 \<Rightarrow> nat" where
  "a_hash mx n = unat (n mod mx)"

definition goto :: "nat \<Rightarrow> alloc_pc \<Rightarrow> alloc_state \<Rightarrow> alloc_state" where
  "goto t pc st = st\<lparr>a_pc := (a_pc st)(t := pc)\<rparr>"

definition a_update :: "nat \<Rightarrow> (Socket \<Rightarrow> Socket) \<Rightarrow> alloc_state \<Rightarrow> alloc_state" where
  "a_update j f st = st\<lparr>a_slot := (a_slot st)(j := f (a_slot st j))\<rparr>"

inductive alloc_step :: "u32 \<Rightarrow> alloc_state \<Rightarrow> alloc_state \<Rightarrow> bool" for mx where
  fetch: "a_pc st t = Fetch (Suc n) \<Longrightarrow> w = a_alloc st + 1 \<Longrightarrow>
     alloc_step mx st (goto t (if sint w < 0 then Mask n w else Check n w) (st\<lparr>a_alloc := w\<rparr>))"
| give_up: "a_pc st t = Fetch 0 \<Longrightarrow> alloc_step mx st (goto t NoSlot st)"
| mask_id: "a_pc st t = Mask n w \<Longrightarrow> w' = a_alloc st AND 0x7fffffff \<Longrightarrow>
     alloc_step mx st (goto t (Check n w') (st\<lparr>a_alloc := w'\<rparr>))"
| busy: "a_pc st t = Check n w \<Longrightarrow> s_status (a_slot st (a_hash mx w)) \<noteq> SocketStatus_Idle \<Longrightarrow>
     alloc_step mx st (goto t (Fetch n) st)"
| idle: "a_pc st t = Check n w \<Longrightarrow> s_status (a_slot st (a_hash mx w)) = SocketStatus_Idle \<Longrightarrow>
     alloc_step mx st (goto t (Swap n w) st)"
| win: "a_pc st t = Swap n w \<Longrightarrow> s_status (a_slot st (a_hash mx w)) = SocketStatus_Idle \<Longrightarrow>
     alloc_step mx st (goto t (Fill w) (a_update (a_hash mx w) (\<lambda>s. s\<lparr>s_status := SocketStatus_Reserse\<rparr>) st))"
| lose: "a_pc st t = Swap n w \<Longrightarrow> s_status (a_slot st (a_hash mx w)) \<noteq> SocketStatus_Idle \<Longrightarrow>
     alloc_step mx st (goto t (Fetch (Suc n)) st)"
| fill: "a_pc st t = Fill w \<Longrightarrow>
     alloc_step mx st (goto t (Owned w) (a_update (a_hash mx w) (\<lambda>s. s\<lparr>s_id := w mod mx, s_fd := -1\<rparr>) st))"
| use: "a_pc st t = Owned w \<Longrightarrow> s_status s' \<noteq> SocketStatus_Idle \<Longrightarrow>
     alloc_step mx st (a_update (a_hash mx w) (\<lambda>_. s') st)"
| release: "a_pc st t = Owned w \<Longrightarrow>
     alloc_step mx st (goto t (Fetch 0) (a_update (a_hash mx w) (\<lambda>s. s\<lparr>s_status := SocketStatus_Idle\<rparr>) st))"

inductive_cases alloc_stepE: "alloc_step mx st st'"

inductive alloc_reach :: "u32 \<Rightarrow> alloc_state \<Rightarrow> alloc_state \<Rightarrow> bool" for mx st0 where
  start: "alloc_reach mx st0 st0"
| step: "alloc_reach mx st0 st \<Longrightarrow> alloc_step mx st st' \<Longrightarrow> alloc_reach mx st0 st'"

section \<open>At most one owner\<close>

definition owns :: "u32 \<Rightarrow> alloc_state \<Rightarrow> nat \<Rightarrow> nat \<Rightarrow> bool" where
  "owns mx st t j \<longleftrightarrow> (\<exists>w. (a_pc st t = Fill w \<or> a_pc st t = Owned w) \<and> a_hash mx w = j)"

definition alloc_inv :: "u32 \<Rightarrow> alloc_state \<Rightarrow> bool" where
  "alloc_inv mx st \<longleftrightarrow>
     (\<forall>t j. owns mx st t j \<longrightarrow> s_status (a_slot st j) \<noteq> SocketStatus_Idle) \<and>
     (\<forall>t u j. owns mx st t j \<longrightarrow> owns mx st u j \<longrightarrow> t = u)"

lemma owns_goto:
  "owns mx (goto t pc st) u j \<longleftrightarrow>
     (if u = t then (\<exists>w. (pc = Fill w \<or> pc = Owned w) \<and> a_hash mx w = j) else owns mx st u j)"
  by (simp add: owns_def goto_def)

lemma owns_update [simp]: "owns mx (a_update i f st) = owns mx st" "owns mx (st\<lparr>a_alloc := w\<rparr>) = owns mx st"
  by (simp_all add: owns_def a_update_def fun_eq_iff)

lemma slot_simps [simp]:
  "a_slot (goto t pc st) = a_slot st" "a_slot (st\<lparr>a_alloc := w\<rparr>) = a_slot st"
  "a_slot (a_update i f st) = (a_slot st)(i := f (a_slot st i))"
  by (simp_all add: goto_def a_update_def)

lemma alloc_step_inv: "alloc_step mx st st' \<Longrightarrow> alloc_inv mx st \<Longrightarrow> alloc_inv mx st'"
proof (induction rule: alloc_step.induct)
  case (win st t n w)
  then have "\<not> owns mx st u (a_hash mx w)" for u by (auto simp: alloc_inv_def)
  with win show ?case by (auto simp: alloc_inv_def owns_goto)
next
  case (fill st t w)
  then have "owns mx st t (a_hash mx w)" by (auto simp: owns_def)
  with fill show ?case by (auto simp: alloc_inv_def owns_goto)
next
  case (release st t w)
  then have "owns mx st t (a_hash mx w)" by (auto simp: owns_def)
  with release show ?case by (auto simp: alloc_inv_def owns_goto)
qed (auto simp: alloc_inv_def owns_goto)

lemma alloc_reach_inv: "alloc_reach mx st0 st \<Longrightarrow> alloc_inv mx st0 \<Longrightarrow> alloc_inv mx st"
  by (induction rule: alloc_reach.induct) (auto intro: alloc_step_inv)

text \<open>In the beginning no thread owns anything.\<close>

definition alloc_start :: "alloc_state \<Rightarrow> bool" where
  "alloc_start st \<longleftrightarrow> (\<forall>t. \<exists>n. a_pc st t = Fetch n)"

lemma alloc_start_inv: "alloc_start st \<Longrightarrow> alloc_inv mx st"
  by (auto simp: alloc_start_def alloc_inv_def owns_def) (metis alloc_pc.distinct)+

lemma slot_exclusive:
  assumes "alloc_start st0" and "alloc_reach mx st0 st" and "a_pc st t = Owned w" and "a_pc st u = Owned w'"
    and "a_hash mx w = a_hash mx w'"
  shows "t = u"
proof -
  have "alloc_inv mx st" by (rule alloc_reach_inv [OF assms(2) alloc_start_inv [OF assms(1)]])
  moreover have "owns mx st t (a_hash mx w)" "owns mx st u (a_hash mx w)"
    using assms(3-5) by (auto simp: owns_def)
  ultimately show ?thesis by (auto simp: alloc_inv_def)
qed

section \<open>One thread alone\<close>

lemma alloc_reach_trans: "alloc_reach mx st1 st2 \<Longrightarrow> alloc_reach mx st0 st1 \<Longrightarrow> alloc_reach mx st0 st2"
  by (induction rule: alloc_reach.induct) (auto intro: alloc_reach.step)

lemma alloc_reach1: "alloc_step mx st st' \<Longrightarrow> alloc_reach mx st st'"
  by (rule alloc_reach.step [OF alloc_reach.start])

definition alloc_sim :: "'a SocketLoop \<Rightarrow> alloc_state \<Rightarrow> bool" where
  "alloc_sim l st \<longleftrightarrow> a_alloc st = m_allocId l \<and> (\<forall>i < length (m_slot l). a_slot st i = slot l i)"

lemma pc_simps [simp]:
  "a_pc (goto t pc st) t = pc" "a_pc (st\<lparr>a_alloc := w\<rparr>) = a_pc st" "a_pc (a_update i f st) = a_pc st"
  "a_alloc (goto t pc st) = a_alloc st" "a_alloc (a_update i f st) = a_alloc st"
  by (simp_all add: goto_def a_update_def)

lemma reach_check:
  assumes "a_pc st t = Fetch (Suc n)"
  defines "w \<equiv> (if sint (a_alloc st + 1) < 0 then (a_alloc st + 1) AND 0x7fffffff else a_alloc st + 1)"
  obtains st' where "alloc_reach mx st st'" "a_pc st' t = Check n w" "a_alloc st' = w" "a_slot st' = a_slot st"
proof (cases "sint (a_alloc st + 1) < 0")
  case True
  let ?st1 = "goto t (Mask n (a_alloc st + 1)) (st\<lparr>a_alloc := a_alloc st + 1\<rparr>)"
  have "alloc_step mx st ?st1" using alloc_step.fetch [OF assms(1) refl, of mx] True by simp
  moreover have "alloc_step mx ?st1 (goto t (Check n w) (?st1\<lparr>a_alloc := w\<rparr>))"
    by (rule alloc_step.mask_id) (simp_all add: w_def True)
  ultimately have "alloc_reach mx st (goto t (Check n w) (?st1\<lparr>a_alloc := w\<rparr>))"
    by (blast intro: alloc_reach.intros)
  then show thesis by (rule that) simp_all
next
  case False
  then have "alloc_step mx st (goto t (Check n w) (st\<lparr>a_alloc := w\<rparr>))"
    using alloc_step.fetch [OF assms(1) refl, of mx] by (simp add: w_def)
  from alloc_reach1 [OF this] show thesis by (rule that) simp_all
qed

lemma alloc_solo:
  assumes "getNewSocket_loop n l = (r, l')" and "a_pc st t = Fetch n" and "alloc_sim l st"
    and "length (m_slot l) = unat (m_maxSocket l)" and "m_maxSocket l \<noteq> 0"
  shows "\<exists>st'. alloc_reach (m_maxSocket l) st st' \<and> alloc_sim l' st' \<and>
    (case r of None \<Rightarrow> a_pc st' t = NoSlot | Some j \<Rightarrow> \<exists>w. a_pc st' t = Owned w \<and> a_hash (m_maxSocket l) w = j)"
  using assms
proof (induction n arbitrary: l st)
  case 0
  have "alloc_step (m_maxSocket l) st (goto t NoSlot st)" by (rule alloc_step.give_up [OF "0.prems"(2)])
  then show ?case using "0.prems" by (intro exI [of _ "goto t NoSlot st"]) (auto simp: alloc_sim_def alloc_reach1)
next
  case (Suc n)
  let ?mx = "m_maxSocket l"
  define w where "w = (if sint (m_allocId l + 1) < 0 then (m_allocId l + 1) AND 0x7fffffff else m_allocId l + 1)"
  define i where "i = unat (hash_id l w)"
  have i: "a_hash ?mx w = i" "i < length (m_slot l)"
    using Suc.prems(4,5) by (simp_all add: i_def a_hash_def hash_id_def unat_mod unat_gt_0)
  note eq = getNewSocket_loop.simps(2) [of n l, unfolded Let_def, folded w_def, folded i_def]
  have al: "a_alloc st = m_allocId l" using Suc.prems(3) by (simp add: alloc_sim_def)
  obtain st1 where c: "alloc_reach ?mx st st1" "a_pc st1 t = Check n w" "a_alloc st1 = w" "a_slot st1 = a_slot st"
    using reach_check [OF Suc.prems(2)] unfolding al w_def [symmetric] by metis
  have s: "a_slot st1 i = slot l i" using Suc.prems(3) i(2) c(4) by (simp add: alloc_sim_def)
  show ?case
  proof (cases "s_status (slot l i) = SocketStatus_Idle")
    case True
    let ?st2 = "goto t (Swap n w) st1"
    let ?st3 = "goto t (Fill w) (a_update i (\<lambda>s. s\<lparr>s_status := SocketStatus_Reserse\<rparr>) ?st2)"
    let ?st4 = "goto t (Owned w) (a_update i (\<lambda>s. s\<lparr>s_id := w mod ?mx, s_fd := -1\<rparr>) ?st3)"
    have "alloc_step ?mx st1 ?st2" using alloc_step.idle [OF c(2), of ?mx] True s i(1) by simp
    moreover have "alloc_step ?mx ?st2 ?st3" using alloc_step.win [of ?st2 t n w ?mx] True s i(1) by simp
    moreover have "alloc_step ?mx ?st3 ?st4" using alloc_step.fill [of ?st3 t w ?mx] i(1) by simp
    ultimately have "alloc_reach ?mx st ?st4" using c(1) by (blast intro: alloc_reach.step)
    then show ?thesis
      using True Suc.prems(1,3) i c(3,4)
      by (intro exI [of _ ?st4])
        (auto simp: eq alloc_sim_def hash_id_def simp del: getNewSocket_loop.simps(2))
  next
    case False
    let ?st2 = "goto t (Fetch n) st1"
    have "alloc_step ?mx st1 ?st2" using alloc_step.busy [OF c(2), of ?mx] False s i(1) by simp
    then have r2: "alloc_reach ?mx st ?st2" using c(1) by (rule alloc_reach.step [rotated])
    have "\<exists>st'. alloc_reach (m_maxSocket (l\<lparr>m_allocId := w\<rparr>)) ?st2 st' \<and> alloc_sim l' st' \<and>
        (case r of None \<Rightarrow> a_pc st' t = NoSlot
         | Some j \<Rightarrow> \<exists>v. a_pc st' t = Owned v \<and> a_hash (m_maxSocket (l\<lparr>m_allocId := w\<rparr>)) v = j)"
      by (rule Suc.IH) (use False Suc.prems c in
          \<open>simp_all add: eq alloc_sim_def slot_def del: getNewSocket_loop.simps(2)\<close>)
    then show ?thesis using alloc_reach_trans [OF _ r2] by (cases r) auto
  qed
qed

end
