(* ===== verification/Util_Mysql.thy ===== *)
theory Util_Mysql
  imports Util_String
begin

text \<open>
  \<open>source/util/util_mysql.cpp\<close> and \<open>util_sqljoin.h\<close>: the SQL connection. libmysqlclient and the server
  are the record \<open>mysql\<close>, an argument of the definitions: opening a connection, running a
  statement, fetching the stored result, escaping a string. A method that may throw is a function of
  the connection to a sum and the new connection (\<open>est_bind\<close> sequences them).

  The lemmas give the statement texts in closed form, show that no method runs a statement when the
  connection cannot be opened, and that the string literals of a statement are read back as the
  values they were made from, under the documented behaviour of the escape function
  (\<open>escapes_ok\<close>); so a value cannot end its literal.
\<close>

section \<open>Methods that may throw\<close>

type_synonym ('s, 'a) est = "'s \<Rightarrow> (string + 'a) \<times> 's"

definition est_return :: "'a \<Rightarrow> ('s, 'a) est" where
  "est_return a s = (Inr a, s)"

definition est_bind :: "('s, 'a) est \<Rightarrow> ('a \<Rightarrow> ('s, 'b) est) \<Rightarrow> ('s, 'b) est" where
  "est_bind m f s = (case m s of (Inl e, s') \<Rightarrow> (Inl e, s') | (Inr a, s') \<Rightarrow> f a s')"

lemma est_bind_Inr: "m s = (Inr a, s') \<Longrightarrow> est_bind m f s = f a s'"
  by (simp add: est_bind_def)

lemma est_bind_Inl: "m s = (Inl e, s') \<Longrightarrow> est_bind m f s = (Inl e, s')"
  by (simp add: est_bind_def)

section \<open>Pairs\<close>

datatype DB_TYPE = DB_INT | DB_STR

record SqlPair =
  p_type :: DB_TYPE
  p_key :: string
  p_value :: string

definition SqlPair_int :: "string \<Rightarrow> u32 \<Rightarrow> SqlPair" where
  "SqlPair_int key v = \<lparr>p_type = DB_INT, p_key = ''`'' @ key @ ''`'', p_value = tostr_u32 v\<rparr>"

definition SqlPair_key :: "string \<Rightarrow> SqlPair" where
  "SqlPair_key key = \<lparr>p_type = DB_INT, p_key = ''`'' @ key @ ''`'', p_value = []\<rparr>"

definition SqlPair_str :: "string \<Rightarrow> string \<Rightarrow> SqlPair" where
  "SqlPair_str key v = \<lparr>p_type = DB_STR, p_key = ''`'' @ key @ ''`'', p_value = v\<rparr>"

type_synonym SqlJoin = "SqlPair list"

definition addPair :: "SqlPair \<Rightarrow> SqlJoin \<Rightarrow> SqlJoin" where
  "addPair p m_pairs = m_pairs @ [p]"

section \<open>Connection and results\<close>

record DBConfig =
  db_host :: string
  db_user :: string
  db_passwd :: string
  db_dbname :: string
  db_charset :: string
  db_port :: u32

definition new_DBConfig :: DBConfig where
  "new_DBConfig =
     \<lparr>db_host = [], db_user = [], db_passwd = [], db_dbname = [], db_charset = ''utf8'', db_port = 3306\<rparr>"

text \<open>A stored result: field names and rows, a missing value being SQL's NULL.\<close>

type_synonym result_set = "string list \<times> string option list list"

record 'db mysql =
  my_init :: "'db \<Rightarrow> bool"
  my_open :: "DBConfig \<Rightarrow> 'db \<Rightarrow> (string + unit) \<times> 'db"
  my_query :: "string \<Rightarrow> 'db \<Rightarrow> (string + unit) \<times> 'db"
  my_store :: "'db \<Rightarrow> string + result_set option"
  my_affected :: "'db \<Rightarrow> nat"
  my_escape :: "string \<Rightarrow> string"

record 'db MySqlConn =
  c_config :: DBConfig
  c_handle :: bool
  m_bConnected :: bool
  c_server :: 'db

definition new_MySqlConn :: "DBConfig \<Rightarrow> 'db \<Rightarrow> 'db MySqlConn" where
  "new_MySqlConn config db = \<lparr>c_config = config, c_handle = False, m_bConnected = False, c_server = db\<rparr>"

definition disconnect :: "'db MySqlConn \<Rightarrow> 'db MySqlConn" where
  "disconnect c = (if c_handle c then c\<lparr>c_handle := False, m_bConnected := False\<rparr> else c)"

definition setConfig :: "DBConfig \<Rightarrow> 'db MySqlConn \<Rightarrow> 'db MySqlConn" where
  "setConfig config c = (disconnect c)\<lparr>c_config := config\<rparr>"

text \<open>\<open>my_open\<close> stands for the options, the connection and the character set, any of which throws.\<close>

definition connect :: "'db mysql \<Rightarrow> ('db MySqlConn, unit) est" where
  "connect M c =
     (let c1 = disconnect c in
      if \<not> my_init M (c_server c1) then (Inl ''mysql_init: '', c1)
      else case my_open M (c_config c1) (c_server c1) of
        (Inl e, db) \<Rightarrow> (Inl e, c1\<lparr>c_handle := True, c_server := db\<rparr>)
      | (Inr _, db) \<Rightarrow> (Inr (), c1\<lparr>c_handle := True, c_server := db, m_bConnected := True\<rparr>))"

definition ensure :: "'db mysql \<Rightarrow> ('db MySqlConn, unit) est" where
  "ensure M c = (if \<not> m_bConnected c then connect M c else (Inr (), c))"

definition execute :: "'db mysql \<Rightarrow> string \<Rightarrow> ('db MySqlConn, unit) est" where
  "execute M sql = est_bind (ensure M) (\<lambda>_ c.
     case my_query M sql (c_server c) of
       (Inl e, db) \<Rightarrow> (Inl (''mysql_real_query: '' @ e), c\<lparr>c_server := db\<rparr>)
     | (Inr _, db) \<Rightarrow> (Inr (), c\<lparr>c_server := db\<rparr>))"

record MySqlResult =
  m_rows :: "string option list list"
  m_iRows :: nat
  m_iFields :: nat
  m_mField2Index :: "(string, nat) std_map"

text \<open>\<open>insert\<close> into the map keeps the first index of a repeated field name.\<close>

fun field_index :: "nat \<Rightarrow> string list \<Rightarrow> (string, nat) std_map \<Rightarrow> (string, nat) std_map" where
  "field_index i [] m = m"
| "field_index i (f # fs) m = field_index (Suc i) fs (if sm_find m f = None then sm_set f i m else m)"

definition new_MySqlResult :: "result_set option \<Rightarrow> MySqlResult" where
  "new_MySqlResult res =
     (case res of
        None \<Rightarrow> \<lparr>m_rows = [], m_iRows = 0, m_iFields = 0, m_mField2Index = []\<rparr>
      | Some (fs, rows) \<Rightarrow>
          \<lparr>m_rows = rows, m_iRows = length rows, m_iFields = length fs, m_mField2Index = field_index 0 fs []\<rparr>)"

definition res_get :: "MySqlResult \<Rightarrow> nat \<Rightarrow> nat \<Rightarrow> string" where
  "res_get r iRow iField =
     (if iRow \<ge> m_iRows r \<or> iField \<ge> m_iFields r then []
      else case (m_rows r ! iRow) ! iField of None \<Rightarrow> [] | Some v \<Rightarrow> v)"

definition res_get_name :: "MySqlResult \<Rightarrow> nat \<Rightarrow> string \<Rightarrow> string" where
  "res_get_name r iRow sFieldName =
     (case sm_find (m_mField2Index r) sFieldName of None \<Rightarrow> [] | Some i \<Rightarrow> res_get r iRow i)"

definition res_get_u32 :: "MySqlResult \<Rightarrow> nat \<Rightarrow> string \<Rightarrow> u32" where
  "res_get_u32 r iRow sFieldName = strto_u32 (res_get_name r iRow sFieldName)"

definition query :: "'db mysql \<Rightarrow> string \<Rightarrow> ('db MySqlConn, MySqlResult) est" where
  "query M sql = est_bind (execute M sql) (\<lambda>_ c.
     case my_store M (c_server c) of
       Inl e \<Rightarrow> (Inl (''mysql_store_result: '' @ e @ '', '' @ sql), c)
     | Inr res \<Rightarrow> (Inr (new_MySqlResult res), c))"

text \<open>The result is cut at the first NUL.\<close>

definition escape :: "'db mysql \<Rightarrow> string \<Rightarrow> ('db MySqlConn, string) est" where
  "escape M s = est_bind (ensure M) (\<lambda>_. est_return (takeWhile (\<lambda>c. c \<noteq> CHR 0x00) (my_escape M s)))"

definition getAffectedRows :: "'db mysql \<Rightarrow> 'db MySqlConn \<Rightarrow> nat" where
  "getAffectedRows M c = (if c_handle c then my_affected M (c_server c) else 0)"

section \<open>Statements\<close>

definition quote :: string where
  "quote = [CHR 0x27]"

definition sql_value :: "'db mysql \<Rightarrow> SqlPair \<Rightarrow> ('db MySqlConn, string) est" where
  "sql_value M p =
     (if p_type p = DB_INT then est_return (p_value p)
      else est_bind (escape M (p_value p)) (\<lambda>v. est_return (quote @ v @ quote)))"

text \<open>The loops that write \<open>key=value\<close> items, keys and values; \<open>first\<close> is the test \<open>i == 0\<close>.\<close>

fun sql_assigns ::
  "'db mysql \<Rightarrow> string \<Rightarrow> bool \<Rightarrow> SqlPair list \<Rightarrow> string \<Rightarrow> ('db MySqlConn, string) est" where
  "sql_assigns M sep first [] m_oss = est_return m_oss"
| "sql_assigns M sep first (p # ps) m_oss =
     est_bind (sql_value M p) (\<lambda>v.
       sql_assigns M sep False ps (m_oss @ (if first then [] else sep) @ p_key p @ ''='' @ v))"

fun sql_keys :: "bool \<Rightarrow> SqlPair list \<Rightarrow> string \<Rightarrow> string" where
  "sql_keys first [] m_oss = m_oss"
| "sql_keys first (p # ps) m_oss = sql_keys False ps (m_oss @ (if first then [] else '','') @ p_key p)"

fun sql_values :: "'db mysql \<Rightarrow> bool \<Rightarrow> SqlPair list \<Rightarrow> string \<Rightarrow> ('db MySqlConn, string) est" where
  "sql_values M first [] m_oss = est_return m_oss"
| "sql_values M first (p # ps) m_oss =
     est_bind (sql_value M p) (\<lambda>v. sql_values M False ps (m_oss @ (if first then [] else '','') @ v))"

definition sql_where :: "'db mysql \<Rightarrow> SqlJoin \<Rightarrow> string \<Rightarrow> ('db MySqlConn, string) est" where
  "sql_where M cond m_oss =
     (if cond = [] then est_return m_oss else sql_assigns M '' and '' True cond (m_oss @ '' where ''))"

definition sql_select :: "'db mysql \<Rightarrow> string \<Rightarrow> string \<Rightarrow> SqlJoin \<Rightarrow> ('db MySqlConn, MySqlResult) est" where
  "sql_select M tableName columns cond =
     est_bind (sql_where M cond (''select '' @ columns @ '' from '' @ tableName)) (query M)"

definition sql_select_cols :: "'db mysql \<Rightarrow> string \<Rightarrow> SqlJoin \<Rightarrow> SqlJoin \<Rightarrow> ('db MySqlConn, MySqlResult) est" where
  "sql_select_cols M tableName columns cond =
     est_bind (sql_where M cond (sql_keys True columns ''select '' @ '' from '' @ tableName)) (query M)"

definition run_counted :: "'db mysql \<Rightarrow> string \<Rightarrow> ('db MySqlConn, nat) est" where
  "run_counted M sql = est_bind (execute M sql) (\<lambda>_ c. (Inr (getAffectedRows M c), c))"

definition sql_update_text :: "'db mysql \<Rightarrow> string \<Rightarrow> SqlJoin \<Rightarrow> string \<Rightarrow> ('db MySqlConn, nat) est" where
  "sql_update_text M tableName columns condition =
     est_bind (sql_assigns M '','' True columns (''update '' @ tableName @ '' set '')) (\<lambda>sql.
       run_counted M (sql @ '' '' @ condition))"

definition sql_update :: "'db mysql \<Rightarrow> string \<Rightarrow> SqlJoin \<Rightarrow> SqlJoin \<Rightarrow> ('db MySqlConn, nat) est" where
  "sql_update M tableName columns cond =
     est_bind (sql_assigns M '','' True columns (''update '' @ tableName @ '' set '')) (\<lambda>sql.
       est_bind (sql_assigns M '' and '' True cond (sql @ '' where '')) (run_counted M))"

definition sql_insert :: "'db mysql \<Rightarrow> string \<Rightarrow> SqlJoin \<Rightarrow> ('db MySqlConn, nat) est" where
  "sql_insert M tableName columns =
     est_bind (sql_values M True columns
        (sql_keys True columns (''insert into '' @ tableName @ ''('') @ '') values('')) (\<lambda>sql.
       run_counted M (sql @ '')''))"

definition sql_replace :: "'db mysql \<Rightarrow> string \<Rightarrow> SqlJoin \<Rightarrow> ('db MySqlConn, nat) est" where
  "sql_replace M tableName columns =
     est_bind (sql_values M True columns
        (sql_keys True columns (''replace into '' @ tableName @ ''('') @ '') values('')) (\<lambda>sql.
       run_counted M (sql @ '')''))"

definition deleteFrom_text :: "'db mysql \<Rightarrow> string \<Rightarrow> string \<Rightarrow> ('db MySqlConn, nat) est" where
  "deleteFrom_text M tableName condition = run_counted M (''delete from '' @ tableName @ '' '' @ condition)"

definition deleteFrom :: "'db mysql \<Rightarrow> string \<Rightarrow> SqlJoin \<Rightarrow> ('db MySqlConn, nat) est" where
  "deleteFrom M tableName cond =
     est_bind (sql_assigns M '' and '' True cond (''delete from '' @ tableName @ '' where '')) (run_counted M)"

section \<open>The text of a statement\<close>

text \<open>On an open connection nothing is thrown while a statement is written.\<close>

definition literal :: "'db mysql \<Rightarrow> SqlPair \<Rightarrow> string" where
  "literal M p =
     (if p_type p = DB_INT then p_value p
      else quote @ takeWhile (\<lambda>c. c \<noteq> CHR 0x00) (my_escape M (p_value p)) @ quote)"

definition assign :: "'db mysql \<Rightarrow> SqlPair \<Rightarrow> string" where
  "assign M p = p_key p @ ''='' @ literal M p"

fun sep_concat :: "string \<Rightarrow> string list \<Rightarrow> string" where
  "sep_concat sep [] = []"
| "sep_concat sep [x] = x"
| "sep_concat sep (x # xs) = x @ sep @ sep_concat sep xs"

lemma sep_concat_Cons: "sep_concat sep (x # xs) = x @ concat (map (\<lambda>y. sep @ y) xs)"
  by (induction xs arbitrary: x) simp_all

lemma sql_value_connected: "m_bConnected c \<Longrightarrow> sql_value M p c = (Inr (literal M p), c)"
  by (simp add: sql_value_def literal_def est_bind_def est_return_def escape_def ensure_def)

lemma sql_assigns_connected:
  "m_bConnected c \<Longrightarrow> sql_assigns M sep first ps t c =
     (Inr (t @ (if first then sep_concat sep (map (assign M) ps) else concat (map (\<lambda>p. sep @ assign M p) ps))), c)"
proof (induction ps arbitrary: first t)
  case (Cons p ps)
  then show ?case
    by (simp add: est_bind_def sql_value_connected sep_concat_Cons assign_def comp_def del: sep_concat.simps)
qed (simp add: est_return_def)

lemma sql_values_connected:
  "m_bConnected c \<Longrightarrow> sql_values M first ps t c =
     (Inr (t @ (if first then sep_concat '','' (map (literal M) ps) else concat (map (\<lambda>p. '','' @ literal M p) ps))), c)"
proof (induction ps arbitrary: first t)
  case (Cons p ps)
  then show ?case
    by (simp add: est_bind_def sql_value_connected sep_concat_Cons comp_def del: sep_concat.simps)
qed (simp add: est_return_def)

lemma sql_keys_eq:
  "sql_keys first ps t = t @ (if first then sep_concat '','' (map p_key ps) else concat (map (\<lambda>p. '','' @ p_key p) ps))"
proof (induction ps arbitrary: first t)
  case (Cons p ps)
  then show ?case by (simp add: sep_concat_Cons comp_def del: sep_concat.simps)
qed simp

definition insert_text :: "'db mysql \<Rightarrow> string \<Rightarrow> SqlJoin \<Rightarrow> string" where
  "insert_text M tableName columns =
     ''insert into '' @ tableName @ ''('' @ sep_concat '','' (map p_key columns) @ '') values('' @
     sep_concat '','' (map (literal M) columns) @ '')''"

definition update_text :: "'db mysql \<Rightarrow> string \<Rightarrow> SqlJoin \<Rightarrow> SqlJoin \<Rightarrow> string" where
  "update_text M tableName columns cond =
     ''update '' @ tableName @ '' set '' @ sep_concat '','' (map (assign M) columns) @ '' where '' @
     sep_concat '' and '' (map (assign M) cond)"

lemma sql_insert_text: "m_bConnected c \<Longrightarrow> sql_insert M t ps c = run_counted M (insert_text M t ps) c"
  by (simp add: sql_insert_def est_bind_Inr [OF sql_values_connected] sql_keys_eq insert_text_def)

lemma sql_update_text_eq: "m_bConnected c \<Longrightarrow> sql_update M t ps cond c = run_counted M (update_text M t ps cond) c"
  by (simp add: sql_update_def est_bind_Inr [OF sql_assigns_connected] update_text_def)

section \<open>No statement without a connection\<close>

lemma connect_fails:
  assumes "\<not> m_bConnected c" and "my_init M (c_server c)" and "my_open M (c_config c) (c_server c) = (Inl e, db)"
  shows "ensure M c = (Inl e, c\<lparr>c_handle := True, m_bConnected := False, c_server := db\<rparr>)"
  using assms by (auto simp: ensure_def connect_def disconnect_def Let_def)

lemma execute_fails:
  "ensure M c = (Inl e, c') \<Longrightarrow> execute M sql c = (Inl e, c')"
  by (simp add: execute_def est_bind_Inl)

lemma run_counted_fails:
  "ensure M c = (Inl e, c') \<Longrightarrow> run_counted M sql c = (Inl e, c')"
  by (simp add: run_counted_def est_bind_Inl execute_fails)

section \<open>Literals are read back\<close>

text \<open>How a server reads a quoted literal: a backslash takes the next character, a quote ends it. The
  escape function's documented behaviour is that the literal made of its result is read as the
  original, whatever follows.\<close>

definition unescape_char :: "char \<Rightarrow> char" where
  "unescape_char c =
     (if c = CHR ''0'' then CHR 0x00 else if c = CHR ''n'' then CHR 0x0A else if c = CHR ''r'' then CHR 0x0D
      else if c = CHR ''Z'' then CHR 0x1A else c)"

fun read_literal :: "string \<Rightarrow> (string \<times> string) option" where
  "read_literal [] = None"
| "read_literal (c # s) =
     (if c = CHR 0x27 then Some ([], s)
      else if c = CHR 0x5C then
        (case s of [] \<Rightarrow> None | d # s' \<Rightarrow> map_option (\<lambda>(v, r). (unescape_char d # v, r)) (read_literal s'))
      else map_option (\<lambda>(v, r). (c # v, r)) (read_literal s))"

definition escapes_ok :: "'db mysql \<Rightarrow> bool" where
  "escapes_ok M \<longleftrightarrow> (\<forall>s rest. read_literal (my_escape M s @ quote @ rest) = Some (s, rest) \<and> CHR 0x00 \<notin> set (my_escape M s))"

text \<open>Reading the values of an insert statement back.\<close>

fun read_value :: "DB_TYPE \<Rightarrow> string \<Rightarrow> (string \<times> string) option" where
  "read_value DB_INT s = Some (takeWhile isdigit_c s, dropWhile isdigit_c s)"
| "read_value DB_STR (c # s) = (if c = CHR 0x27 then read_literal s else None)"
| "read_value DB_STR [] = None"

fun read_values :: "DB_TYPE list \<Rightarrow> string \<Rightarrow> (string list \<times> string) option" where
  "read_values [] s = Some ([], s)"
| "read_values (t # ts) s =
     (case read_value t s of
        None \<Rightarrow> None
      | Some (v, c # r) \<Rightarrow> map_option (\<lambda>(vs, r'). (v # vs, r')) (if c = CHR '','' \<or> ts = [] then read_values ts r else None)
      | Some (v, []) \<Rightarrow> None)"

definition pair_ok :: "SqlPair \<Rightarrow> bool" where
  "pair_ok p \<longleftrightarrow> (p_type p = DB_INT \<longrightarrow> (\<forall>c \<in> set (p_value p). isdigit_c c))"

lemma read_item:
  assumes "escapes_ok M" and "pair_ok p" and "\<not> isdigit_c d"
  shows "read_value (p_type p) (literal M p @ d # r) = Some (p_value p, d # r)"
proof (cases "p_type p")
  case DB_INT
  then show ?thesis using assms(2,3) by (simp add: literal_def pair_ok_def)
next
  case DB_STR
  have "takeWhile (\<lambda>c. c \<noteq> CHR 0x00) (my_escape M (p_value p)) = my_escape M (p_value p)"
    using assms(1) by (auto simp: escapes_ok_def takeWhile_eq_all_conv)
  moreover have "read_literal (my_escape M (p_value p) @ quote @ d # r) = Some (p_value p, d # r)"
    using assms(1) unfolding escapes_ok_def by blast
  ultimately show ?thesis using DB_STR by (simp add: literal_def quote_def takeWhile_eq_all_conv [THEN iffD2])
qed

lemma read_values_back:
  assumes "escapes_ok M" and "list_all pair_ok ps" and "ps \<noteq> []"
  shows "read_values (map p_type ps) (sep_concat '','' (map (literal M) ps) @ '')'' @ rest) = Some (map p_value ps, rest)"
  using assms(2,3)
proof (induction ps)
  case (Cons p ps)
  have nd: "\<not> isdigit_c CHR '',''" "\<not> isdigit_c CHR '')''" by (simp_all add: isdigit_c_def)
  show ?case
  proof (cases ps)
    case Nil
    then show ?thesis using read_item [OF assms(1) _ nd(2), of p rest] Cons.prems by simp
  next
    case (Cons p' ps')
    then have "read_values (map p_type ps) (sep_concat '','' (map (literal M) ps) @ '')'' @ rest) = Some (map p_value ps, rest)"
      using Cons.IH Cons.prems by simp
    then show ?thesis
      using read_item [OF assms(1) _ nd(1), of p "sep_concat '','' (map (literal M) ps) @ '')'' @ rest"] Cons.prems Cons
      by simp
  qed
qed simp

section \<open>The object's life, and printing a result\<close>

definition MySqlConn_of ::
  "string \<Rightarrow> string \<Rightarrow> string \<Rightarrow> string \<Rightarrow> string \<Rightarrow> u32 \<Rightarrow> 'db \<Rightarrow> 'db MySqlConn" where
  "MySqlConn_of host user passwd db charset port server =
     new_MySqlConn \<lparr>db_host = host, db_user = user, db_passwd = passwd, db_dbname = db, db_charset = charset, db_port = port\<rparr> server"

definition destroy_MySqlConn :: "'db MySqlConn \<Rightarrow> 'db MySqlConn" where
  "destroy_MySqlConn c = disconnect c"

lemma destroy_releases: "\<not> c_handle (destroy_MySqlConn c)"
  by (simp add: destroy_MySqlConn_def disconnect_def)

text \<open>\<open>insert_id\<close> is \<open>mysql_insert_id\<close> of the connection.\<close>

definition getInsertId :: "('db \<Rightarrow> u64) \<Rightarrow> 'db MySqlConn \<Rightarrow> u64" where
  "getInsertId insert_id c = (if c_handle c then insert_id (c_server c) else 0)"

text \<open>One line: the items from the \<open>i\<close>-th on, each but the first after a tab. \<open>%s\<close> stops at a NUL byte.\<close>

definition c_text :: "string \<Rightarrow> string" where
  "c_text s = takeWhile (\<lambda>c. c \<noteq> CHR 0x00) s"

fun print_items :: "nat \<Rightarrow> string list \<Rightarrow> string" where
  "print_items i [] = [CHR 0x0A]"
| "print_items i (x # xs) = (if i > 0 then [CHR 0x09] else []) @ c_text x @ print_items (Suc i) xs"

definition printResult :: "result_set \<Rightarrow> string" where
  "printResult result =
     (case result of (fs, rows) \<Rightarrow>
        print_items 0 fs @
        concat (map (\<lambda>row. print_items 0 (map (\<lambda>v. case v of None \<Rightarrow> ''NULL'' | Some s \<Rightarrow> s) row)) rows))"

lemma print_items_sep: "print_items 0 xs = sep_concat [CHR 0x09] (map c_text xs) @ [CHR 0x0A]"
proof -
  have "print_items (Suc i) ys = concat (map (\<lambda>y. [CHR 0x09] @ c_text y) ys) @ [CHR 0x0A]" for i ys
    by (induction ys arbitrary: i) auto
  moreover have "sep_concat sep (y # ys) = y @ concat (map (\<lambda>y. sep @ y) ys)" for sep y and ys :: "string list"
    by (induction ys arbitrary: y) auto
  ultimately show ?thesis by (cases xs) (simp_all add: comp_def)
qed

end
