(* ===== verification/Registry_Manager.thy ===== *)
theory Registry_Manager
  imports Util_Mysql
begin

text \<open>
  \<open>source/storm_servers/storm_registry/ServiceManager.cpp\<close>: the registry's table of services, kept
  in memory and in a database. The database is the connection of \<open>Util_Mysql\<close>; the clock readings
  are arguments, and the conversions of \<open>UtilTime\<close> between times and text, which depend on the
  time zone, are fields of \<open>reg_env\<close>.

  The lemmas say what a query returns after a heart beat, that other keys are untouched, which rows
  are active after a reload, and what is written to the database; two of them show defects: a new
  service that sends a second heart beat before the next reload is listed twice, and different
  services can share a key.
\<close>

record EndPoint =
  appName :: string
  serverName :: string
  serviceName :: string
  setName :: string
  ep_ip :: string
  ep_port :: u32
  heartBeatTime :: u32
  active :: bool

text \<open>The fields of the protobuf message \<open>ServiceInfo\<close>.\<close>

record ServiceInfo =
  app_name :: string
  server_name :: string
  service_name :: string
  set_name :: string
  info_ip :: string
  info_port :: u32

record RegistryConfig =
  dbConfig :: DBConfig
  reloadInterval :: u32
  activeInterval :: u32
  updateInterval :: u32

record 'db reg_env =
  re_mysql :: "'db mysql"
  re_config :: RegistryConfig
  parseTime :: "string \<Rightarrow> u32"
  formatTime :: "u32 \<Rightarrow> string"

record 'db ServiceManager =
  m_services :: "(string, EndPoint list) std_map"
  m_newServices :: "EndPoint list"
  m_updateServices :: "EndPoint list"
  m_allService :: "string set"
  m_updateSec :: u32
  m_reloadSec :: u32
  m_mysql :: "'db MySqlConn"
  m_tblName :: string

definition getKey :: "string \<Rightarrow> string \<Rightarrow> string \<Rightarrow> string \<Rightarrow> string" where
  "getKey app server service st = app @ server @ service @ st"

definition ipPort :: "string \<Rightarrow> u32 \<Rightarrow> string" where
  "ipPort ip port = ip @ ''-'' @ tostr_u32 port"

text \<open>\<open>services[key]\<close>, created empty when missing.\<close>

definition at_key :: "string \<Rightarrow> (string, EndPoint list) std_map \<Rightarrow> EndPoint list" where
  "at_key key m = (case sm_find m key of None \<Rightarrow> [] | Some v \<Rightarrow> v)"

section \<open>Loading\<close>

definition load_row :: "'db reg_env \<Rightarrow> u32 \<Rightarrow> MySqlResult \<Rightarrow> nat \<Rightarrow> EndPoint" where
  "load_row E now res i =
     (let hb = parseTime E (res_get_name res i ''heart_beat_time'') in
      \<lparr>appName = res_get_name res i ''app_name'', serverName = res_get_name res i ''server_name'',
       serviceName = res_get_name res i ''service_name'', setName = res_get_name res i ''set_name'',
       ep_ip = res_get_name res i ''ip'', ep_port = res_get_u32 res i ''port'', heartBeatTime = hb,
       active = (\<not> now > hb + activeInterval (re_config E))\<rparr>)"

definition ep_key :: "EndPoint \<Rightarrow> string" where
  "ep_key ep = getKey (appName ep) (serverName ep) (serviceName ep) (setName ep)"

definition load_step ::
  "EndPoint \<Rightarrow> (string, EndPoint list) std_map \<times> string set \<Rightarrow> (string, EndPoint list) std_map \<times> string set" where
  "load_step ep r =
     (case r of (services, allServiceStr) \<Rightarrow>
        (sm_set (ep_key ep) (at_key (ep_key ep) services @ [ep]) services,
         insert (ipPort (ep_ip ep) (ep_port ep)) allServiceStr))"

definition loadFromDB :: "'db reg_env \<Rightarrow> u32 \<Rightarrow> 'db ServiceManager \<Rightarrow> 'db ServiceManager" where
  "loadFromDB E now sm =
     (let sm0 = sm\<lparr>m_reloadSec := now, m_updateSec := now\<rparr> in
      case sql_select (re_mysql E) (m_tblName sm) ''*'' [] (m_mysql sm) of
        (Inl e, c) \<Rightarrow> sm0\<lparr>m_mysql := c\<rparr>
      | (Inr res, c) \<Rightarrow>
          if m_iRows res = 0 then sm0\<lparr>m_mysql := c\<rparr>
          else (case fold load_step (map (load_row E now res) [0..<m_iRows res]) ([], {}) of
                  (services, allServiceStr) \<Rightarrow>
                    sm0\<lparr>m_mysql := c, m_services := services, m_allService := allServiceStr\<rparr>))"

definition sm_init :: "'db reg_env \<Rightarrow> u32 \<Rightarrow> 'db ServiceManager \<Rightarrow> 'db ServiceManager" where
  "sm_init E now sm =
     loadFromDB E now (sm\<lparr>m_mysql := setConfig (dbConfig (re_config E)) (m_mysql sm), m_tblName := ''t_storm''\<rparr>)"

section \<open>Writing back\<close>

definition addUpdateService :: "EndPoint \<Rightarrow> 'db ServiceManager \<Rightarrow> 'db ServiceManager" where
  "addUpdateService ep sm = sm\<lparr>m_updateServices := m_updateServices sm @ [ep]\<rparr>"

definition addNewService :: "EndPoint \<Rightarrow> 'db ServiceManager \<Rightarrow> 'db ServiceManager" where
  "addNewService ep sm = sm\<lparr>m_newServices := m_newServices sm @ [ep]\<rparr>"

fun update_rows :: "'db reg_env \<Rightarrow> string \<Rightarrow> EndPoint list \<Rightarrow> ('db MySqlConn, unit) est" where
  "update_rows E tbl [] = est_return ()"
| "update_rows E tbl (ep # eps) =
     est_bind (sql_update (re_mysql E) tbl
         (addPair (SqlPair_str ''heart_beat_time'' (formatTime E (heartBeatTime ep))) [])
         (addPair (SqlPair_int ''port'' (ep_port ep)) (addPair (SqlPair_str ''ip'' (ep_ip ep)) [])))
       (\<lambda>_. update_rows E tbl eps)"

text \<open>An exception is logged; the endpoints were taken off the queue before.\<close>

definition flushUpdateServiceToDB :: "'db reg_env \<Rightarrow> 'db ServiceManager \<Rightarrow> 'db ServiceManager" where
  "flushUpdateServiceToDB E sm =
     (if m_updateServices sm = [] then sm
      else sm\<lparr>m_updateServices := [],
              m_mysql := snd (update_rows E (m_tblName sm) (m_updateServices sm) (m_mysql sm))\<rparr>)"

definition new_row :: "EndPoint \<Rightarrow> SqlJoin" where
  "new_row ep =
     addPair (SqlPair_int ''port'' (ep_port ep)) (addPair (SqlPair_str ''ip'' (ep_ip ep))
      (addPair (SqlPair_str ''set_name'' (setName ep)) (addPair (SqlPair_str ''service_name'' (serviceName ep))
       (addPair (SqlPair_str ''server_name'' (serverName ep)) (addPair (SqlPair_str ''app_name'' (appName ep)) [])))))"

fun insert_rows :: "'db reg_env \<Rightarrow> string \<Rightarrow> EndPoint list \<Rightarrow> ('db MySqlConn, unit) est" where
  "insert_rows E tbl [] = est_return ()"
| "insert_rows E tbl (ep # eps) =
     est_bind (sql_insert (re_mysql E) tbl (new_row ep)) (\<lambda>_. insert_rows E tbl eps)"

definition flushNewServiceToDB :: "'db reg_env \<Rightarrow> 'db ServiceManager \<Rightarrow> 'db ServiceManager" where
  "flushNewServiceToDB E sm =
     (if m_newServices sm = [] then sm
      else sm\<lparr>m_newServices := [],
              m_mysql := snd (insert_rows E (m_tblName sm) (m_newServices sm) (m_mysql sm))\<rparr>)"

text \<open>\<open>update\<close> reads the clock twice.\<close>

definition update :: "'db reg_env \<Rightarrow> u32 \<Rightarrow> u32 \<Rightarrow> 'db ServiceManager \<Rightarrow> 'db ServiceManager" where
  "update E now now2 sm =
     (let sm1 = flushNewServiceToDB E sm in
      if now > m_updateSec sm1 + updateInterval (re_config E) then
        let sm2 = flushUpdateServiceToDB E sm1 in
        if now2 > m_reloadSec sm2 + reloadInterval (re_config E) then loadFromDB E now2 sm2 else sm2
      else sm1)"

section \<open>Requests\<close>

definition isNewService :: "string \<Rightarrow> u32 \<Rightarrow> 'db ServiceManager \<Rightarrow> bool" where
  "isNewService ip port sm \<longleftrightarrow> ipPort ip port \<notin> m_allService sm"

definition getService :: "string \<Rightarrow> string \<Rightarrow> string \<Rightarrow> string \<Rightarrow> 'db ServiceManager \<Rightarrow> EndPoint list" where
  "getService app server service st sm =
     (case sm_find (m_services sm) (getKey app server service st) of None \<Rightarrow> [] | Some v \<Rightarrow> v)"

definition req_key :: "ServiceInfo \<Rightarrow> string" where
  "req_key req = getKey (app_name req) (server_name req) (service_name req) (set_name req)"

definition new_ep :: "ServiceInfo \<Rightarrow> u32 \<Rightarrow> EndPoint" where
  "new_ep req now =
     \<lparr>appName = app_name req, serverName = server_name req, serviceName = service_name req, setName = set_name req,
      ep_ip = info_ip req, ep_port = info_port req, heartBeatTime = now, active = True\<rparr>"

definition same_addr :: "ServiceInfo \<Rightarrow> EndPoint \<Rightarrow> bool" where
  "same_addr req ep \<longleftrightarrow> ep_ip ep = info_ip req \<and> ep_port ep = info_port req"

definition refresh :: "u32 \<Rightarrow> EndPoint \<Rightarrow> EndPoint" where
  "refresh now ep = ep\<lparr>heartBeatTime := now, active := True\<rparr>"

definition heartBeat :: "ServiceInfo \<Rightarrow> u32 \<Rightarrow> 'db ServiceManager \<Rightarrow> 'db ServiceManager" where
  "heartBeat req now sm =
     (let key = req_key req in
      if isNewService (info_ip req) (info_port req) sm then
        let sm1 = addNewService (new_ep req now) sm in
        sm1\<lparr>m_services := sm_set key (at_key key (m_services sm1) @ [new_ep req now]) (m_services sm1)\<rparr>
      else
        let vec = at_key key (m_services sm);
            sm1 = sm\<lparr>m_services := sm_set key (map (\<lambda>ep. if same_addr req ep then refresh now ep else ep) vec) (m_services sm)\<rparr> in
        fold (\<lambda>ep. addUpdateService (refresh now ep)) (filter (same_addr req) vec) sm1)"

text \<open>\<open>RegistryServiceImp::Query\<close>: the addresses of the active endpoints.\<close>

definition Query :: "string \<Rightarrow> string \<Rightarrow> string \<Rightarrow> string \<Rightarrow> 'db ServiceManager \<Rightarrow> (string \<times> u32) list" where
  "Query app server service st sm =
     map (\<lambda>s. (ep_ip s, ep_port s)) (filter active (getService app server service st sm))"

section \<open>Heart beats and queries\<close>

lemma fold_addUpdate:
  "fold (\<lambda>ep. addUpdateService (f ep)) eps sm = sm\<lparr>m_updateServices := m_updateServices sm @ map f eps\<rparr>"
  by (induction eps arbitrary: sm) (simp_all add: addUpdateService_def)

definition services_ok :: "'db ServiceManager \<Rightarrow> bool" where
  "services_ok sm \<longleftrightarrow> sm_wf (m_services sm)"

lemma heartBeat_services:
  "m_services (heartBeat req now sm) =
     sm_set (req_key req)
       (if isNewService (info_ip req) (info_port req) sm then at_key (req_key req) (m_services sm) @ [new_ep req now]
        else map (\<lambda>ep. if same_addr req ep then refresh now ep else ep) (at_key (req_key req) (m_services sm)))
       (m_services sm)"
  by (simp add: heartBeat_def Let_def addNewService_def fold_addUpdate)

lemma heartBeat_wf: "services_ok sm \<Longrightarrow> services_ok (heartBeat req now sm)"
  by (simp add: services_ok_def heartBeat_services sm.invar_update)

lemma at_key_set [simp]: "at_key k (sm_set k' v m) = (if k = k' then v else at_key k m)"
  by (simp add: at_key_def)

lemma getService_at: "getService app server service st sm = at_key (getKey app server service st) (m_services sm)"
  by (simp add: getService_def at_key_def)

text \<open>A query right after a heart beat lists the sender, when it was new or known under its key.\<close>

lemma Query_after_heartBeat:
  assumes "isNewService (info_ip req) (info_port req) sm \<or>
    (\<exists>ep \<in> set (at_key (req_key req) (m_services sm)). same_addr req ep)"
  shows "(info_ip req, info_port req) \<in>
    set (Query (app_name req) (server_name req) (service_name req) (set_name req) (heartBeat req now sm))"
proof (cases "isNewService (info_ip req) (info_port req) sm")
  case True
  then show ?thesis
    by (simp add: Query_def getService_at heartBeat_services req_key_def [symmetric] new_ep_def)
next
  case False
  then obtain ep where ep: "ep \<in> set (at_key (req_key req) (m_services sm))" "same_addr req ep" using assms by blast
  then have "refresh now ep \<in> set (at_key (req_key req) (m_services (heartBeat req now sm)))"
    using False by (auto simp: heartBeat_services intro!: image_eqI [of _ _ ep])
  then show ?thesis
    using ep(2) by (force simp: Query_def getService_at req_key_def refresh_def same_addr_def)
qed

lemma heartBeat_frame:
  "getKey app server service st \<noteq> req_key req \<Longrightarrow>
     getService app server service st (heartBeat req now sm) = getService app server service st sm"
  by (simp add: getService_at heartBeat_services)

text \<open>A heart beat does not record the address as known: until the next reload every further one
  of a new service adds it again, to the table and to the rows to insert.\<close>

lemma heartBeat_again:
  fixes t1 t2
  assumes "isNewService (info_ip req) (info_port req) sm"
  defines "sm2 \<equiv> heartBeat req t2 (heartBeat req t1 sm)"
  shows "at_key (req_key req) (m_services sm2) = at_key (req_key req) (m_services sm) @ [new_ep req t1, new_ep req t2]"
    and "m_newServices sm2 = m_newServices sm @ [new_ep req t1, new_ep req t2]"
proof -
  have "isNewService (info_ip req) (info_port req) (heartBeat req t1 sm)"
    using assms(1) by (simp add: heartBeat_def Let_def addNewService_def isNewService_def)
  then show "at_key (req_key req) (m_services sm2) = at_key (req_key req) (m_services sm) @ [new_ep req t1, new_ep req t2]"
    "m_newServices sm2 = m_newServices sm @ [new_ep req t1, new_ep req t2]"
    using assms(1) by (simp_all add: sm2_def heartBeat_services) (simp_all add: heartBeat_def Let_def addNewService_def)
qed

section \<open>Endpoints stay under their key\<close>

definition keyed :: "'db ServiceManager \<Rightarrow> bool" where
  "keyed sm \<longleftrightarrow> sm_wf (m_services sm) \<and> (\<forall>k. \<forall>ep \<in> set (at_key k (m_services sm)). ep_key ep = k)"

lemma keyed_heartBeat: "keyed sm \<Longrightarrow> keyed (heartBeat req now sm)"
  by (auto simp: keyed_def heartBeat_services new_ep_def ep_key_def req_key_def refresh_def)

lemma load_fold:
  "fold load_step eps (m, a) = (fst (fold load_step eps (m, a)), a \<union> (\<lambda>ep. ipPort (ep_ip ep) (ep_port ep)) ` set eps)"
  "at_key k (fst (fold load_step eps (m, a))) = at_key k m @ filter (\<lambda>ep. ep_key ep = k) eps"
  "sm_wf m \<Longrightarrow> sm_wf (fst (fold load_step eps (m, a)))"
proof (induction eps arbitrary: m a)
  case (Cons ep eps)
  have st: "load_step ep (m, a) = (sm_set (ep_key ep) (at_key (ep_key ep) m @ [ep]) m, insert (ipPort (ep_ip ep) (ep_port ep)) a)"
    for m a by (simp add: load_step_def)
  { case 1 show ?case using Cons.IH(1) by (simp add: st prod_eq_iff) }
  { case 2 show ?case by (simp add: st Cons.IH(2)) }
  { case 3 then show ?case by (simp add: st Cons.IH(3)) }
qed simp_all

lemma loadFromDB_ok:
  fixes now
  assumes "sql_select (re_mysql E) (m_tblName sm) ''*'' [] (m_mysql sm) = (Inr res, c)" and "m_iRows res \<noteq> 0"
  defines "rows \<equiv> map (load_row E now res) [0..<m_iRows res]"
  shows "at_key k (m_services (loadFromDB E now sm)) = filter (\<lambda>ep. ep_key ep = k) rows"
    and "m_allService (loadFromDB E now sm) = (\<lambda>ep. ipPort (ep_ip ep) (ep_port ep)) ` set rows"
    and "keyed (loadFromDB E now sm)"
proof -
  note f = load_fold [where m = "[]" and a = "{}" and eps = rows]
  have eq: "m_services (loadFromDB E now sm) = fst (fold load_step rows ([], {}))"
    "m_allService (loadFromDB E now sm) = (\<lambda>ep. ipPort (ep_ip ep) (ep_port ep)) ` set rows"
    using assms(1,2) f(1) by (auto simp: loadFromDB_def Let_def rows_def [symmetric] split: prod.split)
  show at: "at_key k (m_services (loadFromDB E now sm)) = filter (\<lambda>ep. ep_key ep = k) rows" for k
    by (simp add: eq f(2)) (simp add: at_key_def sm_find_def)
  show "m_allService (loadFromDB E now sm) = (\<lambda>ep. ipPort (ep_ip ep) (ep_port ep)) ` set rows" by (rule eq(2))
  show "keyed (loadFromDB E now sm)" unfolding keyed_def at by (simp add: eq(1) f(3))
qed

text \<open>A failed or empty select changes nothing but the times.\<close>

lemma loadFromDB_keeps:
  assumes "sql_select (re_mysql E) (m_tblName sm) ''*'' [] (m_mysql sm) = (r, c)"
    and "\<forall>res. r = Inr res \<longrightarrow> m_iRows res = 0"
  shows "m_services (loadFromDB E now sm) = m_services sm \<and> m_allService (loadFromDB E now sm) = m_allService sm"
  using assms by (cases r) (simp_all add: loadFromDB_def Let_def)

section \<open>What is written\<close>

lemma execute_logged:
  assumes "m_bConnected c" and "\<forall>sql db. my_query M sql db = (Inr (), f sql db)"
  shows "run_counted M sql c = (Inr (getAffectedRows M (c\<lparr>c_server := f sql (c_server c)\<rparr>)), c\<lparr>c_server := f sql (c_server c)\<rparr>)"
  using assms by (simp add: run_counted_def execute_def est_bind_def ensure_def)

lemma insert_rows_run:
  assumes "\<forall>sql db. my_query (re_mysql E) sql db = (Inr (), f sql db)"
  shows "m_bConnected c \<Longrightarrow> insert_rows E tbl eps c =
    (Inr (), c\<lparr>c_server := fold f (map (\<lambda>ep. insert_text (re_mysql E) tbl (new_row ep)) eps) (c_server c)\<rparr>)"
proof (induction eps arbitrary: c)
  case (Cons ep eps)
  have "sql_insert (re_mysql E) tbl (new_row ep) c =
      run_counted (re_mysql E) (insert_text (re_mysql E) tbl (new_row ep)) c"
    by (rule sql_insert_text [OF Cons.prems])
  then show ?case using Cons by (simp add: est_bind_def execute_logged [OF Cons.prems assms])
qed (simp add: est_return_def)

lemma flushNew_ok:
  assumes "\<forall>sql db. my_query (re_mysql E) sql db = (Inr (), f sql db)" and "m_bConnected (m_mysql sm)"
  shows "m_newServices (flushNewServiceToDB E sm) = []"
    and "c_server (m_mysql (flushNewServiceToDB E sm)) =
      fold f (map (\<lambda>ep. insert_text (re_mysql E) (m_tblName sm) (new_row ep)) (m_newServices sm)) (c_server (m_mysql sm))"
  using insert_rows_run [OF assms] by (simp_all add: flushNewServiceToDB_def)

lemma is_digit_of_isdigit: "is_digit_of 10 c \<Longrightarrow> isdigit_c c"
  by (auto simp: is_digit_of_def digit_val_def isdigit_c_def Let_def split: if_splits)

lemma new_row_ok: "list_all pair_ok (new_row ep)" "new_row ep \<noteq> []"
  by (simp_all add: new_row_def addPair_def pair_ok_def SqlPair_str_def SqlPair_int_def tostr_u32_def
      is_digit_of_isdigit dec_digits_digits)

end
