(* ===== verification/Storm_Request.thy ===== *)
theory Storm_Request
  imports Util_Protocol
begin

text \<open>
  \<open>source/framework/storm_request.h\<close>, \<open>connection.h\<close> and the messages of \<open>proto/rpc_proto.proto\<close>: the
  data of a remote call. Protobuf's encoding is generated code, so serialising and parsing are
  the fields of \<open>rpc_codec\<close>, arguments of the definitions that use them; \<open>codec_ok\<close> is the
  round trip protobuf documents.
\<close>

datatype InvokeType = InvokeType_Sync | InvokeType_Async | InvokeType_OneWay

datatype ResponseStatus =
    ResponseStatus_Ok | ResponseStatus_TimeOut | ResponseStatus_NetError
  | ResponseStatus_CoderError | ResponseStatus_NoProtoId | ResponseStatus_Error

definition status_code :: "ResponseStatus \<Rightarrow> int" where
  "status_code st =
     (case st of
        ResponseStatus_Ok \<Rightarrow> 0
      | ResponseStatus_TimeOut \<Rightarrow> 30001
      | ResponseStatus_NetError \<Rightarrow> 30002
      | ResponseStatus_CoderError \<Rightarrow> 30003
      | ResponseStatus_NoProtoId \<Rightarrow> 30004
      | ResponseStatus_Error \<Rightarrow> 30005)"

record RpcRequest =
  rq_invoke_type :: InvokeType
  rq_request_id :: u32
  rq_proto_id :: u32
  rq_request :: string

record RpcResponse =
  rs_ret :: int
  rs_proto_id :: u32
  rs_request_id :: u32
  rs_response :: string

definition new_RpcRequest :: RpcRequest where
  "new_RpcRequest = \<lparr>rq_invoke_type = InvokeType_Sync, rq_request_id = 0, rq_proto_id = 0, rq_request = []\<rparr>"

definition new_RpcResponse :: RpcResponse where
  "new_RpcResponse = \<lparr>rs_ret = 0, rs_proto_id = 0, rs_request_id = 0, rs_response = []\<rparr>"

record rpc_codec =
  ser_req :: "RpcRequest \<Rightarrow> string"
  par_req :: "string \<Rightarrow> RpcRequest option"
  ser_resp :: "RpcResponse \<Rightarrow> string"
  par_resp :: "string \<Rightarrow> RpcResponse option"

definition codec_ok :: "rpc_codec \<Rightarrow> bool" where
  "codec_ok C \<longleftrightarrow> (\<forall>r. par_req C (ser_req C r) = Some r) \<and> (\<forall>r. par_resp C (ser_resp C r) = Some r)"

record Connection =
  conn_id :: u32
  conn_fd :: u32
  conn_port :: int
  conn_ip :: string

text \<open>A request in flight. The endpoint it was sent to and the callback are object identities.\<close>

record RequestMessage =
  rm_invokeType :: InvokeType
  rm_requestId :: u32
  rm_ep :: "nat option"
  rm_status :: ResponseStatus
  rm_req :: RpcRequest
  rm_resp :: "RpcResponse option"
  rm_back :: bool
  rm_cb :: "nat option"
  rm_threadId :: u32
  rm_broadcast :: bool

definition new_RequestMessage :: RequestMessage where
  "new_RequestMessage =
     \<lparr>rm_invokeType = InvokeType_Sync, rm_requestId = 0, rm_ep = None, rm_status = ResponseStatus_TimeOut,
      rm_req = new_RpcRequest, rm_resp = None, rm_back = False, rm_cb = None, rm_threadId = 0, rm_broadcast = False\<rparr>"

text \<open>\<open>decodeResponse\<close>: the status of the call, the result code of the remote method, or a failure to
  parse; \<open>parse\<close> is the response type's \<open>ParseFromString\<close>. \<open>None\<close> is the use of a missing response.\<close>

definition decodeResponse :: "(string \<Rightarrow> 'm option) \<Rightarrow> RequestMessage \<Rightarrow> (int \<times> 'm option) option" where
  "decodeResponse parse msg =
     (if status_code (rm_status msg) \<noteq> 0 then Some (status_code (rm_status msg), None)
      else case rm_resp msg of
        None \<Rightarrow> None
      | Some resp \<Rightarrow>
          if rs_ret resp \<noteq> 0 then Some (rs_ret resp, None)
          else (case parse (rs_response resp) of
                  None \<Rightarrow> Some (status_code ResponseStatus_CoderError, None)
                | Some r \<Rightarrow> Some (0, Some r)))"

lemma decodeResponse_ok:
  "decodeResponse parse msg = Some (0, Some r) \<longleftrightarrow>
     rm_status msg = ResponseStatus_Ok \<and>
     (\<exists>resp. rm_resp msg = Some resp \<and> rs_ret resp = 0 \<and> parse (rs_response resp) = Some r)"
  by (cases "rm_status msg") (auto simp: decodeResponse_def status_code_def split: option.splits)

end
