(* ===== verification/Storm_Proxy.thy ===== *)
theory Storm_Proxy
  imports Storm_Request Util_String Util_Timelist Socket_Loop "HOL-Library.Multiset"
begin

text \<open>
  \<open>source/framework/storm_service_proxy.cpp\<close>: the client side of a service. Endpoints and requests are
  objects shared by reference, so the record \<open>ServiceProxy\<close> holds a store of each (\<open>px_eps\<close>,
  \<open>px_msgs\<close>) and lists and maps of their identities. What leaves the proxy, bytes handed to the
  loop, connections asked for, callbacks run, requests passed to the main thread and waiting callers
  woken, is appended to \<open>px_out\<close>; the ids \<open>SocketLoop::connect\<close> returns come from \<open>px_ids\<close>.
  Every method holds the mutex of the data it touches and is one step here.

  The life of a request is treated in \<open>Storm_Proxy_Calls\<close>, the endpoints in \<open>Storm_Proxy_Endpoints\<close>.
\<close>

section \<open>Data\<close>

record ProxyEndPoint =
  m_connId :: u32
  m_connected :: bool
  m_ip :: string
  m_port :: u32
  m_buffer :: IoBuffer

definition new_ProxyEndPoint :: "string \<Rightarrow> u32 \<Rightarrow> ProxyEndPoint" where
  "new_ProxyEndPoint ip port =
     \<lparr>m_connId = -1, m_connected = False, m_ip = ip, m_port = port, m_buffer = new_IoBuffer 4096\<rparr>"

datatype px_effect =
    LoopSend u32 string | LoopConnect nat | Dispatch nat | PushMessage nat | Wake nat

record ServiceProxy =
  m_needLocator :: bool
  m_activeEndPoints :: "nat list"
  m_inactiveEndPoints :: "nat list"
  m_sequeue :: u32
  m_reqMessages :: "(u32, nat) std_map"
  m_timeout :: "(u32, u64) TimeList"
  m_appName :: string
  m_serverName :: string
  m_serviceName :: string
  m_setName :: string
  m_name :: string
  m_hashCode :: "64 word"
  px_eps :: "nat \<Rightarrow> ProxyEndPoint"
  px_fresh :: nat
  px_msgs :: "nat \<Rightarrow> RequestMessage"
  px_ids :: "u32 list"
  px_tid :: u32
  px_now :: u64
  px_out :: "px_effect list"

definition new_ServiceProxy :: "u32 \<Rightarrow> u64 \<Rightarrow> ServiceProxy" where
  "new_ServiceProxy tid now =
     \<lparr>m_needLocator = False, m_activeEndPoints = [], m_inactiveEndPoints = [], m_sequeue = 0, m_reqMessages = [],
      m_timeout = tl_setFunction True (tl_setTimeout 3000 (tl_new 0)),
      m_appName = [], m_serverName = [], m_serviceName = [], m_setName = [], m_name = [], m_hashCode = -1,
      px_eps = \<lambda>_. new_ProxyEndPoint [] 0, px_fresh = 0, px_msgs = \<lambda>_. new_RequestMessage, px_ids = [],
      px_tid = tid, px_now = now, px_out = []\<rparr>"

definition emit :: "px_effect \<Rightarrow> ServiceProxy \<Rightarrow> ServiceProxy" where
  "emit e px = px\<lparr>px_out := px_out px @ [e]\<rparr>"

definition set_ep :: "nat \<Rightarrow> ProxyEndPoint \<Rightarrow> ServiceProxy \<Rightarrow> ServiceProxy" where
  "set_ep e ep px = px\<lparr>px_eps := (px_eps px)(e := ep)\<rparr>"

definition set_msg :: "nat \<Rightarrow> RequestMessage \<Rightarrow> ServiceProxy \<Rightarrow> ServiceProxy" where
  "set_msg m msg px = px\<lparr>px_msgs := (px_msgs px)(m := msg)\<rparr>"

section \<open>Endpoints\<close>

definition ep_onConnect :: "nat \<Rightarrow> ServiceProxy \<Rightarrow> ServiceProxy" where
  "ep_onConnect e px =
     (let ep = px_eps px e; ep1 = ep\<lparr>m_connected := True\<rparr> in
      if getSize (m_buffer ep) \<noteq> 0 then
        set_ep e (ep1\<lparr>m_buffer := reset (m_buffer ep)\<rparr>) (emit (LoopSend (m_connId ep) (contents (m_buffer ep))) px)
      else set_ep e ep1 px)"

definition ep_send :: "nat \<Rightarrow> string \<Rightarrow> ServiceProxy \<Rightarrow> ServiceProxy option" where
  "ep_send e data px =
     (let ep = px_eps px e in
      if m_connected ep then Some (emit (LoopSend (m_connId ep) data) px)
      else do {
        b \<leftarrow> push_back_data data (word_of_nat (length data)) (m_buffer ep);
        if m_connId ep \<noteq> -1 then Some (set_ep e (ep\<lparr>m_buffer := b\<rparr>) px)
        else
          let (cid, ids) = (case px_ids px of [] \<Rightarrow> (-1, []) | i # is \<Rightarrow> (i, is)) in
          Some (set_ep e (ep\<lparr>m_buffer := b, m_connId := cid\<rparr>) (emit (LoopConnect e) (px\<lparr>px_ids := ids\<rparr>)))
      })"

section \<open>Requests\<close>

definition finishInvoke :: "nat \<Rightarrow> ServiceProxy \<Rightarrow> ServiceProxy" where
  "finishInvoke m px =
     (let msg = px_msgs px m in
      case rm_invokeType msg of
        InvokeType_Sync \<Rightarrow> emit (Wake m) (set_msg m (msg\<lparr>rm_back := True\<rparr>) px)
      | InvokeType_Async \<Rightarrow> if px_tid px = rm_threadId msg then emit (Dispatch m) px else emit (PushMessage m) px
      | InvokeType_OneWay \<Rightarrow> px)"

definition set_status :: "nat \<Rightarrow> ResponseStatus \<Rightarrow> ServiceProxy \<Rightarrow> ServiceProxy" where
  "set_status m st px = set_msg m ((px_msgs px m)\<lparr>rm_status := st\<rparr>) px"

definition getAndDelReqMessage :: "u32 \<Rightarrow> ServiceProxy \<Rightarrow> nat option \<times> ServiceProxy" where
  "getAndDelReqMessage requestId px =
     (case sm_find (m_reqMessages px) requestId of
        None \<Rightarrow> (None, px)
      | Some m \<Rightarrow> (Some m, px\<lparr>m_reqMessages := sm_erase requestId (m_reqMessages px)\<rparr>))"

definition saveMessage :: "u32 \<Rightarrow> nat \<Rightarrow> ServiceProxy \<Rightarrow> ServiceProxy" where
  "saveMessage requestId m px = px\<lparr>m_reqMessages := sm_set requestId m (m_reqMessages px)\<rparr>"

definition doReqTimeOut :: "u32 \<Rightarrow> ServiceProxy \<Rightarrow> ServiceProxy" where
  "doReqTimeOut requestId px =
     (case getAndDelReqMessage requestId px of
        (None, px1) \<Rightarrow> px1
      | (Some m, px1) \<Rightarrow> finishInvoke m (set_status m ResponseStatus_TimeOut px1))"

text \<open>The callbacks of one \<open>timeout\<close> run before their list nodes are erased; they do not use the list.\<close>

definition doTimeOut :: "ServiceProxy \<Rightarrow> ServiceProxy" where
  "doTimeOut px =
     (case tl_expire (px_now px) (m_timeout px) of
        (ids, t) \<Rightarrow> fold doReqTimeOut ids (px\<lparr>m_timeout := t\<rparr>))"

text \<open>\<open>moveToInactive\<close>: the second loop erases an iterator of one vector from another, which is
  undefined; \<open>None\<close> when it is reached.\<close>

definition moveToInactive :: "nat \<Rightarrow> ServiceProxy \<Rightarrow> ServiceProxy option" where
  "moveToInactive e px =
     (let px1 = px\<lparr>m_activeEndPoints := remove1 e (m_activeEndPoints px)\<rparr> in
      if e \<in> set (m_inactiveEndPoints px1) then None
      else Some (px1\<lparr>m_inactiveEndPoints := m_inactiveEndPoints px1 @ [e]\<rparr>))"

definition close_status :: "SocketCloseType \<Rightarrow> ResponseStatus" where
  "close_status closeType =
     (if closeType = CloseType_Timeout then ResponseStatus_TimeOut
      else if closeType = CloseType_ConnectFail \<or> closeType = CloseType_ConnTimeOut then ResponseStatus_NetError
      else ResponseStatus_Error)"

text \<open>The id is read from the request after \<open>finishInvoke\<close>, which may have freed it; here it is
  the id it had.\<close>

definition close_msg :: "SocketCloseType \<Rightarrow> nat \<Rightarrow> ServiceProxy \<Rightarrow> ServiceProxy" where
  "close_msg closeType m px =
     (let px1 = finishInvoke m (set_status m (close_status closeType) px) in
      px1\<lparr>m_timeout := tl_del (rm_requestId (px_msgs px m)) (m_timeout px1)\<rparr>)"

definition proxy_onClose :: "nat \<Rightarrow> SocketCloseType \<Rightarrow> ServiceProxy \<Rightarrow> ServiceProxy option" where
  "proxy_onClose e closeType px = do {
     px1 \<leftarrow> (if (closeType = CloseType_ConnectFail \<or> closeType = CloseType_ConnTimeOut) \<and> m_needLocator px
             then moveToInactive e px else Some px);
     let affectMsg = filter (\<lambda>(i, m). rm_ep (px_msgs px1 m) = Some e) (m_reqMessages px1);
     let px2 = px1\<lparr>m_reqMessages := filter (\<lambda>(i, m). rm_ep (px_msgs px1 m) \<noteq> Some e) (m_reqMessages px1)\<rparr>;
     Some (fold (close_msg closeType) (map snd affectMsg) px2)
   }"

definition ep_onClose :: "nat \<Rightarrow> u32 \<Rightarrow> SocketCloseType \<Rightarrow> ServiceProxy \<Rightarrow> ServiceProxy option" where
  "ep_onClose e sid closeType px =
     (let ep = px_eps px e in
      if m_connId ep \<noteq> sid then Some px
      else proxy_onClose e closeType
             (set_ep e (ep\<lparr>m_connId := -1, m_connected := False, m_buffer := reset (m_buffer ep)\<rparr>) px))"

definition proxy_onPacket :: "rpc_codec \<Rightarrow> string \<Rightarrow> ServiceProxy \<Rightarrow> ServiceProxy" where
  "proxy_onPacket C data px =
     (case par_resp C data of
        None \<Rightarrow> px
      | Some resp \<Rightarrow>
          (case getAndDelReqMessage (rs_request_id resp) px of
             (None, px1) \<Rightarrow> px1
           | (Some m, px1) \<Rightarrow>
               let px2 = px1\<lparr>m_timeout := tl_del (rs_request_id resp) (m_timeout px1)\<rparr> in
               finishInvoke m (set_msg m ((px_msgs px2 m)\<lparr>rm_resp := Some resp, rm_status := ResponseStatus_Ok\<rparr>) px2)))"

definition px_hash :: "64 word \<Rightarrow> ServiceProxy \<Rightarrow> ServiceProxy" where
  "px_hash code px = px\<lparr>m_hashCode := code\<rparr>"

definition newRequest :: "InvokeType \<Rightarrow> nat option \<Rightarrow> bool \<Rightarrow> u32 \<Rightarrow> RequestMessage" where
  "newRequest type cb broadcast tid =
     (let oneway = (type = InvokeType_Async \<and> cb = None);
          type' = (if oneway then InvokeType_OneWay else type) in
      new_RequestMessage\<lparr>rm_cb := cb, rm_broadcast := (if oneway then broadcast else False), rm_invokeType := type',
        rm_req := new_RpcRequest\<lparr>rq_invoke_type := type'\<rparr>, rm_threadId := tid\<rparr>)"

text \<open>\<open>m_hashCode\<close> is thread-local; the index is computed in unsigned 64-bit arithmetic for a code, and
  from the 32-bit counter otherwise.\<close>

definition selectEndPoint :: "ServiceProxy \<Rightarrow> nat option \<times> ServiceProxy" where
  "selectEndPoint px =
     (let n = length (m_activeEndPoints px); code = m_hashCode px; px1 = px\<lparr>m_hashCode := -1\<rparr> in
      if n = 0 then (None, px)
      else if code \<noteq> -1 then (Some (m_activeEndPoints px ! (unat code mod n)), px1)
      else (Some (m_activeEndPoints px ! (unat (m_sequeue px) mod n)), px1))"

fun send_all :: "nat list \<Rightarrow> string \<Rightarrow> ServiceProxy \<Rightarrow> ServiceProxy option" where
  "send_all [] data px = Some px"
| "send_all (e # es) data px = do { px1 \<leftarrow> ep_send e data px; send_all es data px1 }"

text \<open>\<open>doInvoke\<close> up to the wait of a synchronous call; the result says whether the caller goes on to
  wait.\<close>

definition doInvoke :: "rpc_codec \<Rightarrow> nat \<Rightarrow> ServiceProxy \<Rightarrow> (bool \<times> ServiceProxy) option" where
  "doInvoke C m px =
     (let requestId = m_sequeue px;
          msg = px_msgs px m;
          msg1 = msg\<lparr>rm_req := (rm_req msg)\<lparr>rq_request_id := requestId\<rparr>, rm_requestId := requestId\<rparr>;
          px1 = set_msg m msg1 (px\<lparr>m_sequeue := m_sequeue px + 1\<rparr>) in do {
      buffer \<leftarrow> Len_encode_msg (word_of_nat (length (ser_req C (rm_req msg1)))) (Some (ser_req C (rm_req msg1)));
      data \<leftarrow> map_option contents buffer;
      (sent, px2) \<leftarrow>
        (if rm_invokeType msg1 = InvokeType_OneWay \<and> rm_broadcast msg1 then
           map_option (\<lambda>px'. (True, px')) (send_all (m_activeEndPoints px1) data px1)
         else
           (case selectEndPoint px1 of
              (None, px') \<Rightarrow> Some (False, finishInvoke m (set_status m ResponseStatus_NetError px'))
            | (Some e, px') \<Rightarrow>
                map_option (\<lambda>px''. (True, px'')) (ep_send e data (set_msg m (msg1\<lparr>rm_ep := Some e\<rparr>) px'))));
      let px3 = (if sent \<and> rm_invokeType msg1 \<noteq> InvokeType_OneWay then
                   let s = saveMessage requestId m px2 in s\<lparr>m_timeout := tl_add requestId (px_now s) (m_timeout s)\<rparr>
                 else px2);
      Some (sent \<and> rm_invokeType msg1 = InvokeType_Sync \<and> \<not> rm_back (px_msgs px3 m), px3)
    })"

section \<open>The endpoint lists\<close>

fun take_endpoint :: "(nat \<Rightarrow> ProxyEndPoint) \<Rightarrow> string \<Rightarrow> u32 \<Rightarrow> nat list \<Rightarrow> nat option \<times> nat list" where
  "take_endpoint eps ip port [] = (None, [])"
| "take_endpoint eps ip port (e # all) =
     (if m_ip (eps e) = ip \<and> m_port (eps e) = port then (Some e, all)
      else case take_endpoint eps ip port all of (r, all') \<Rightarrow> (r, e # all'))"

fun update_loop :: "(string \<times> u32) list \<Rightarrow> nat list \<Rightarrow> ServiceProxy \<Rightarrow> nat list \<times> ServiceProxy" where
  "update_loop [] all px = (all, px)"
| "update_loop ((ip, port) # acks) all px =
     (case take_endpoint (px_eps px) ip port all of
        (Some e, all') \<Rightarrow> update_loop acks all' (px\<lparr>m_activeEndPoints := m_activeEndPoints px @ [e]\<rparr>)
      | (None, _) \<Rightarrow>
          let e = px_fresh px;
              px1 = set_ep e (new_ProxyEndPoint ip port) (px\<lparr>px_fresh := Suc e\<rparr>) in
          update_loop acks all (px1\<lparr>m_activeEndPoints := m_activeEndPoints px1 @ [e]\<rparr>))"

definition updateEndPoints :: "(string \<times> u32) list \<Rightarrow> ServiceProxy \<Rightarrow> ServiceProxy" where
  "updateEndPoints ack px =
     (let all = m_activeEndPoints px @ m_inactiveEndPoints px;
          (rest, px1) = update_loop ack all (px\<lparr>m_activeEndPoints := [], m_inactiveEndPoints := []\<rparr>) in
      px1\<lparr>m_inactiveEndPoints := m_inactiveEndPoints px1 @ rest\<rparr>)"

text \<open>\<open>parseFromString\<close>: the options of one endpoint description, as pairs.\<close>

fun parse_opts :: "string list \<Rightarrow> string \<Rightarrow> u32 \<Rightarrow> (string \<times> u32) option" where
  "parse_opts (opt # arg # v) host port =
     (if length opt \<noteq> 2 \<or> opt ! 0 \<noteq> CHR ''-'' then None
      else if opt ! 1 = CHR ''h'' then parse_opts v arg port
      else if opt ! 1 = CHR ''p'' then parse_opts v host (strto_u32 arg)
      else parse_opts v host port)"
| "parse_opts _ host port = Some (host, port)"

definition parse_endpoint :: "string \<Rightarrow> (string \<times> u32) option" where
  "parse_endpoint desc =
     (let v = splitString desc [CHR '' '', CHR 0x09, CHR 0x0D, CHR 0x0A] True in
      if length v < 3 \<or> length v mod 2 \<noteq> 1 then None
      else if v ! 0 \<noteq> ''tcp'' then None
      else case parse_opts (tl v) [] 0 of
        None \<Rightarrow> None
      | Some (host, port) \<Rightarrow> if host = [] \<or> port = 0 then None else Some (host, port))"

fun add_endpoints :: "string list \<Rightarrow> ServiceProxy \<Rightarrow> bool \<times> ServiceProxy" where
  "add_endpoints [] px = (True, px)"
| "add_endpoints (desc # ds) px =
     (case parse_endpoint desc of
        None \<Rightarrow> (False, px)
      | Some (host, port) \<Rightarrow>
          let e = px_fresh px;
              px1 = set_ep e (new_ProxyEndPoint host port) (px\<lparr>px_fresh := Suc e\<rparr>) in
          add_endpoints ds (px1\<lparr>m_activeEndPoints := m_activeEndPoints px1 @ [e]\<rparr>))"

text \<open>\<open>query\<close> is the synchronous call of the registry: its error code or the active endpoints.\<close>

definition parseFromString ::
  "(string \<Rightarrow> string \<Rightarrow> string \<Rightarrow> string \<Rightarrow> int + (string \<times> u32) list) \<Rightarrow> string \<Rightarrow> string \<Rightarrow> ServiceProxy \<Rightarrow> bool \<times> ServiceProxy" where
  "parseFromString query config setName px =
     (let px0 = px\<lparr>m_setName := setName\<rparr> in
      case find_char config (CHR ''@'') 0 of
        Some pos \<Rightarrow>
          add_endpoints (splitString (drop (pos + 1) config) '':'' True)
            (px0\<lparr>m_needLocator := False, m_name := take pos config @ ''Proxy''\<rparr>)
      | None \<Rightarrow>
          let px1 = px0\<lparr>m_needLocator := True, m_name := config @ ''Proxy''\<rparr>;
              v = splitString config ''.'' True in
          if length v < 3 then (False, px1)
          else
            let px2 = px1\<lparr>m_appName := v ! 0, m_serverName := v ! 1, m_serviceName := v ! 2\<rparr> in
            (case query (v ! 0) (v ! 1) (v ! 2) setName of
               Inl ret \<Rightarrow> (True, px2)
             | Inr ack \<Rightarrow> (True, updateEndPoints ack px2)))"

end
