(* ===== verification/Storm_Proxy_Calls.thy ===== *)
theory Storm_Proxy_Calls
  imports Storm_Proxy
begin

text \<open>
  The life of a request of \<open>Storm_Proxy\<close>: it is issued by \<open>doInvoke\<close>, and finished by a response, by
  its deadline or by the end of its connection, whichever comes first. \<open>px_reach\<close> are the states of
  a proxy under any interleaving of these events; \<open>px_accounts\<close> says that every issued request is
  pending or was finished exactly once, and \<open>doTimeOut_all_due\<close> that none is forgotten.
\<close>

section \<open>Bookkeeping\<close>

fun finished_of :: "px_effect list \<Rightarrow> nat list" where
  "finished_of [] = []"
| "finished_of (Wake m # es) = m # finished_of es"
| "finished_of (Dispatch m # es) = m # finished_of es"
| "finished_of (PushMessage m # es) = m # finished_of es"
| "finished_of (_ # es) = finished_of es"

definition finished :: "ServiceProxy \<Rightarrow> nat list" where
  "finished px = finished_of (px_out px)"

definition pending_msgs :: "ServiceProxy \<Rightarrow> nat list" where
  "pending_msgs px = map snd (m_reqMessages px)"

definition deadlines :: "ServiceProxy \<Rightarrow> u32 set" where
  "deadlines px = fst ` set (tl_abs (m_timeout px))"

definition req_ids :: "ServiceProxy \<Rightarrow> u32 set" where
  "req_ids px = fst ` set (m_reqMessages px)"

lemma finished_of_append [simp]: "finished_of (xs @ ys) = finished_of xs @ finished_of ys"
  by (induction xs rule: finished_of.induct) simp_all

definition two_way :: "ServiceProxy \<Rightarrow> nat \<Rightarrow> bool" where
  "two_way px m \<longleftrightarrow> rm_invokeType (px_msgs px m) \<noteq> InvokeType_OneWay"

text \<open>What finishing a request leaves alone.\<close>

definition same_calls :: "ServiceProxy \<Rightarrow> ServiceProxy \<Rightarrow> bool" where
  "same_calls px px' \<longleftrightarrow>
     (\<forall>m. rm_requestId (px_msgs px' m) = rm_requestId (px_msgs px m) \<and>
          rm_invokeType (px_msgs px' m) = rm_invokeType (px_msgs px m) \<and> rm_ep (px_msgs px' m) = rm_ep (px_msgs px m))"

lemma same_calls_trans: "same_calls a b \<Longrightarrow> same_calls b c \<Longrightarrow> same_calls a c"
  by (simp add: same_calls_def)

lemma same_calls_refl [simp]: "same_calls a a"
  by (simp add: same_calls_def)

lemma same_calls_two_way: "same_calls px px' \<Longrightarrow> two_way px' = two_way px"
  by (simp add: same_calls_def two_way_def fun_eq_iff)

lemma finishInvoke_frame [simp]:
  "m_reqMessages (finishInvoke m px) = m_reqMessages px" "m_timeout (finishInvoke m px) = m_timeout px"
  "px_now (finishInvoke m px) = px_now px" "m_sequeue (finishInvoke m px) = m_sequeue px"
  "m_reqMessages (set_status m st px) = m_reqMessages px" "m_timeout (set_status m st px) = m_timeout px"
  "px_out (set_status m st px) = px_out px" "px_now (set_status m st px) = px_now px"
  "m_sequeue (set_status m st px) = m_sequeue px"
  by (simp_all add: finishInvoke_def set_status_def set_msg_def emit_def Let_def split: InvokeType.splits)

lemma same_calls_finish [simp]:
  "same_calls px (finishInvoke m px)" "same_calls px (set_status m st px)"
  by (simp_all add: same_calls_def finishInvoke_def set_status_def set_msg_def emit_def Let_def split: InvokeType.splits)

lemma two_way_status [simp]: "two_way (set_status m st px) = two_way px"
  by (simp add: same_calls_two_way)

lemma finished_finish: "two_way px m \<Longrightarrow> finished (finishInvoke m px) = finished px @ [m]"
  by (simp add: two_way_def finished_def finishInvoke_def emit_def set_msg_def Let_def split: InvokeType.splits)

lemma finished_status [simp]: "finished (set_status m st px) = finished px"
  by (simp add: finished_def)

section \<open>The invariant\<close>

definition calls_ok :: "ServiceProxy \<Rightarrow> bool" where
  "calls_ok px \<longleftrightarrow> sm_wf (m_reqMessages px) \<and> tl_wf (m_timeout px) \<and> tl_func (m_timeout px) \<and>
     (\<forall>(i, m) \<in> set (m_reqMessages px). rm_requestId (px_msgs px m) = i \<and> two_way px m)"

lemma calls_ok_find:
  "calls_ok px \<Longrightarrow> sm_find (m_reqMessages px) i = Some m \<Longrightarrow> rm_requestId (px_msgs px m) = i \<and> two_way px m"
  by (auto simp: calls_ok_def sm_find_def dest!: map_of_SomeD)

lemma calls_ok_same:
  assumes "calls_ok px" and "same_calls px px'" and "set (m_reqMessages px') \<subseteq> set (m_reqMessages px)"
    and "sm_wf (m_reqMessages px')" and "tl_wf (m_timeout px')" and "tl_func (m_timeout px')"
  shows "calls_ok px'"
  using assms unfolding calls_ok_def same_calls_def two_way_def by fastforce

lemma sm_erase_mset:
  assumes "sm_wf m" and "sm_find m k = Some v"
  shows "mset (map snd m) = add_mset v (mset (map snd (sm_erase k m)))"
  using assms
proof (induction m)
  case (Cons e m)
  obtain k' v' where e: "e = (k', v')" by (cases e)
  have wf: "sm_wf m" and nk: "\<forall>x \<in> fst ` set m. k' < x" using Cons.prems(1) by (simp_all add: e sm_wf_Cons)
  show ?case
  proof (cases "k' = k")
    case True
    then have "sm_erase k m = m" using nk by (auto simp: sm_erase_def intro!: filter_True)
    moreover have "sm_erase k (e # m) = sm_erase k m" using True by (simp add: sm_erase_def e)
    moreover have "v' = v" using True Cons.prems(2) by (simp add: e sm_find_def)
    ultimately show ?thesis by (simp add: e)
  next
    case False
    then have "sm_find m k = Some v" using Cons.prems(2) by (simp add: e sm_find_def)
    moreover have "sm_erase k (e # m) = e # sm_erase k m" using False by (simp add: sm_erase_def e)
    ultimately show ?thesis using Cons.IH [OF wf] by (simp add: e)
  qed
qed (simp add: sm_find_def)

lemma sm_erase_keys: "fst ` set (sm_erase k m) = fst ` set m - {k}"
  by (auto simp: sm_erase_def)

lemma sm_erase_subset: "set (sm_erase k m) \<subseteq> set m"
  by (auto simp: sm_erase_def)

text \<open>Taking a request off the table and finishing it: the common end of a response and a deadline.\<close>

lemma doReqTimeOut_ok:
  fixes i
  assumes "calls_ok px"
  defines "px' \<equiv> doReqTimeOut i px"
  shows "calls_ok px'" "m_timeout px' = m_timeout px" "req_ids px' = req_ids px - {i}"
    "mset (pending_msgs px') + mset (finished px') = mset (pending_msgs px) + mset (finished px)"
proof -
  have "calls_ok px' \<and> m_timeout px' = m_timeout px \<and> req_ids px' = req_ids px - {i} \<and>
    mset (pending_msgs px') + mset (finished px') = mset (pending_msgs px) + mset (finished px)"
  proof (cases "sm_find (m_reqMessages px) i")
    case None
    then have "i \<notin> req_ids px" by (simp add: req_ids_def sm_find_def map_of_eq_None_iff)
    with None assms(1) show ?thesis by (simp add: px'_def doReqTimeOut_def getAndDelReqMessage_def)
  next
    case (Some m)
    let ?px1 = "px\<lparr>m_reqMessages := sm_erase i (m_reqMessages px)\<rparr>"
    let ?px2 = "set_status m ResponseStatus_TimeOut ?px1"
    have eq: "px' = finishInvoke m ?px2" by (simp add: px'_def doReqTimeOut_def getAndDelReqMessage_def Some)
    have sc: "same_calls px ?px1" by (simp add: same_calls_def)
    have tw: "two_way ?px2 m" using calls_ok_find [OF assms(1) Some] by (simp add: same_calls_two_way [OF sc])
    have "same_calls px px'"
      unfolding eq by (rule same_calls_trans [OF sc same_calls_trans [OF same_calls_finish(2) same_calls_finish(1)]])
    moreover have "sm_wf (m_reqMessages px)" using assms(1) by (simp add: calls_ok_def)
    moreover have "finished ?px1 = finished px" by (simp add: finished_def)
    ultimately show ?thesis
      using assms(1) sm_erase_mset [OF _ Some] calls_ok_same [OF assms(1), of px'] finished_finish [OF tw]
      by (auto simp: eq req_ids_def pending_msgs_def sm_erase_keys sm_erase_subset calls_ok_def [of px])
  qed
  then show "calls_ok px'" "m_timeout px' = m_timeout px" "req_ids px' = req_ids px - {i}"
    "mset (pending_msgs px') + mset (finished px') = mset (pending_msgs px) + mset (finished px)" by auto
qed

lemma fold_doReqTimeOut:
  fixes ids
  assumes "calls_ok px"
  defines "px' \<equiv> fold doReqTimeOut ids px"
  shows "calls_ok px' \<and> m_timeout px' = m_timeout px \<and> req_ids px' = req_ids px - set ids \<and>
    mset (pending_msgs px') + mset (finished px') = mset (pending_msgs px) + mset (finished px)"
  unfolding px'_def using assms(1)
proof (induction ids arbitrary: px)
  case (Cons i ids)
  note s = doReqTimeOut_ok [OF Cons.prems, of i]
  from Cons.IH [OF s(1)] s show ?case by auto
qed simp

section \<open>Deadlines, responses, closed connections\<close>

definition px_inv :: "ServiceProxy \<Rightarrow> bool" where
  "px_inv px \<longleftrightarrow> calls_ok px \<and> deadlines px = req_ids px"

lemma doTimeOut_ok:
  assumes "px_inv px"
  shows "px_inv (doTimeOut px)"
    "mset (pending_msgs (doTimeOut px)) + mset (finished (doTimeOut px)) = mset (pending_msgs px) + mset (finished px)"
proof -
  obtain ids t where t: "tl_expire (px_now px) (m_timeout px) = (ids, t)"
    by (cases "tl_expire (px_now px) (m_timeout px)")
  let ?px = "px\<lparr>m_timeout := t\<rparr>"
  have tw: "tl_wf (m_timeout px)" "tl_func (m_timeout px)" using assms by (simp_all add: px_inv_def calls_ok_def)
  have "tl_wf t" "tl_func t"
    using tl_expire_wf [OF tw(1), of "px_now px"] tl_op_fields(5) [of "px_now px" "m_timeout px"] tw t by simp_all
  then have ok: "calls_ok ?px" using assms by (simp add: px_inv_def calls_ok_def two_way_def)
  note f = fold_doReqTimeOut [OF ok, of ids]
  have "deadlines ?px = deadlines px - set ids" "req_ids ?px = req_ids px"
    using tl_expire_keys [OF tw t] by (simp_all add: deadlines_def req_ids_def)
  then show "px_inv (doTimeOut px)"
    using f assms by (simp add: doTimeOut_def t px_inv_def deadlines_def)
  show "mset (pending_msgs (doTimeOut px)) + mset (finished (doTimeOut px)) = mset (pending_msgs px) + mset (finished px)"
    using f by (simp add: doTimeOut_def t pending_msgs_def finished_def)
qed

lemma proxy_onPacket_ok:
  assumes "px_inv px"
  shows "px_inv (proxy_onPacket C data px)"
    "mset (pending_msgs (proxy_onPacket C data px)) + mset (finished (proxy_onPacket C data px)) =
     mset (pending_msgs px) + mset (finished px)"
proof -
  let ?px' = "proxy_onPacket C data px"
  have "px_inv ?px' \<and> mset (pending_msgs ?px') + mset (finished ?px') = mset (pending_msgs px) + mset (finished px)"
  proof (cases "par_resp C data")
    case None
    then show ?thesis using assms by (simp add: proxy_onPacket_def)
  next
    case r: (Some resp)
    let ?i = "rs_request_id resp"
    show ?thesis
    proof (cases "sm_find (m_reqMessages px) ?i")
      case None
      then show ?thesis using assms r by (simp add: proxy_onPacket_def getAndDelReqMessage_def)
    next
      case (Some m)
      define px2 where "px2 = px\<lparr>m_reqMessages := sm_erase ?i (m_reqMessages px), m_timeout := tl_del ?i (m_timeout px)\<rparr>"
      define px3 where "px3 = set_msg m ((px_msgs px2 m)\<lparr>rm_resp := Some resp, rm_status := ResponseStatus_Ok\<rparr>) px2"
      have eq: "?px' = finishInvoke m px3"
        by (simp add: proxy_onPacket_def getAndDelReqMessage_def r Some px2_def px3_def Let_def)
      have ok: "calls_ok px" "sm_wf (m_reqMessages px)" "tl_wf (m_timeout px)" "tl_func (m_timeout px)"
        using assms by (simp_all add: px_inv_def calls_ok_def)
      have fld: "m_reqMessages px3 = sm_erase ?i (m_reqMessages px)" "m_timeout px3 = tl_del ?i (m_timeout px)"
        "finished px3 = finished px"
        by (simp_all add: px3_def px2_def set_msg_def finished_def)
      have sc: "same_calls px px3" by (simp add: same_calls_def px3_def px2_def set_msg_def)
      have tw: "two_way px3 m" using calls_ok_find [OF ok(1) Some] by (simp add: same_calls_two_way [OF sc])
      have "same_calls px ?px'" unfolding eq by (rule same_calls_trans [OF sc same_calls_finish(1)])
      then have "calls_ok ?px'"
        by (rule calls_ok_same [OF ok(1)]) (use ok in \<open>simp_all add: eq fld sm_erase_subset tl_del_wf\<close>)
      then show ?thesis
        using sm_erase_mset [OF ok(2) Some] finished_finish [OF tw] assms ok
        by (auto simp: eq px_inv_def deadlines_def req_ids_def pending_msgs_def fld tl_del_keys sm_erase_keys)
    qed
  qed
  then show "px_inv ?px'"
    "mset (pending_msgs ?px') + mset (finished ?px') = mset (pending_msgs px) + mset (finished px)" by auto
qed

lemma close_msg_ok:
  assumes "tl_wf (m_timeout px)" and "two_way px m"
  shows "same_calls px (close_msg ct m px)" "m_reqMessages (close_msg ct m px) = m_reqMessages px"
    "tl_wf (m_timeout (close_msg ct m px))" "tl_func (m_timeout (close_msg ct m px)) = tl_func (m_timeout px)"
    "deadlines (close_msg ct m px) = deadlines px - {rm_requestId (px_msgs px m)}"
    "finished (close_msg ct m px) = finished px @ [m]"
proof -
  let ?px = "finishInvoke m (set_status m (close_status ct) px)"
  have sc: "same_calls px ?px" by (rule same_calls_trans [OF same_calls_finish(2) same_calls_finish(1)])
  then show "same_calls px (close_msg ct m px)" by (simp add: close_msg_def Let_def same_calls_def)
  show "finished (close_msg ct m px) = finished px @ [m]"
    using finished_finish [of "set_status m (close_status ct) px" m] assms(2)
    by (simp add: close_msg_def Let_def finished_def)
qed (use assms in \<open>simp_all add: close_msg_def Let_def tl_del_wf deadlines_def tl_del_keys\<close>)

lemma fold_close_msg:
  assumes "tl_wf (m_timeout px)" and "\<forall>m \<in> set ms. two_way px m"
  shows "let px' = fold (close_msg ct) ms px in
    same_calls px px' \<and> m_reqMessages px' = m_reqMessages px \<and> tl_wf (m_timeout px') \<and>
    tl_func (m_timeout px') = tl_func (m_timeout px) \<and>
    deadlines px' = deadlines px - (\<lambda>m. rm_requestId (px_msgs px m)) ` set ms \<and> finished px' = finished px @ ms"
  using assms
proof (induction ms arbitrary: px)
  case (Cons m ms)
  have c: "two_way px m" using Cons.prems by simp
  note s = close_msg_ok [OF Cons.prems(1) c, of ct]
  have tw: "\<forall>m' \<in> set ms. two_way (close_msg ct m px) m'"
    using Cons.prems(2) same_calls_two_way [OF s(1)] by simp
  have ids: "rm_requestId (px_msgs (close_msg ct m px) k) = rm_requestId (px_msgs px k)" for k
    using s(1) by (simp add: same_calls_def)
  from Cons.IH [OF s(3) tw] s show ?case
    by (auto simp: Let_def ids intro: same_calls_trans)
qed (simp add: Let_def)

lemma mset_filter_split: "mset (map snd (filter P xs)) + mset (map snd (filter (\<lambda>x. \<not> P x) xs)) = mset (map snd xs)"
  by (induction xs) simp_all

lemma moveToInactive_frame:
  assumes "moveToInactive e px = Some px'"
  shows "m_reqMessages px' = m_reqMessages px" "m_timeout px' = m_timeout px" "px_msgs px' = px_msgs px"
    "px_out px' = px_out px"
  using assms by (auto simp: moveToInactive_def Let_def split: if_splits)

lemma sm_wf_filter: "sm_wf m \<Longrightarrow> sm_wf (filter P m)"
  by (induction m) (auto simp: sm_wf_Cons)

lemma proxy_onClose_ok:
  assumes "px_inv px" and "proxy_onClose e ct px = Some px'"
  shows "px_inv px'"
    "mset (pending_msgs px') + mset (finished px') = mset (pending_msgs px) + mset (finished px)"
proof -
  obtain px1 where px1: "m_reqMessages px1 = m_reqMessages px" "m_timeout px1 = m_timeout px" "px_msgs px1 = px_msgs px"
    "px_out px1 = px_out px" and
    eq: "px' = fold (close_msg ct) (map snd (filter (\<lambda>(i, m). rm_ep (px_msgs px m) = Some e) (m_reqMessages px)))
      (px1\<lparr>m_reqMessages := filter (\<lambda>(i, m). rm_ep (px_msgs px m) \<noteq> Some e) (m_reqMessages px)\<rparr>)"
    using assms(2) moveToInactive_frame [of e px] by (auto simp: proxy_onClose_def split: if_splits bind_splits)
  let ?hit = "filter (\<lambda>(i, m). rm_ep (px_msgs px m) = Some e) (m_reqMessages px)"
  let ?rest = "filter (\<lambda>(i, m). rm_ep (px_msgs px m) \<noteq> Some e) (m_reqMessages px)"
  let ?px2 = "px1\<lparr>m_reqMessages := ?rest\<rparr>"
  have ok: "calls_ok px" "sm_wf (m_reqMessages px)" "tl_wf (m_timeout px)" "tl_func (m_timeout px)" "deadlines px = req_ids px"
    using assms(1) by (simp_all add: px_inv_def calls_ok_def)
  have sc: "same_calls px ?px2" by (simp add: same_calls_def px1)
  have tw: "\<forall>m \<in> set (map snd ?hit). two_way ?px2 m"
    using ok(1) by (auto simp: same_calls_two_way [OF sc] calls_ok_def)
  have "tl_wf (m_timeout ?px2)" using ok by (simp add: px1)
  note f = fold_close_msg [OF this tw, of ct, folded eq, unfolded Let_def]
  have ids: "(\<lambda>m. rm_requestId (px_msgs ?px2 m)) ` set (map snd ?hit) = fst ` set ?hit"
    using ok(1) by (force simp: calls_ok_def px1)
  have "distinct (map fst (m_reqMessages px))" by (rule sm_wf_distinct [OF ok(2)])
  then have keys: "fst ` set ?rest = fst ` set (m_reqMessages px) - fst ` set ?hit"
    by (auto dest: eq_key_imp_eq_value intro: rev_image_eqI)
  have "same_calls px px'" using f sc by (blast intro: same_calls_trans)
  then have "calls_ok px'"
    by (rule calls_ok_same [OF ok(1)]) (use f ok in \<open>auto simp: px1 sm_wf_filter\<close>)
  moreover have "deadlines px' = req_ids px'"
    using f ids keys ok(5) by (simp add: deadlines_def req_ids_def px1)
  ultimately show "px_inv px'" by (simp add: px_inv_def)
  have "finished px' = finished px @ map snd ?hit" "m_reqMessages px' = ?rest"
    using f by (simp_all add: finished_def px1)
  then show "mset (pending_msgs px') + mset (finished px') = mset (pending_msgs px) + mset (finished px)"
    using mset_filter_split [of "\<lambda>(i, m). rm_ep (px_msgs px m) = Some e" "m_reqMessages px"]
    by (simp add: pending_msgs_def case_prod_unfold add_ac)
qed

lemma px_inv_set_ep [simp]:
  "px_inv (set_ep e ep px) = px_inv px" "pending_msgs (set_ep e ep px) = pending_msgs px"
  "finished (set_ep e ep px) = finished px"
  by (simp_all add: px_inv_def calls_ok_def two_way_def deadlines_def req_ids_def set_ep_def pending_msgs_def finished_def)

lemma ep_onClose_ok:
  assumes "px_inv px" and "ep_onClose e sid ct px = Some px'"
  shows "px_inv px'"
    "mset (pending_msgs px') + mset (finished px') = mset (pending_msgs px) + mset (finished px)"
  using assms proxy_onClose_ok [of "set_ep e _ px" e ct px']
  by (auto simp: ep_onClose_def Let_def split: if_splits)

section \<open>Issuing\<close>

text \<open>Sending touches neither the requests nor their deadlines.\<close>

definition calls_kept :: "ServiceProxy \<Rightarrow> ServiceProxy \<Rightarrow> bool" where
  "calls_kept px px' \<longleftrightarrow> m_reqMessages px' = m_reqMessages px \<and> m_timeout px' = m_timeout px \<and>
     px_msgs px' = px_msgs px \<and> finished px' = finished px"

lemma calls_kept_trans: "calls_kept a b \<Longrightarrow> calls_kept b c \<Longrightarrow> calls_kept a c"
  by (simp add: calls_kept_def)

lemma ep_send_kept: "ep_send e data px = Some px' \<Longrightarrow> calls_kept px px'"
  by (auto simp: ep_send_def calls_kept_def Let_def emit_def set_ep_def finished_def split: if_splits bind_splits list.splits)

lemma send_all_kept: "send_all es data px = Some px' \<Longrightarrow> calls_kept px px'"
proof (induction es data px rule: send_all.induct)
  case (2 e es data px)
  then show ?case by (auto split: bind_splits dest!: ep_send_kept intro: calls_kept_trans)
qed (simp add: calls_kept_def)

lemma selectEndPoint_kept: "selectEndPoint px = (r, px') \<Longrightarrow> calls_kept px px'"
  by (auto simp: selectEndPoint_def calls_kept_def Let_def finished_def split: if_splits)

lemma sm_set_mset: "sm_find m k = None \<Longrightarrow> mset (map snd (sm_set k v m)) = add_mset v (mset (map snd m))"
  by (induction k v m rule: sm_set.induct) (auto simp: sm_find_def split: if_splits)

text \<open>The outcome of an invocation: the request was finished at once because there is no endpoint, or
  it was sent and saved. In both cases nothing else changed.\<close>

lemma doInvoke_cases:
  assumes "doInvoke C m px = Some (w, px')" and "two_way px m"
  obtains (failed) px1 where "px' = finishInvoke m (set_status m ResponseStatus_NetError px1)"
      "m_reqMessages px1 = m_reqMessages px" "m_timeout px1 = m_timeout px" "finished px1 = finished px"
      "\<forall>k. k \<noteq> m \<longrightarrow> px_msgs px1 k = px_msgs px k" "two_way px1 m"
  | (saved) px1 now where "px' = px1\<lparr>m_reqMessages := sm_set (m_sequeue px) m (m_reqMessages px1),
        m_timeout := tl_add (m_sequeue px) now (m_timeout px1)\<rparr>"
      "m_reqMessages px1 = m_reqMessages px" "m_timeout px1 = m_timeout px" "finished px1 = finished px"
      "\<forall>k. k \<noteq> m \<longrightarrow> px_msgs px1 k = px_msgs px k" "two_way px1 m" "rm_requestId (px_msgs px1 m) = m_sequeue px"
proof -
  define msg1 where "msg1 = (px_msgs px m)\<lparr>rm_req := (rm_req (px_msgs px m))\<lparr>rq_request_id := m_sequeue px\<rparr>,
      rm_requestId := m_sequeue px\<rparr>"
  define px1 where "px1 = set_msg m msg1 (px\<lparr>m_sequeue := m_sequeue px + 1\<rparr>)"
  have tw: "rm_invokeType msg1 \<noteq> InvokeType_OneWay" using assms(2) by (simp add: two_way_def msg1_def)
  obtain r px2 where sel: "selectEndPoint px1 = (r, px2)" by (cases "selectEndPoint px1")
  have k1: "calls_kept px1 px2" by (rule selectEndPoint_kept [OF sel])
  note eq = assms(1) [unfolded doInvoke_def Let_def, folded msg1_def, folded px1_def]
  have m1: "px_msgs px1 m = msg1" "\<forall>k. k \<noteq> m \<longrightarrow> px_msgs px1 k = px_msgs px k"
    "m_reqMessages px1 = m_reqMessages px" "m_timeout px1 = m_timeout px" "finished px1 = finished px"
    by (simp_all add: px1_def set_msg_def finished_def)
  show thesis
  proof (cases r)
    case None
    then have "px' = finishInvoke m (set_status m ResponseStatus_NetError px2)"
      using eq tw sel by (auto split: bind_splits if_splits)
    then show thesis
      by (rule failed) (use k1 m1 tw in \<open>auto simp: calls_kept_def two_way_def\<close>)
  next
    case (Some e)
    have "\<exists>data px3. ep_send e data (set_msg m (msg1\<lparr>rm_ep := Some e\<rparr>) px2) = Some px3 \<and>
      px' = px3\<lparr>m_reqMessages := sm_set (m_sequeue px) m (m_reqMessages px3),
        m_timeout := tl_add (m_sequeue px) (px_now px3) (m_timeout px3)\<rparr>"
      using eq tw sel Some by (auto simp: saveMessage_def split: bind_splits if_splits) blast+
    then obtain data px3 where s: "ep_send e data (set_msg m (msg1\<lparr>rm_ep := Some e\<rparr>) px2) = Some px3"
      "px' = px3\<lparr>m_reqMessages := sm_set (m_sequeue px) m (m_reqMessages px3),
        m_timeout := tl_add (m_sequeue px) (px_now px3) (m_timeout px3)\<rparr>" by blast
    show thesis
      by (rule saved [OF s(2)])
        (use ep_send_kept [OF s(1)] k1 m1 tw in
          \<open>auto simp: calls_kept_def two_way_def set_msg_def msg1_def finished_def\<close>)
  qed
qed

lemma doInvoke_ok:
  assumes inv: "px_inv px" and r: "doInvoke C m px = Some (w, px')" and tw: "two_way px m"
    and new: "m \<notin> set (pending_msgs px)" and free: "sm_find (m_reqMessages px) (m_sequeue px) = None"
  shows "px_inv px' \<and> mset (pending_msgs px') + mset (finished px') =
    add_mset m (mset (pending_msgs px) + mset (finished px))"
proof -
  have ok: "sm_wf (m_reqMessages px)" "tl_wf (m_timeout px)" "tl_func (m_timeout px)" "deadlines px = req_ids px"
    "\<forall>(i, k) \<in> set (m_reqMessages px). rm_requestId (px_msgs px k) = i \<and> two_way px k"
    using inv by (simp_all add: px_inv_def calls_ok_def)
  have ne: "k \<noteq> m" if "(i, k) \<in> set (m_reqMessages px)" for i k
    using new that by (force simp: pending_msgs_def)
  from r tw show ?thesis
  proof (cases rule: doInvoke_cases)
    case (failed px1)
    have "calls_ok px1" using ok failed ne by (fastforce simp: calls_ok_def two_way_def)
    moreover have "same_calls px1 px'"
      unfolding failed(1) by (rule same_calls_trans [OF same_calls_finish(2) same_calls_finish(1)])
    ultimately have "calls_ok px'" by (rule calls_ok_same) (use ok failed in simp_all)
    moreover have "finished px' = finished px @ [m]"
      using failed finished_finish [of "set_status m ResponseStatus_NetError px1" m] by simp
    ultimately show ?thesis
      using failed ok(4) by (simp add: px_inv_def deadlines_def req_ids_def pending_msgs_def)
  next
    case (saved px1 now)
    have msgs: "px_msgs px' = px_msgs px1" by (simp add: saved(1))
    have entry: "rm_requestId (px_msgs px' k) = i \<and> two_way px' k" if "(i, k) \<in> set (m_reqMessages px')" for i k
    proof -
      from that sm_set_subset have "(i, k) = (m_sequeue px, m) \<or> (i, k) \<in> set (m_reqMessages px)"
        by (fastforce simp: saved(1,2))
      then show ?thesis using saved(5-7) ok(5) ne by (auto simp: two_way_def msgs)
    qed
    have "calls_ok px'"
      using ok entry by (auto simp: calls_ok_def saved(1-3) tl_add_wf)
    moreover have "deadlines px' = req_ids px'"
      using ok(2,4) by (simp add: deadlines_def req_ids_def saved(1-3) tl_add_keys sm_set_keys)
    moreover have "finished px' = finished px" using saved(4) by (simp add: saved(1) finished_def)
    ultimately show ?thesis
      using sm_set_mset [OF free] by (simp add: px_inv_def pending_msgs_def saved(1,2))
  qed
qed

section \<open>Every interleaving\<close>

text \<open>The states of a proxy and the requests issued so far. A request object is used once, and the
  32-bit id it gets is not that of a request still pending.\<close>

inductive px_reach :: "rpc_codec \<Rightarrow> ServiceProxy \<Rightarrow> ServiceProxy \<Rightarrow> nat list \<Rightarrow> bool" for C px0 where
  start: "px_reach C px0 px0 []"
| invoke: "px_reach C px0 px iss \<Longrightarrow> m \<notin> set iss \<Longrightarrow> two_way px m \<Longrightarrow>
     sm_find (m_reqMessages px) (m_sequeue px) = None \<Longrightarrow> doInvoke C m px = Some (w, px') \<Longrightarrow>
     px_reach C px0 px' (m # iss)"
| packet: "px_reach C px0 px iss \<Longrightarrow> px_reach C px0 (proxy_onPacket C data px) iss"
| closed: "px_reach C px0 px iss \<Longrightarrow> ep_onClose e sid ct px = Some px' \<Longrightarrow> px_reach C px0 px' iss"
| connected: "px_reach C px0 px iss \<Longrightarrow> px_reach C px0 (ep_onConnect e px) iss"
| timeouts: "px_reach C px0 px iss \<Longrightarrow> px_reach C px0 (doTimeOut px) iss"
| endpoints: "px_reach C px0 px iss \<Longrightarrow> px_reach C px0 (updateEndPoints ack px) iss"
| env: "px_reach C px0 px iss \<Longrightarrow> px_reach C px0 (px\<lparr>px_now := now, px_ids := ids, px_tid := tid\<rparr>) iss"

lemma update_loop_kept: "update_loop acks all px = (rest, px') \<Longrightarrow> calls_kept px px'"
proof (induction acks all px rule: update_loop.induct)
  case (2 ip port acks all px)
  obtain r all' where t: "take_endpoint (px_eps px) ip port all = (r, all')" by fastforce
  show ?case
  proof (cases r)
    case None
    with 2(1) [OF t [symmetric, unfolded None]] 2(3) t show ?thesis
      by (simp add: Let_def calls_kept_def set_ep_def finished_def)
  next
    case (Some e)
    with 2(2) [OF t [symmetric, unfolded Some]] 2(3) t show ?thesis by (simp add: calls_kept_def finished_def)
  qed
qed (simp add: calls_kept_def)

lemma px_inv_kept:
  assumes "px_inv px" and "calls_kept px px'"
  shows "px_inv px'" "pending_msgs px' = pending_msgs px" "finished px' = finished px"
  using assms by (simp_all add: px_inv_def calls_kept_def calls_ok_def two_way_def deadlines_def req_ids_def pending_msgs_def)

lemma other_kept:
  "calls_kept px (ep_onConnect e px)" "calls_kept px (updateEndPoints ack px)"
  "calls_kept px (px\<lparr>px_now := now, px_ids := ids, px_tid := tid\<rparr>)"
proof -
  show "calls_kept px (updateEndPoints ack px)"
    using update_loop_kept [of ack _ "px\<lparr>m_activeEndPoints := [], m_inactiveEndPoints := []\<rparr>"]
    by (fastforce simp: updateEndPoints_def Let_def calls_kept_def finished_def split: prod.splits)
qed (simp_all add: calls_kept_def ep_onConnect_def Let_def set_ep_def emit_def finished_def)

lemma px_accounts:
  assumes "px_reach C px0 px iss" and "px_inv px0" and "pending_msgs px0 = []" and "finished px0 = []"
  shows "px_inv px \<and> mset (pending_msgs px) + mset (finished px) = mset iss \<and> distinct iss"
  using assms
proof (induction rule: px_reach.induct)
  case (invoke px iss m w px')
  then have acc: "mset (pending_msgs px) + mset (finished px) = mset iss" "px_inv px" by simp_all
  have "set (pending_msgs px) \<subseteq> set iss" using arg_cong [OF acc(1), of set_mset] by auto
  then have "m \<notin> set (pending_msgs px)" using invoke by blast
  from doInvoke_ok [OF acc(2) invoke.hyps(5,3) this invoke.hyps(4)] acc invoke show ?case by simp
next
  case (packet px iss data)
  then show ?case by (simp add: proxy_onPacket_ok)
next
  case (closed px iss e sid ct px')
  then show ?case using ep_onClose_ok [OF _ closed.hyps(2)] by simp
next
  case (connected px iss e)
  then show ?case using px_inv_kept [OF _ other_kept(1) [of px e]] by simp
next
  case (timeouts px iss)
  then show ?case by (simp add: doTimeOut_ok)
next
  case (endpoints px iss ack)
  then show ?case using px_inv_kept [OF _ other_kept(2) [of px ack]] by simp
next
  case (env px iss now ids tid)
  then show ?case using px_inv_kept [OF _ other_kept(3) [of px now ids tid]] by simp
qed simp

section \<open>Answers and deadlines\<close>

text \<open>A response reaches the request that has its id, with the status of a call that was answered; a
  response for an unknown id, or one that cannot be parsed, changes nothing.\<close>

lemma proxy_onPacket_answer:
  assumes "par_resp C data = Some resp" and "sm_find (m_reqMessages px) (rs_request_id resp) = Some m" and "two_way px m"
  shows "rm_resp (px_msgs (proxy_onPacket C data px) m) = Some resp"
    "rm_status (px_msgs (proxy_onPacket C data px) m) = ResponseStatus_Ok"
    "finished (proxy_onPacket C data px) = finished px @ [m]"
    "sm_find (m_reqMessages (proxy_onPacket C data px)) (rs_request_id resp) = None"
  using assms by (auto simp: proxy_onPacket_def getAndDelReqMessage_def finishInvoke_def set_msg_def emit_def Let_def
      finished_def two_way_def split: InvokeType.splits)

lemma proxy_onPacket_stray:
  assumes "\<forall>resp. par_resp C data = Some resp \<longrightarrow> sm_find (m_reqMessages px) (rs_request_id resp) = None"
  shows "proxy_onPacket C data px = px"
  using assms by (auto simp: proxy_onPacket_def getAndDelReqMessage_def split: option.splits)

text \<open>Once every deadline has passed, one \<open>doTimeOut\<close> finishes all that was pending.\<close>

lemma doTimeOut_all_due:
  assumes "px_inv px" and "\<forall>(i, d) \<in> set (tl_abs (m_timeout px)). d \<le> px_now px"
  shows "pending_msgs (doTimeOut px) = []"
    "mset (finished (doTimeOut px)) = mset (pending_msgs px) + mset (finished px)"
proof -
  obtain ids t where t: "tl_expire (px_now px) (m_timeout px) = (ids, t)"
    by (cases "tl_expire (px_now px) (m_timeout px)")
  have tw: "tl_wf (m_timeout px)" "tl_func (m_timeout px)" using assms by (simp_all add: px_inv_def calls_ok_def)
  have "tl_wf t" "tl_func t"
    using tl_expire_wf [OF tw(1), of "px_now px"] tl_op_fields(5) [of "px_now px" "m_timeout px"] tw t by simp_all
  then have ok: "calls_ok (px\<lparr>m_timeout := t\<rparr>)" using assms by (simp add: px_inv_def calls_ok_def two_way_def)
  have "dropWhile (\<lambda>(_, d). d \<le> px_now px) (tl_abs (m_timeout px)) = []" using assms(2) by (auto simp: dropWhile_eq_Nil_conv)
  then have "tl_abs t = []"
    using tl_expire_abs [OF tw(2), of "px_now px"] t by (simp add: spec_expire_def del: dropWhile_eq_Nil_conv)
  then have "deadlines (doTimeOut px) = {}"
    using fold_doReqTimeOut [OF ok, of ids] by (simp add: doTimeOut_def t deadlines_def)
  then have "m_reqMessages (doTimeOut px) = []"
    using doTimeOut_ok(1) [OF assms(1)] by (simp add: px_inv_def req_ids_def)
  then show "pending_msgs (doTimeOut px) = []" by (simp add: pending_msgs_def)
  then show "mset (finished (doTimeOut px)) = mset (pending_msgs px) + mset (finished px)"
    using doTimeOut_ok(2) [OF assms(1)] by simp
qed

lemma new_proxy_inv: "px_inv (new_ServiceProxy tid now)" "pending_msgs (new_ServiceProxy tid now) = []"
  "finished (new_ServiceProxy tid now) = []"
  by (simp_all add: px_inv_def calls_ok_def deadlines_def req_ids_def pending_msgs_def finished_def new_ServiceProxy_def
      tl_setFunction_def tl_setTimeout_def tl_wf_def tl_abs_def tl_new_def sm_wf_def)

end
