(* ===== verification/Storm_Proxy_Endpoints.thy ===== *)
theory Storm_Proxy_Endpoints
  imports Storm_Proxy
begin

text \<open>
  The endpoints of \<open>Storm_Proxy\<close>. An endpoint keeps what it is given in its own buffer until its
  connection is up and hands it to the loop then: \<open>ep_run_stream\<close> says that the loop is handed the
  bytes in the order they were sent. \<open>updateEndPoints_ok\<close> says what a new list from the registry does to
  the active and inactive endpoints, and \<open>selectEndPoint_ok\<close> which endpoint a request goes to.
\<close>

section \<open>Bytes of one endpoint\<close>

datatype ep_op = EpSend nat string | EpConnect nat

fun ep_run :: "ep_op list \<Rightarrow> ServiceProxy \<Rightarrow> ServiceProxy option" where
  "ep_run [] px = Some px"
| "ep_run (EpSend e data # ops) px = do { px1 \<leftarrow> ep_send e data px; ep_run ops px1 }"
| "ep_run (EpConnect e # ops) px = ep_run ops (ep_onConnect e px)"

fun sends_of :: "nat \<Rightarrow> ep_op list \<Rightarrow> string" where
  "sends_of e [] = []"
| "sends_of e (EpSend f data # ops) = (if f = e then data @ sends_of e ops else sends_of e ops)"
| "sends_of e (EpConnect f # ops) = sends_of e ops"

fun ops_bytes :: "ep_op list \<Rightarrow> nat" where
  "ops_bytes [] = 0"
| "ops_bytes (EpSend f data # ops) = length data + ops_bytes ops"
| "ops_bytes (EpConnect f # ops) = ops_bytes ops"

fun sent_of :: "u32 \<Rightarrow> px_effect list \<Rightarrow> string" where
  "sent_of c [] = []"
| "sent_of c (LoopSend c' data # es) = (if c' = c then data @ sent_of c es else sent_of c es)"
| "sent_of c (_ # es) = sent_of c es"

definition ep_bytes :: "nat \<Rightarrow> ServiceProxy \<Rightarrow> string" where
  "ep_bytes e px = sent_of (m_connId (px_eps px e)) (px_out px) @ contents (m_buffer (px_eps px e))"

lemma sent_of_append [simp]: "sent_of c (xs @ ys) = sent_of c xs @ sent_of c ys"
  by (induction c xs rule: sent_of.induct) simp_all

text \<open>The endpoint \<open>e\<close> owns the connection \<open>cid\<close>, and every endpoint can still take \<open>N\<close> bytes.\<close>

definition ep_chan :: "u32 \<Rightarrow> nat \<Rightarrow> ServiceProxy \<Rightarrow> bool" where
  "ep_chan cid e px \<longleftrightarrow> cid \<noteq> -1 \<and> cid \<notin> set (px_ids px) \<and>
     (\<forall>f. m_connId (px_eps px f) = cid \<longleftrightarrow> f = e) \<and>
     (m_connected (px_eps px e) \<longrightarrow> contents (m_buffer (px_eps px e)) = [])"

definition ep_ready :: "nat \<Rightarrow> ServiceProxy \<Rightarrow> bool" where
  "ep_ready N px \<longleftrightarrow> (\<forall>f. push_ready (m_buffer (px_eps px f)) \<and> unat (m_tail (m_buffer (px_eps px f))) + N \<le> 2 ^ 31)"

lemma ep_chan_owner: "ep_chan cid e px \<Longrightarrow> m_connId (px_eps px f) = m_connId (px_eps px e) \<longleftrightarrow> f = e"
  unfolding ep_chan_def by metis

lemma ep_ready_mono:
  assumes "ep_ready N px"
  shows "push_ready (m_buffer (px_eps px g))" "unat (m_tail (m_buffer (px_eps px g))) + (N - k) \<le> 2 ^ 31"
proof -
  have "unat (m_tail (m_buffer (px_eps px g))) + N \<le> 2 ^ 31" using assms by (simp add: ep_ready_def)
  then show "unat (m_tail (m_buffer (px_eps px g))) + (N - k) \<le> 2 ^ 31" by linarith
qed (use assms in \<open>simp add: ep_ready_def\<close>)

lemma push_buffer:
  assumes "ep_ready N px" and "length data \<le> N"
  obtains b where "push_back_data data (word_of_nat (length data)) (m_buffer (px_eps px f)) = Some b"
    "push_ready b" "contents b = contents (m_buffer (px_eps px f)) @ data" "unat (m_tail b) + (N - length data) \<le> 2 ^ 31"
proof -
  have r: "io_wf (m_buffer (px_eps px f))" "m_capacity (m_buffer (px_eps px f)) \<noteq> 0"
    "unat (m_tail (m_buffer (px_eps px f))) + N \<le> 2 ^ 31"
    using assms(1) by (simp_all add: ep_ready_def push_ready_def)
  then have len: "unat (word_of_nat (length data) :: u32) = length data" using assms(2) by simp
  show thesis
    using push_back_data_ok [OF r(1,2), of "word_of_nat (length data)" data] r(3) assms(2) len that
    by (auto simp: push_ready_def)
qed

lemma ep_send_step:
  assumes "ep_ready N px" and "length data \<le> N" and "ep_chan cid e px"
  obtains px' where "ep_send f data px = Some px'" "ep_ready (N - length data) px'" "ep_chan cid e px'"
    "ep_bytes e px' = (if f = e then ep_bytes e px @ data else ep_bytes e px)"
    "m_connected (px_eps px' e) = m_connected (px_eps px e)"
proof (cases "m_connected (px_eps px f)")
  case True
  let ?px = "emit (LoopSend (m_connId (px_eps px f)) data) px"
  have "ep_ready (N - length data) ?px"
    using ep_ready_mono [OF assms(1)] by (simp add: ep_ready_def emit_def)
  then show thesis
    by (rule that [rotated])
      (use True assms(3) ep_chan_owner [OF assms(3), of f] in \<open>auto simp: ep_send_def ep_chan_def ep_bytes_def emit_def\<close>)
next
  case False
  obtain b where b: "push_back_data data (word_of_nat (length data)) (m_buffer (px_eps px f)) = Some b"
    "push_ready b" "contents b = contents (m_buffer (px_eps px f)) @ data" "unat (m_tail b) + (N - length data) \<le> 2 ^ 31"
    by (rule push_buffer [OF assms(1,2)])
  show thesis
  proof (cases "m_connId (px_eps px f) = -1")
    case True
    define cids where "cids = (case px_ids px of [] \<Rightarrow> (-1, []) | i # is \<Rightarrow> (i, is))"
    have fe: "f \<noteq> e" "fst cids \<noteq> cid" "cid \<notin> set (snd cids)"
      using True assms(3) by (auto simp: ep_chan_def cids_def split: list.splits)
    let ?px = "set_ep f ((px_eps px f)\<lparr>m_buffer := b, m_connId := fst cids\<rparr>) (emit (LoopConnect f) (px\<lparr>px_ids := snd cids\<rparr>))"
    have eq: "ep_send f data px = Some ?px"
      using True False b(1) by (simp add: ep_send_def Let_def cids_def split: prod.splits)
    show thesis
      by (rule that [OF eq])
        (use fe b assms(3) ep_ready_mono [OF assms(1)] in \<open>auto simp: ep_chan_def ep_ready_def ep_bytes_def set_ep_def emit_def\<close>)
  next
    case id: False
    show thesis
      by (rule that [of "set_ep f ((px_eps px f)\<lparr>m_buffer := b\<rparr>) px"])
        (use False id b assms(3) ep_ready_mono [OF assms(1)] in \<open>auto simp: ep_send_def ep_chan_def ep_ready_def ep_bytes_def set_ep_def\<close>)
  qed
qed

lemma ep_onConnect_step:
  fixes f
  assumes "ep_ready N px" and "ep_chan cid e px"
  defines "px' \<equiv> ep_onConnect f px"
  shows "ep_ready N px'" "ep_chan cid e px'" "ep_bytes e px' = ep_bytes e px"
    "m_connected (px_eps px' e) = (f = e \<or> m_connected (px_eps px e))"
proof -
  have wf: "io_wf (m_buffer (px_eps px g))" for g using assms(1) by (simp add: ep_ready_def push_ready_def)
  have emp: "getSize (m_buffer (px_eps px g)) = 0 \<longleftrightarrow> contents (m_buffer (px_eps px g)) = []" for g
    using io_wf_sizes(2) [OF wf, of g] by (metis length_0_conv unat_eq_zero)
  show "ep_ready N px'"
    using assms(1) reset_ok(1) [OF wf] by (auto simp: px'_def ep_onConnect_def Let_def ep_ready_def set_ep_def emit_def push_ready_def reset_def)
  show "ep_chan cid e px'" "ep_bytes e px' = ep_bytes e px"
    using assms(2) emp ep_chan_owner [OF assms(2), of f]
    by (auto simp: px'_def ep_onConnect_def Let_def ep_chan_def ep_bytes_def set_ep_def emit_def reset_ok(2))
  show "m_connected (px_eps px' e) = (f = e \<or> m_connected (px_eps px e))"
    by (simp add: px'_def ep_onConnect_def Let_def set_ep_def emit_def)
qed

lemma ep_run_stream:
  assumes "ep_chan cid e px" and "ep_ready (ops_bytes ops) px"
  shows "\<exists>px'. ep_run ops px = Some px' \<and> ep_chan cid e px' \<and> ep_bytes e px' = ep_bytes e px @ sends_of e ops \<and>
    (m_connected (px_eps px e) \<or> EpConnect e \<in> set ops \<longrightarrow> sent_of cid (px_out px') = ep_bytes e px @ sends_of e ops)"
  using assms
proof (induction ops px rule: ep_run.induct)
  case (1 px)
  then show ?case by (auto simp: ep_chan_def ep_bytes_def)
next
  case (2 f data ops px)
  obtain px1 where s: "ep_send f data px = Some px1" "ep_ready (ops_bytes (EpSend f data # ops) - length data) px1"
    "ep_chan cid e px1" "ep_bytes e px1 = (if f = e then ep_bytes e px @ data else ep_bytes e px)"
    "m_connected (px_eps px1 e) = m_connected (px_eps px e)"
    by (rule ep_send_step [OF 2(3) _ 2(2), of data f]) simp
  from 2(1) [OF s(1,3)] s show ?case by auto
next
  case (3 f ops px)
  have "ep_ready (ops_bytes ops) px" using 3(3) by simp
  note s = ep_onConnect_step [OF this 3(2), of f]
  from 3(1) [OF s(2,1)] s show ?case by auto
qed

text \<open>The first send of an endpoint asks the loop for a connection and keeps the bytes.\<close>

lemma ep_send_first:
  assumes "ep_ready N px" and "length data \<le> N" and "px_ids px = cid # ids" and "cid \<noteq> -1" and "cid \<notin> set ids"
    and "\<forall>f. m_connId (px_eps px f) \<noteq> cid" and "m_connId (px_eps px e) = -1" and "\<not> m_connected (px_eps px e)"
    and "contents (m_buffer (px_eps px e)) = []" and "sent_of cid (px_out px) = []"
  shows "\<exists>px'. ep_send e data px = Some px' \<and> ep_chan cid e px' \<and> ep_ready (N - length data) px' \<and> ep_bytes e px' = data \<and>
    px_out px' = px_out px @ [LoopConnect e]"
proof -
  obtain b where b: "push_back_data data (word_of_nat (length data)) (m_buffer (px_eps px e)) = Some b"
    "push_ready b" "contents b = contents (m_buffer (px_eps px e)) @ data" "unat (m_tail b) + (N - length data) \<le> 2 ^ 31"
    by (rule push_buffer [OF assms(1,2)])
  let ?px = "set_ep e ((px_eps px e)\<lparr>m_buffer := b, m_connId := cid\<rparr>) (emit (LoopConnect e) (px\<lparr>px_ids := ids\<rparr>))"
  have "ep_send e data px = Some ?px"
    using assms(3,7,8) b(1) by (simp add: ep_send_def Let_def)
  moreover have "ep_ready (N - length data) ?px"
    using b ep_ready_mono [OF assms(1)] by (simp add: ep_ready_def set_ep_def emit_def)
  ultimately show ?thesis
    using assms(3-10) b(3) by (auto simp: ep_chan_def ep_bytes_def set_ep_def emit_def)
qed

section \<open>Choosing an endpoint\<close>

text \<open>A request goes to an active endpoint: the one its hash code selects, whatever the others do, or the
  next one in turn.\<close>

lemma selectEndPoint_ok:
  assumes "m_activeEndPoints px \<noteq> []"
  shows "\<exists>e. fst (selectEndPoint px) = Some e \<and> e \<in> set (m_activeEndPoints px) \<and>
    e = m_activeEndPoints px ! ((if m_hashCode px \<noteq> -1 then unat (m_hashCode px) else unat (m_sequeue px))
          mod length (m_activeEndPoints px)) \<and> m_hashCode (snd (selectEndPoint px)) = -1"
  using assms by (simp add: selectEndPoint_def Let_def)

lemma selectEndPoint_none: "m_activeEndPoints px = [] \<Longrightarrow> selectEndPoint px = (None, px)"
  by (simp add: selectEndPoint_def)

section \<open>A new list from the registry\<close>

definition ep_addr :: "ServiceProxy \<Rightarrow> nat \<Rightarrow> string \<times> u32" where
  "ep_addr px e = (m_ip (px_eps px e), m_port (px_eps px e))"

lemma take_endpoint_Some:
  "take_endpoint eps ip port all = (Some e, rest) \<Longrightarrow>
     mset all = add_mset e (mset rest) \<and> m_ip (eps e) = ip \<and> m_port (eps e) = port"
  by (induction eps ip port all arbitrary: rest rule: take_endpoint.induct) (auto split: if_splits prod.splits)

lemma take_endpoint_None:
  "take_endpoint eps ip port all = (None, rest) \<Longrightarrow>
     rest = all \<and> (\<forall>e \<in> set all. \<not> (m_ip (eps e) = ip \<and> m_port (eps e) = port))"
  by (induction eps ip port all arbitrary: rest rule: take_endpoint.induct) (auto split: if_splits prod.splits)

text \<open>The loop of \<open>updateEndPoints\<close>: every address of the list becomes one active endpoint, in order; an
  endpoint that had the address is used again, with its connection, and the others are handed back.\<close>

lemma update_loop_ok:
  assumes "update_loop acks all px = (rest, px')" and "\<forall>e \<in> set all. e < px_fresh px"
    and "distinct (map (ep_addr px) all)"
  shows "\<exists>act new. m_activeEndPoints px' = m_activeEndPoints px @ act \<and> map (ep_addr px') act = acks \<and>
    mset act + mset rest = mset all + mset new \<and> (\<forall>e < px_fresh px. px_eps px' e = px_eps px e) \<and>
    (\<forall>e \<in> set new. px_fresh px \<le> e \<and> e < px_fresh px') \<and> px_fresh px \<le> px_fresh px' \<and>
    m_inactiveEndPoints px' = m_inactiveEndPoints px \<and> set rest \<subseteq> set all \<and> (\<forall>e \<in> set rest. ep_addr px e \<notin> set acks)"
  using assms
proof (induction acks all px arbitrary: rest px' rule: update_loop.induct)
  case (2 ip port acks all px)
  show ?case
  proof (cases "take_endpoint (px_eps px) ip port all")
    case (Pair r all')
    show ?thesis
    proof (cases r)
      case (Some e)
      let ?px = "px\<lparr>m_activeEndPoints := m_activeEndPoints px @ [e]\<rparr>"
      have t: "mset all = add_mset e (mset all')" "ep_addr px e = (ip, port)"
        using take_endpoint_Some Pair Some by (force simp: ep_addr_def)+
      have [simp]: "ep_addr ?px = ep_addr px" by (simp add: ep_addr_def fun_eq_iff)
      have set_all: "set all = insert e (set all')" using arg_cong [OF t(1), of set_mset] by simp
      have "distinct (map (ep_addr px) (e # all'))" 
        using 2(5) mset_eq_imp_distinct_iff [of "map (ep_addr px) all" "map (ep_addr px) (e # all')"] t(1) by simp
      then have d: "distinct (map (ep_addr ?px) all')" "\<forall>x \<in> set all'. ep_addr px x \<noteq> (ip, port)" using t(2) by force+
      have "update_loop acks all' ?px = (rest, px')" using 2(3) Pair Some by simp
      from 2(2) [OF Pair [symmetric] Some this _ d(1)] set_all 2(4) obtain act new where IH:
        "m_activeEndPoints px' = m_activeEndPoints px @ e # act" "map (ep_addr px') act = acks"
        "mset act + mset rest = mset all' + mset new" "\<forall>e < px_fresh px. px_eps px' e = px_eps px e"
        "\<forall>e \<in> set new. px_fresh px \<le> e \<and> e < px_fresh px'" "px_fresh px \<le> px_fresh px'"
        "m_inactiveEndPoints px' = m_inactiveEndPoints px" "set rest \<subseteq> set all'" "\<forall>e \<in> set rest. ep_addr px e \<notin> set acks"
        by auto
      have "ep_addr px' e = (ip, port)" using t(2) IH(4) 2(4) set_all by (simp add: ep_addr_def)
      with IH t(1) d(2) set_all show ?thesis
        by - (rule exI [where x = "e # act"], rule exI [where x = new], auto simp: subset_iff)
    next
      case None
      let ?px = "set_ep (px_fresh px) (new_ProxyEndPoint ip port) (px\<lparr>px_fresh := Suc (px_fresh px)\<rparr>)"
      let ?px2 = "?px\<lparr>m_activeEndPoints := m_activeEndPoints ?px @ [px_fresh px]\<rparr>"
      have t: "\<forall>e \<in> set all. ep_addr px e \<noteq> (ip, port)"
        using take_endpoint_None Pair None by (force simp: ep_addr_def)
      have old: "\<forall>e < px_fresh px. ep_addr ?px2 e = ep_addr px e" by (simp add: ep_addr_def set_ep_def)
      have d: "distinct (map (ep_addr ?px2) all)" using 2(4,5) old by (simp cong: map_cong)
      have "update_loop acks all ?px2 = (rest, px')" using 2(3) Pair None by (simp add: Let_def)
      moreover have "\<forall>e \<in> set all. e < px_fresh ?px2" using 2(4) by (auto simp: set_ep_def)
      ultimately obtain act new where IH:
        "m_activeEndPoints px' = m_activeEndPoints px @ px_fresh px # act" "map (ep_addr px') act = acks"
        "mset act + mset rest = mset all + mset new" "\<forall>e < Suc (px_fresh px). px_eps px' e = px_eps ?px e"
        "\<forall>e \<in> set new. Suc (px_fresh px) \<le> e \<and> e < px_fresh px'" "Suc (px_fresh px) \<le> px_fresh px'"
        "m_inactiveEndPoints px' = m_inactiveEndPoints px" "set rest \<subseteq> set all" "\<forall>e \<in> set rest. ep_addr ?px2 e \<notin> set acks"
        using 2(1) [OF Pair [symmetric] None refl refl _ _ d] by (auto simp: set_ep_def)
      have "ep_addr px' (px_fresh px) = (ip, port)" "\<forall>e < px_fresh px. px_eps px' e = px_eps px e"
        using IH(4) by (simp_all add: ep_addr_def set_ep_def new_ProxyEndPoint_def)
      with IH t old 2(4) show ?thesis
        by - (rule exI [where x = "px_fresh px # act"], rule exI [where x = "px_fresh px # new"],
            auto simp: subset_iff Suc_le_eq less_imp_le)
    qed
  qed
qed simp

lemma updateEndPoints_ok:
  fixes ack :: "(string \<times> u32) list" and px :: ServiceProxy
  defines "known \<equiv> m_activeEndPoints px @ m_inactiveEndPoints px" and "px' \<equiv> updateEndPoints ack px"
  assumes "\<forall>e \<in> set known. e < px_fresh px" and "distinct (map (ep_addr px) known)"
  shows "map (ep_addr px') (m_activeEndPoints px') = ack"
    "\<exists>new. mset (m_activeEndPoints px') + mset (m_inactiveEndPoints px') = mset known + mset new \<and>
       (\<forall>e \<in> set new. px_fresh px \<le> e)"
    "\<forall>e \<in> set known. px_eps px' e = px_eps px e"
    "\<forall>e \<in> set (m_inactiveEndPoints px'). e \<in> set known \<and> ep_addr px e \<notin> set ack"
proof -
  let ?px0 = "px\<lparr>m_activeEndPoints := [], m_inactiveEndPoints := []\<rparr>"
  obtain rest px1 where u: "update_loop ack known ?px0 = (rest, px1)" by (cases "update_loop ack known ?px0")
  have [simp]: "ep_addr ?px0 = ep_addr px" by (simp add: ep_addr_def fun_eq_iff)
  from update_loop_ok [OF u] assms(3,4) obtain act new where l:
    "m_activeEndPoints px1 = act" "map (ep_addr px1) act = ack" "mset act + mset rest = mset known + mset new"
    "\<forall>e < px_fresh px. px_eps px1 e = px_eps px e" "\<forall>e \<in> set new. px_fresh px \<le> e"
    "m_inactiveEndPoints px1 = []" "set rest \<subseteq> set known" "\<forall>e \<in> set rest. ep_addr px e \<notin> set ack"
    by auto
  have eq: "px' = px1\<lparr>m_inactiveEndPoints := rest\<rparr>"
    using u l(6) by (simp add: px'_def updateEndPoints_def known_def)
  have [simp]: "ep_addr (px1\<lparr>m_inactiveEndPoints := rest\<rparr>) = ep_addr px1" by (simp add: ep_addr_def fun_eq_iff)
  show "map (ep_addr px') (m_activeEndPoints px') = ack"
    "\<forall>e \<in> set known. px_eps px' e = px_eps px e"
    "\<forall>e \<in> set (m_inactiveEndPoints px'). e \<in> set known \<and> ep_addr px e \<notin> set ack"
    using l assms(3) by (auto simp: eq)
  show "\<exists>new. mset (m_activeEndPoints px') + mset (m_inactiveEndPoints px') = mset known + mset new \<and>
       (\<forall>e \<in> set new. px_fresh px \<le> e)"
    using l by (auto simp: eq)
qed

text \<open>\<open>moveToInactive\<close> moves an active endpoint; for one that is inactive already the second loop
  erases with a foreign iterator.\<close>

lemma moveToInactive_ok:
  assumes "e \<notin> set (m_inactiveEndPoints px)"
  shows "moveToInactive e px = Some (px\<lparr>m_activeEndPoints := remove1 e (m_activeEndPoints px),
    m_inactiveEndPoints := m_inactiveEndPoints px @ [e]\<rparr>)"
  using assms by (simp add: moveToInactive_def)

lemma moveToInactive_undefined: "e \<in> set (m_inactiveEndPoints px) \<Longrightarrow> moveToInactive e px = None"
  by (simp add: moveToInactive_def)

end
