(* ===== verification/Util_Config.thy ===== *)
theory Util_Config
  imports Util_String
begin

text \<open>
  \<open>source/util/util_config.cpp\<close> and \<open>util_config.h\<close>: configuration files. A \<open>CConfig\<close> is a node with
  its items in file order, its key-value pairs and its named sub-configurations; the stack of
  pointers the parser keeps is the path from the root to the open node (the nodes of a
  \<open>std::map\<close> do not move). A line that throws leaves what earlier lines did, so parsing returns
  the outcome and the node.

  Main results: parsing keeps the structural invariant of a node on every input
  (\<open>parseString_wf\<close>), printing and parsing back gives the node (\<open>parse_toString\<close>), and a path
  names the key it spells (\<open>lookup_path\<close>). Assembled paths, \<open>transformPath\<close> included, are
  evaluated as the source does, by replacing characters and splitting at slashes.
\<close>

section \<open>Data\<close>

datatype CConfig =
  CConfig (m_sNodeName: string) (m_vItem: "string list") (m_mKeyValue: "(string, string) std_map")
    (m_mSubConfig: "(string \<times> CConfig) list")

definition new_CConfig :: "string \<Rightarrow> CConfig" where
  "new_CConfig name = CConfig name [] [] []"

fun sub_at :: "CConfig \<Rightarrow> string list \<Rightarrow> CConfig option" where
  "sub_at c [] = Some c"
| "sub_at c (k # ks) = (case sm_find (m_mSubConfig c) k of None \<Rightarrow> None | Some d \<Rightarrow> sub_at d ks)"

fun upd_at :: "string list \<Rightarrow> (CConfig \<Rightarrow> CConfig) \<Rightarrow> CConfig \<Rightarrow> CConfig" where
  "upd_at [] f c = f c"
| "upd_at (k # ks) f c =
     (case sm_find (m_mSubConfig c) k of
        None \<Rightarrow> c
      | Some d \<Rightarrow> CConfig (m_sNodeName c) (m_vItem c) (m_mKeyValue c) (sm_set k (upd_at ks f d) (m_mSubConfig c)))"

section \<open>Parsing\<close>

definition cfg_error :: "string \<Rightarrow> string" where
  "cfg_error msg = ''[util_config]'' @ msg"

text \<open>The three kinds of line, on the node at the top of the stack.\<close>

definition open_section :: "string \<Rightarrow> CConfig \<Rightarrow> CConfig throws" where
  "open_section sKey cfg =
     (if sm_find (m_mKeyValue cfg) sKey \<noteq> None then Inl (cfg_error (''cannot override key: '' @ sKey))
      else if sm_find (m_mSubConfig cfg) sKey \<noteq> None then Inr cfg
      else Inr (CConfig (m_sNodeName cfg) (m_vItem cfg @ [sKey]) (m_mKeyValue cfg)
                  (sm_set sKey (new_CConfig sKey) (m_mSubConfig cfg))))"

definition assign_key :: "string \<Rightarrow> string \<Rightarrow> CConfig \<Rightarrow> CConfig throws" where
  "assign_key sKey sValue cfg =
     (if sm_find (m_mSubConfig cfg) sKey \<noteq> None then Inl (cfg_error (''cannot override subconf: '' @ sKey))
      else Inr (CConfig (m_sNodeName cfg)
                  (if sm_find (m_mKeyValue cfg) sKey = None then m_vItem cfg @ [sKey] else m_vItem cfg)
                  (sm_set sKey sValue (m_mKeyValue cfg)) (m_mSubConfig cfg)))"

definition split_assign :: "string \<Rightarrow> string \<times> string" where
  "split_assign s =
     (case find_char s (CHR ''='') 0 of
        Some pos \<Rightarrow> (trim (take pos s), trim (drop (pos + 1) s))
      | None \<Rightarrow> (s, []))"

definition top_node :: "string list \<Rightarrow> CConfig \<Rightarrow> CConfig" where
  "top_node path cfg = (case sub_at cfg path of Some n \<Rightarrow> n | None \<Rightarrow> new_CConfig [])"

definition parse_line :: "string \<Rightarrow> string list \<Rightarrow> CConfig \<Rightarrow> (string list \<times> CConfig) throws" where
  "parse_line line path cfg =
     (let s = trim line; node = top_node path cfg in
      if s = [] \<or> s ! 0 = CHR ''#'' then Inr (path, cfg)
      else if s ! 0 = CHR ''<'' then
        if length s \<le> 1 \<or> find_char s (CHR ''>'') 0 \<noteq> Some (length s - 1) then Inl (cfg_error (''parse error: '' @ s))
        else if s ! 1 = CHR ''/'' then
          let sKey = substr s 2 (length s - 3) in
          if path = [] \<or> m_sNodeName node \<noteq> sKey then Inl (cfg_error (''key mismatch: '' @ sKey))
          else Inr (butlast path, cfg)
        else
          let sKey = substr s 1 (length s - 2) in
          map_sum id (\<lambda>n. (path @ [sKey], upd_at path (\<lambda>_. n) cfg)) (open_section sKey node)
      else case split_assign s of (sKey, sValue) \<Rightarrow>
        map_sum id (\<lambda>n. (path, upd_at path (\<lambda>_. n) cfg)) (assign_key sKey sValue node))"

fun parse_lines :: "string list \<Rightarrow> string list \<times> CConfig \<Rightarrow> unit throws \<times> CConfig" where
  "parse_lines [] (path, cfg) = (Inr (), cfg)"
| "parse_lines (l # ls) (path, cfg) =
     (case parse_line l path cfg of Inl e \<Rightarrow> (Inl e, cfg) | Inr st \<Rightarrow> parse_lines ls st)"

definition parseString :: "string \<Rightarrow> CConfig \<Rightarrow> unit throws \<times> CConfig" where
  "parseString sData cfg = parse_lines (splitString sData [CHR 0x0D, CHR 0x0A] True) ([], cfg)"

definition parseFile :: "(string \<Rightarrow> string) \<Rightarrow> string \<Rightarrow> CConfig \<Rightarrow> unit throws \<times> CConfig" where
  "parseFile loadFromFile sFile cfg = parseString (loadFromFile sFile) cfg"

section \<open>Printing\<close>

lemma sub_config_size [termination_simp]:
  "sm_find m k = Some d \<Longrightarrow> size d < Suc (size_list (size_prod (\<lambda>_. 0) size) m)"
  by (induction m) (auto simp: sm_find_def split: if_splits)

lemma sub_entry_size [termination_simp]:
  "e \<in> set m \<Longrightarrow> size (snd e) < Suc (size_list (size_prod (\<lambda>_. 0) size) m)"
  by (induction m) auto

definition newline :: string where
  "newline = [CHR 0x0A]"

function toString :: "u32 \<Rightarrow> CConfig \<Rightarrow> string" where
  "toString iIndent cfg =
     (let sTab = repeat ''  '' iIndent in
      concat (map (\<lambda>sKey.
        case sm_find (m_mKeyValue cfg) sKey of
          Some v \<Rightarrow> sTab @ sKey @ '' = '' @ v @ newline
        | None \<Rightarrow>
            (case sm_find (m_mSubConfig cfg) sKey of
               Some d \<Rightarrow> sTab @ ''<'' @ sKey @ ''>'' @ newline @ toString (iIndent + 1) d @
                 sTab @ ''</'' @ sKey @ ''>'' @ newline
             | None \<Rightarrow> [])) (m_vItem cfg)))"
  by pat_completeness auto
termination
proof (relation "measure (\<lambda>(i, c). size c)")
  fix iIndent cfg x z and d :: CConfig
  assume "sm_find (m_mSubConfig cfg) z = Some d"
  then show "((iIndent + 1, d), iIndent, cfg) \<in> measure (\<lambda>(i, c). size c)"
    by (cases cfg) (auto dest: sub_config_size)
qed simp

declare toString.simps [simp del]

section \<open>Lookup\<close>

definition transformPath :: "string \<Rightarrow> string" where
  "transformPath sPath = replace (replace sPath ''<'' ''/'') ''>'' []"

definition getSubConfigPtr :: "string \<Rightarrow> CConfig \<Rightarrow> CConfig option" where
  "getSubConfigPtr sPath0 cfg = sub_at cfg (splitString (transformPath sPath0) ''/'' True)"

definition getConfigKeyPtr :: "string \<Rightarrow> CConfig \<Rightarrow> string option" where
  "getConfigKeyPtr sPath0 cfg =
     (let sPath = transformPath sPath0;
          (pcfg, sKey) =
            (case rfind_char sPath (CHR ''/'') of
               None \<Rightarrow> (Some cfg, sPath)
             | Some pos \<Rightarrow> (getSubConfigPtr (take pos sPath) cfg, drop (pos + 1) sPath)) in
      case pcfg of None \<Rightarrow> None | Some p \<Rightarrow> sm_find (m_mKeyValue p) sKey)"

definition hasConfigKey :: "string \<Rightarrow> CConfig \<Rightarrow> bool" where
  "hasConfigKey sPath cfg = (getConfigKeyPtr sPath cfg \<noteq> None)"

definition hasSubConfig :: "string \<Rightarrow> CConfig \<Rightarrow> bool" where
  "hasSubConfig sPath cfg = (getSubConfigPtr sPath cfg \<noteq> None)"

definition getCfg :: "string \<Rightarrow> CConfig \<Rightarrow> string throws" where
  "getCfg sPath cfg =
     (case getConfigKeyPtr sPath cfg of None \<Rightarrow> Inl (cfg_error (''config key missing: '' @ sPath)) | Some v \<Rightarrow> Inr v)"

definition getCfg_def_str :: "string \<Rightarrow> string \<Rightarrow> CConfig \<Rightarrow> string" where
  "getCfg_def_str sPath sDefault cfg = (case getConfigKeyPtr sPath cfg of None \<Rightarrow> sDefault | Some v \<Rightarrow> v)"

definition getCfg_u32 :: "string \<Rightarrow> CConfig \<Rightarrow> u32 throws" where
  "getCfg_u32 sPath cfg = map_sum id strto_u32 (getCfg sPath cfg)"

definition getCfg_def_u32 :: "string \<Rightarrow> u32 \<Rightarrow> CConfig \<Rightarrow> u32" where
  "getCfg_def_u32 sPath d cfg = (case getConfigKeyPtr sPath cfg of None \<Rightarrow> d | Some v \<Rightarrow> strto_u32 v)"

definition getSubConfig :: "string \<Rightarrow> CConfig \<Rightarrow> CConfig throws" where
  "getSubConfig sPath cfg =
     (case getSubConfigPtr sPath cfg of
        None \<Rightarrow> Inl (cfg_error (''config subconf missing: '' @ sPath)) | Some d \<Rightarrow> Inr d)"

definition getAllItem :: "string \<Rightarrow> CConfig \<Rightarrow> string list throws" where
  "getAllItem sPath cfg = map_sum id m_vItem (getSubConfig sPath cfg)"

definition getAllKeyValue :: "string \<Rightarrow> CConfig \<Rightarrow> (string, string) std_map throws" where
  "getAllKeyValue sPath cfg = map_sum id m_mKeyValue (getSubConfig sPath cfg)"

definition getAllSubConfig :: "string \<Rightarrow> CConfig \<Rightarrow> (string \<times> CConfig) list throws" where
  "getAllSubConfig sPath cfg = map_sum id m_mSubConfig (getSubConfig sPath cfg)"

text \<open>\<open>joinConfig\<close> clears the node before it prints it.\<close>

definition joinConfig :: "CConfig \<Rightarrow> CConfig \<Rightarrow> unit throws \<times> CConfig" where
  "joinConfig config cfg =
     (let this = CConfig (m_sNodeName cfg) [] [] [] in
      parseString (toString 0 this @ toString 0 config) this)"

section \<open>The invariant of a node\<close>

text \<open>The items are the keys and the section names, each once; a section carries the name it is
  stored under.\<close>

fun cfg_wf :: "CConfig \<Rightarrow> bool" where
  "cfg_wf (CConfig name items kv sub) \<longleftrightarrow>
     distinct items \<and> set items = fst ` set kv \<union> fst ` set sub \<and> fst ` set kv \<inter> fst ` set sub = {} \<and> sm_wf kv \<and> sm_wf sub \<and>
     (\<forall>e \<in> set sub. m_sNodeName (snd e) = fst e \<and> cfg_wf (snd e))"

lemma cfg_wf_iff:
  "cfg_wf c \<longleftrightarrow> distinct (m_vItem c) \<and> set (m_vItem c) = fst ` set (m_mKeyValue c) \<union> fst ` set (m_mSubConfig c) \<and>
     fst ` set (m_mKeyValue c) \<inter> fst ` set (m_mSubConfig c) = {} \<and> sm_wf (m_mKeyValue c) \<and> sm_wf (m_mSubConfig c) \<and>
     (\<forall>e \<in> set (m_mSubConfig c). m_sNodeName (snd e) = fst e \<and> cfg_wf (snd e))"
  by (cases c) simp

lemma new_CConfig_wf [simp]: "cfg_wf (new_CConfig k)" "m_sNodeName (new_CConfig k) = k"
  by (simp_all add: new_CConfig_def)

lemma sub_at_append: "sub_at c (p @ q) = (case sub_at c p of None \<Rightarrow> None | Some d \<Rightarrow> sub_at d q)"
  by (induction c p rule: sub_at.induct) (auto split: option.splits)

lemma upd_at_name: "(\<And>n. m_sNodeName (f n) = m_sNodeName n) \<Longrightarrow> m_sNodeName (upd_at p f c) = m_sNodeName c"
  by (cases p) (auto split: option.splits)

lemma sub_at_wf: "cfg_wf c \<Longrightarrow> sub_at c p = Some n \<Longrightarrow> cfg_wf n"
proof (induction c p rule: sub_at.induct)
  case (2 c k ks)
  then obtain d where d: "sm_find (m_mSubConfig c) k = Some d" "sub_at d ks = Some n" by (auto split: option.splits)
  then have "cfg_wf d" using 2(2) sm_find_entry [OF d(1)] by (auto simp: cfg_wf_iff [of c])
  with 2(1) d show ?case by blast
qed simp

lemma set_sub_wf:
  assumes "cfg_wf c" and "cfg_wf d" and "m_sNodeName d = k" and "distinct items" and "set items = insert k (set (m_vItem c))"
    and "k \<notin> fst ` set (m_mKeyValue c)"
  shows "cfg_wf (CConfig name items (m_mKeyValue c) (sm_set k d (m_mSubConfig c)))"
proof -
  have "\<forall>e \<in> set (sm_set k d (m_mSubConfig c)). m_sNodeName (snd e) = fst e \<and> cfg_wf (snd e)"
    by (rule ball_sm_set) (use assms in \<open>simp_all add: cfg_wf_iff [of c]\<close>)
  then show ?thesis using assms by (simp add: cfg_wf_iff [of c] sm_set_keys)
qed

lemma set_entry_wf:
  assumes "cfg_wf c" and "sm_find (m_mSubConfig c) k \<noteq> None" and "cfg_wf d" and "m_sNodeName d = k"
  shows "cfg_wf (CConfig (m_sNodeName c) (m_vItem c) (m_mKeyValue c) (sm_set k d (m_mSubConfig c)))"
proof (rule set_sub_wf [OF assms(1,3,4)])
  have "k \<in> fst ` set (m_mSubConfig c)" using assms(2) by (simp add: sm_find_None)
  with assms(1) show "set (m_vItem c) = insert k (set (m_vItem c))" "k \<notin> fst ` set (m_mKeyValue c)"
    unfolding cfg_wf_iff [of c] by blast+
qed (use assms(1) in \<open>simp add: cfg_wf_iff [of c]\<close>)

lemma upd_at_wf:
  assumes "cfg_wf c" and "sub_at c p = Some n" and "cfg_wf (f n)" and "\<And>n. m_sNodeName (f n) = m_sNodeName n"
  shows "cfg_wf (upd_at p f c)"
  using assms(1,2)
proof (induction p arbitrary: c)
  case Nil
  then show ?case using assms(3) by simp
next
  case (Cons k p)
  then obtain d where d: "sm_find (m_mSubConfig c) k = Some d" "sub_at d p = Some n" by (auto split: option.splits)
  have "cfg_wf d" "m_sNodeName d = k" using Cons.prems(1) sm_find_entry [OF d(1)] by (auto simp: cfg_wf_iff [of c])
  then show ?case
    using Cons.IH [OF _ d(2)] set_entry_wf [OF Cons.prems(1), of k "upd_at p f d"] d(1) upd_at_name [OF assms(4), of p d]
    by simp
qed

lemma sub_at_upd: "sub_at c p = Some n \<Longrightarrow> sub_at (upd_at p f c) (p @ q) = sub_at (f n) q"
  by (induction p arbitrary: c) (auto split: option.splits)

lemma upd_at_const: "sub_at c p = Some n \<Longrightarrow> upd_at p f c = upd_at p (\<lambda>_. f n) c"
  by (induction p arbitrary: c) (auto split: option.splits)

section \<open>Parsing keeps the invariant\<close>

definition parse_ok :: "string list \<times> CConfig \<Rightarrow> bool" where
  "parse_ok st \<longleftrightarrow> cfg_wf (snd st) \<and> sub_at (snd st) (fst st) \<noteq> None"

lemma open_section_wf:
  assumes "open_section k n = Inr n'" and "cfg_wf n"
  shows "cfg_wf n' \<and> m_sNodeName n' = m_sNodeName n \<and> sm_find (m_mSubConfig n') k \<noteq> None"
proof (cases "sm_find (m_mSubConfig n) k")
  case None
  then have k: "k \<notin> fst ` set (m_mKeyValue n)" "k \<notin> fst ` set (m_mSubConfig n)"
    "n' = CConfig (m_sNodeName n) (m_vItem n @ [k]) (m_mKeyValue n) (sm_set k (new_CConfig k) (m_mSubConfig n))"
    using assms(1) by (auto simp: open_section_def sm_find_None split: if_splits)
  then show ?thesis
    using set_sub_wf [OF assms(2) new_CConfig_wf(1) new_CConfig_wf(2), of "m_vItem n @ [k]"] assms(2)
    by (simp add: cfg_wf_iff [of n] del: cfg_wf.simps)
qed (use assms in \<open>auto simp: open_section_def split: if_splits\<close>)

lemma assign_key_wf:
  assumes "assign_key k v n = Inr n'" and "cfg_wf n"
  shows "cfg_wf n' \<and> m_sNodeName n' = m_sNodeName n"
proof (cases "k \<in> fst ` set (m_mKeyValue n)")
  case True
  then have "sm_find (m_mKeyValue n) k \<noteq> None" "insert k (fst ` set (m_mKeyValue n)) = fst ` set (m_mKeyValue n)"
    by (simp add: sm_find_None, rule insert_absorb)
  then have "fst ` set (sm_set k v (m_mKeyValue n)) = fst ` set (m_mKeyValue n)"
    "n' = CConfig (m_sNodeName n) (m_vItem n) (sm_set k v (m_mKeyValue n)) (m_mSubConfig n)"
    using assms(1) by (auto simp: assign_key_def sm_set_keys split: if_splits)
  then show ?thesis using assms(2) [unfolded cfg_wf_iff [of n]] by simp
next
  case False
  then have "n' = CConfig (m_sNodeName n) (m_vItem n @ [k]) (sm_set k v (m_mKeyValue n)) (m_mSubConfig n)"
    "k \<notin> fst ` set (m_mSubConfig n)"
    using assms(1) by (auto simp: assign_key_def sm_find_None split: if_splits)
  with False assms(2) show ?thesis by (simp add: cfg_wf_iff [of n] sm_set_keys)
qed

lemma upd_top_ok:
  assumes "parse_ok (path, cfg)" and "cfg_wf n" and "m_sNodeName n = m_sNodeName (top_node path cfg)"
  shows "parse_ok (path, upd_at path (\<lambda>_. n) cfg)"
    "sm_find (m_mSubConfig n) k \<noteq> None \<Longrightarrow> parse_ok (path @ [k], upd_at path (\<lambda>_. n) cfg)"
proof -
  obtain m where m: "sub_at cfg path = Some m" "cfg_wf cfg" using assms(1) by (auto simp: parse_ok_def)
  let ?f = "\<lambda>x. if m_sNodeName x = m_sNodeName m then n else x"
  have eq: "upd_at path ?f cfg = upd_at path (\<lambda>_. n) cfg" using upd_at_const [OF m(1), of ?f] by simp
  have "cfg_wf (upd_at path ?f cfg)"
    by (rule upd_at_wf [OF m(2,1)]) (use assms m in \<open>auto simp: top_node_def\<close>)
  then have wf: "cfg_wf (upd_at path (\<lambda>_. n) cfg)" by (simp only: eq)
  show "parse_ok (path, upd_at path (\<lambda>_. n) cfg)"
    using wf sub_at_upd [OF m(1), of "\<lambda>_. n" "[]"] by (simp add: parse_ok_def)
  show "parse_ok (path @ [k], upd_at path (\<lambda>_. n) cfg)" if "sm_find (m_mSubConfig n) k \<noteq> None"
    using wf that sub_at_upd [OF m(1), of "\<lambda>_. n" "[k]"] by (auto simp: parse_ok_def)
qed

lemma top_node_wf: "parse_ok (path, cfg) \<Longrightarrow> cfg_wf (top_node path cfg)"
  by (auto simp: parse_ok_def top_node_def intro: sub_at_wf)

lemma parse_line_ok:
  assumes "parse_line l path cfg = Inr st" and "parse_ok (path, cfg)"
  shows "parse_ok st"
proof -
  note t = top_node_wf [OF assms(2)] and u = upd_top_ok [OF assms(2)]
  have pop: "parse_ok (butlast path, cfg)"
  proof (cases path rule: rev_cases)
    case (snoc p k)
    then show ?thesis using assms(2) by (auto simp: parse_ok_def sub_at_append split: option.splits)
  qed (use assms(2) in simp)
  have o: "parse_ok (path @ [k], upd_at path (\<lambda>_. n) cfg)" if "open_section k (top_node path cfg) = Inr n" for k n
    using u(2) [of n k] open_section_wf [OF that t] by simp
  have a: "parse_ok (path, upd_at path (\<lambda>_. n) cfg)" if "assign_key k v (top_node path cfg) = Inr n" for k v n
    using u(1) [of n] assign_key_wf [OF that t] by simp
  have ms: "map_sum id g x = Inr y \<Longrightarrow> \<exists>n. x = Inr n \<and> y = g n" for g :: "CConfig \<Rightarrow> string list \<times> CConfig" and x :: "CConfig throws" and y
    by (cases x) auto
  show ?thesis
    using assms(1) assms(2) pop o a by (auto simp: parse_line_def Let_def split: if_splits prod.splits dest!: ms)
qed

lemma parse_lines_wf: "parse_ok st \<Longrightarrow> cfg_wf (snd (parse_lines ls st))"
proof (induction ls st rule: parse_lines.induct)
  case (2 l ls path cfg)
  then show ?case using parse_line_ok [OF _ 2(2)] by (auto simp: parse_ok_def split: sum.splits)
qed (simp add: parse_ok_def)

lemma parseString_wf: "cfg_wf cfg \<Longrightarrow> cfg_wf (snd (parseString s cfg))"
  by (simp add: parseString_def parse_lines_wf parse_ok_def)

section \<open>Lines\<close>

abbreviation crlf :: string where
  "crlf \<equiv> [CHR 0x0D, CHR 0x0A]"

definition one_line :: "string \<Rightarrow> bool" where
  "one_line s \<longleftrightarrow> set s \<inter> set crlf = {}"

definition key_ok :: "string \<Rightarrow> bool" where
  "key_ok k \<longleftrightarrow> k \<noteq> [] \<and> trimmed k \<and> k ! 0 \<noteq> CHR ''#'' \<and> k ! 0 \<noteq> CHR ''<'' \<and> CHR ''='' \<notin> set k \<and> one_line k"

definition val_ok :: "string \<Rightarrow> bool" where
  "val_ok v \<longleftrightarrow> trimmed v \<and> one_line v"

definition name_ok :: "string \<Rightarrow> bool" where
  "name_ok k \<longleftrightarrow> CHR ''>'' \<notin> set k \<and> (k \<noteq> [] \<longrightarrow> k ! 0 \<noteq> CHR ''/'') \<and> one_line k"

fun printable :: "CConfig \<Rightarrow> bool" where
  "printable (CConfig name items kv sub) \<longleftrightarrow>
     (\<forall>(k, v) \<in> set kv. key_ok k \<and> val_ok v) \<and> (\<forall>e \<in> set sub. name_ok (fst e) \<and> printable (snd e))"

lemma printable_iff:
  "printable c \<longleftrightarrow> (\<forall>(k, v) \<in> set (m_mKeyValue c). key_ok k \<and> val_ok v) \<and>
     (\<forall>e \<in> set (m_mSubConfig c). name_ok (fst e) \<and> printable (snd e))"
  by (cases c) simp

lemma set_repeat: "set (repeat s n) \<subseteq> set s"
proof -
  have "set (repeat_loop m s r) \<subseteq> set r \<union> set s" for m r
    by (induction m arbitrary: r) (force+)
  then show ?thesis by (force simp: repeat_def)
qed

lemma space_facts [simp]: "isspace (CHR '' '')" "\<not> isspace (CHR ''='')" "\<not> isspace (CHR ''<'')" "\<not> isspace (CHR ''>'')"
  by (simp_all add: isspace_def)

lemma trim_indent: "trimmed s \<Longrightarrow> trim (repeat ''  '' n @ s) = s" "trimmed s \<Longrightarrow> trim (repeat ''  '' n @ s @ '' '') = s"
proof -
  have sp: "\<forall>c \<in> set (repeat ''  '' n). isspace c" using set_repeat [of "''  ''" n] by auto
  show "trimmed s \<Longrightarrow> trim (repeat ''  '' n @ s) = s" "trimmed s \<Longrightarrow> trim (repeat ''  '' n @ s @ '' '') = s"
    using trim_pad [OF _ sp, of s "[]"] trim_pad [OF _ sp, of s "'' ''"] by simp_all
qed

lemma find_char_at: "c \<notin> set x \<Longrightarrow> find_char (x @ c # y) c 0 = Some (length x)"
  by (induction x) (auto simp: find_char_def)

lemma split_assign_line:
  assumes "key_ok k" and "val_ok v"
  shows "split_assign (trim (k @ '' = '' @ v)) = (k, v)" "trimmed (trim (k @ '' = '' @ v))"
    "trim (k @ '' = '' @ v) \<noteq> []" "trim (k @ '' = '' @ v) ! 0 = k ! 0"
    "trim (repeat ''  '' n @ k @ '' = '' @ v) = trim (k @ '' = '' @ v)"
proof -
  have k: "k \<noteq> []" "trimmed k" "CHR ''='' \<notin> set k" and v: "trimmed v" using assms by (auto simp: key_ok_def val_ok_def)
  have t: "trimmed (k @ '' ='')" "v \<noteq> [] \<Longrightarrow> trimmed (k @ '' = '' @ v)"
    using k v by (auto simp: trimmed_def)
  have e: "trim (k @ '' = '' @ v) = (if v = [] then k @ '' ='' else k @ '' = '' @ v)"
    using t trim_pad [OF t(1), of "[]" "'' ''"] by simp
  have f: "find_char (k @ CHR '' '' # CHR ''='' # y) (CHR ''='') 0 = Some (Suc (length k))" for y
    using find_char_at [of "CHR ''=''" "k @ '' ''" y] k(3) by simp
  have "trim (k @ '' '') = k" "trim (CHR '' '' # v) = v"
    using trim_pad [OF k(2), of "[]" "'' ''"] trim_pad [OF v, of "'' ''" "[]"] by simp_all
  then show "split_assign (trim (k @ '' = '' @ v)) = (k, v)"
    unfolding e using trim_trimmed [of "[]"] by (simp add: split_assign_def f trimmed_def)
  show "trim (repeat ''  '' n @ k @ '' = '' @ v) = trim (k @ '' = '' @ v)"
    unfolding e using trim_indent(2) [OF t(1)] trim_indent(1) [OF t(2)] by (cases "v = []") simp_all
  show "trimmed (trim (k @ '' = '' @ v))" by simp
  show "trim (k @ '' = '' @ v) \<noteq> []" "trim (k @ '' = '' @ v) ! 0 = k ! 0"
    unfolding e using k(1) by (auto simp: nth_append)
qed

lemma top_node_at: "sub_at c path = Some t \<Longrightarrow> top_node path c = t"
  by (simp add: top_node_def)

lemma parse_assign:
  assumes "key_ok k" and "val_ok v"
  shows "parse_line (repeat ''  '' n @ k @ '' = '' @ v) path c =
    map_sum id (\<lambda>m. (path, upd_at path (\<lambda>_. m) c)) (assign_key k v (top_node path c))"
  using assms split_assign_line(1-4) [OF assms] split_assign_line(5) [OF assms, of n] unfolding parse_line_def Let_def
  by (simp add: key_ok_def)

lemma parse_open:
  assumes "name_ok k"
  shows "parse_line (repeat ''  '' n @ ''<'' @ k @ ''>'') path c =
    map_sum id (\<lambda>m. (path @ [k], upd_at path (\<lambda>_. m) c)) (open_section k (top_node path c))"
proof -
  have "trimmed (''<'' @ k @ ''>'')" by (simp add: trimmed_def)
  then have t: "trim (repeat ''  '' n @ ''<'' @ k @ ''>'') = ''<'' @ k @ ''>''" by (rule trim_indent)
  have f: "find_char (''<'' @ k @ ''>'') (CHR ''>'') 0 = Some (Suc (length k))"
    using find_char_at [of "CHR ''>''" "''<'' @ k" "[]"] assms by (simp add: name_ok_def)
  have "(''<'' @ k @ ''>'') ! 1 \<noteq> CHR ''/''"
    using assms by (cases k) (auto simp: name_ok_def)
  then show ?thesis
    unfolding parse_line_def Let_def t using f by (simp add: substr_def)
qed

lemma parse_close:
  assumes "name_ok k" and "path \<noteq> []" and "m_sNodeName (top_node path c) = k"
  shows "parse_line (repeat ''  '' n @ ''</'' @ k @ ''>'') path c = Inr (butlast path, c)"
proof -
  have "trimmed (''</'' @ k @ ''>'')" by (simp add: trimmed_def)
  then have t: "trim (repeat ''  '' n @ ''</'' @ k @ ''>'') = ''</'' @ k @ ''>''" by (rule trim_indent)
  have f: "find_char (''</'' @ k @ ''>'') (CHR ''>'') 0 = Some (Suc (Suc (length k)))"
    using find_char_at [of "CHR ''>''" "''</'' @ k" "[]"] assms(1) by (simp add: name_ok_def)
  show ?thesis
    unfolding parse_line_def Let_def t using f assms(2,3) by (simp add: substr_def)
qed

section \<open>Parsing a text line by line\<close>

definition parse_text :: "string \<Rightarrow> string list \<times> CConfig \<Rightarrow> unit throws \<times> CConfig" where
  "parse_text s st = parse_lines (splitString s crlf True) st"

lemma parseString_text: "parseString s c = parse_text s ([], c)"
  by (simp add: parseString_def parse_text_def)

lemma parse_text_line:
  assumes "one_line l" and "l \<noteq> []"
  shows "parse_text (l @ newline @ rest) (path, c) =
    (case parse_line l path c of Inl e \<Rightarrow> (Inl e, c) | Inr st \<Rightarrow> parse_text rest st)"
proof -
  have "\<forall>x \<in> set l. x \<notin> set crlf" using assms(1) by (auto simp: one_line_def)
  then have "field_list (\<lambda>x. x \<in> set crlf) (l @ CHR 0x0A # rest) = l # field_list (\<lambda>x. x \<in> set crlf) rest"
    by (rule fields_sep) simp
  then show ?thesis using assms(2) by (simp add: parse_text_def splitString_fields newline_def strip_def split: sum.split)
qed

lemma one_line_append [simp]: "one_line (x @ y) \<longleftrightarrow> one_line x \<and> one_line y"
  by (auto simp: one_line_def)

lemma one_line_indent [simp]: "one_line (repeat ''  '' n)"
  using set_repeat [of "''  ''" n] by (auto simp: one_line_def)

section \<open>Printing and parsing back\<close>

definition add_item :: "CConfig \<Rightarrow> string \<Rightarrow> CConfig \<Rightarrow> CConfig" where
  "add_item d k t =
     (case sm_find (m_mKeyValue d) k of
        Some v \<Rightarrow> CConfig (m_sNodeName t) (m_vItem t @ [k]) (sm_set k v (m_mKeyValue t)) (m_mSubConfig t)
      | None \<Rightarrow>
          (case sm_find (m_mSubConfig d) k of
             Some x \<Rightarrow> CConfig (m_sNodeName t) (m_vItem t @ [k]) (m_mKeyValue t) (sm_set k x (m_mSubConfig t))
           | None \<Rightarrow> t))"

definition item_text :: "u32 \<Rightarrow> CConfig \<Rightarrow> string \<Rightarrow> string" where
  "item_text n d k =
     (case sm_find (m_mKeyValue d) k of
        Some v \<Rightarrow> (repeat ''  '' n @ k @ '' = '' @ v) @ newline
      | None \<Rightarrow>
          (case sm_find (m_mSubConfig d) k of
             Some x \<Rightarrow> (repeat ''  '' n @ ''<'' @ k @ ''>'') @ newline @ toString (n + 1) x @
               (repeat ''  '' n @ ''</'' @ k @ ''>'') @ newline
           | None \<Rightarrow> []))"

lemma toString_items: "toString n d = concat (map (item_text n d) (m_vItem d))"
  by (subst toString.simps) (simp add: Let_def item_text_def [abs_def] cong: option.case_cong)

text \<open>Adding all items of a node to an empty one of its name gives the node.\<close>

lemma add_items:
  assumes "cfg_wf d" and "set ks \<subseteq> set (m_vItem d)"
  shows "\<exists>kv sub. fold (add_item d) ks (new_CConfig name) = CConfig name ks kv sub \<and> sm_wf kv \<and> sm_wf sub \<and>
    sm_find kv = (\<lambda>k. if k \<in> set ks then sm_find (m_mKeyValue d) k else None) \<and>
    sm_find sub = (\<lambda>k. if k \<in> set ks then sm_find (m_mSubConfig d) k else None)"
  using assms(2)
proof (induction ks rule: rev_induct)
  case Nil
  then show ?case by (auto simp: new_CConfig_def sm_find_def)
next
  case (snoc k ks)
  then obtain kv sub where IH: "fold (add_item d) ks (new_CConfig name) = CConfig name ks kv sub" "sm_wf kv" "sm_wf sub"
    "sm_find kv = (\<lambda>k. if k \<in> set ks then sm_find (m_mKeyValue d) k else None)"
    "sm_find sub = (\<lambda>k. if k \<in> set ks then sm_find (m_mSubConfig d) k else None)" by auto
  have k: "k \<in> fst ` set (m_mKeyValue d) \<union> fst ` set (m_mSubConfig d)"
    "fst ` set (m_mKeyValue d) \<inter> fst ` set (m_mSubConfig d) = {}"
    using snoc.prems assms(1) by (auto simp: cfg_wf_iff [of d])
  show ?case
  proof (cases "sm_find (m_mKeyValue d) k")
    case (Some v)
    then have "sm_find (m_mSubConfig d) k = None" using k sm_find_entry [OF Some] by (force simp: sm_find_None)
    with Some IH(1) have "fold (add_item d) (ks @ [k]) (new_CConfig name) = CConfig name (ks @ [k]) (sm_set k v kv) sub"
      by (simp add: add_item_def [of d k])
    with IH(2-5) Some \<open>sm_find (m_mSubConfig d) k = None\<close> show ?thesis by (auto simp: fun_eq_iff)
  next
    case None
    then obtain x where x: "sm_find (m_mSubConfig d) k = Some x"
      using k(1) by (cases "sm_find (m_mSubConfig d) k") (simp_all add: sm_find_None)
    with None IH(1) have "fold (add_item d) (ks @ [k]) (new_CConfig name) = CConfig name (ks @ [k]) kv (sm_set k x sub)"
      by (simp add: add_item_def [of d k])
    with IH(2-5) None x show ?thesis by (auto simp: fun_eq_iff)
  qed
qed

lemma rebuild: "cfg_wf d \<Longrightarrow> fold (add_item d) (m_vItem d) (new_CConfig (m_sNodeName d)) = d"
proof -
  assume wf: "cfg_wf d"
  obtain kv sub where r: "fold (add_item d) (m_vItem d) (new_CConfig (m_sNodeName d)) = CConfig (m_sNodeName d) (m_vItem d) kv sub"
    "sm_wf kv" "sm_wf sub" "sm_find kv = (\<lambda>k. if k \<in> set (m_vItem d) then sm_find (m_mKeyValue d) k else None)"
    "sm_find sub = (\<lambda>k. if k \<in> set (m_vItem d) then sm_find (m_mSubConfig d) k else None)"
    using add_items [OF wf, of "m_vItem d" "m_sNodeName d"] by auto
  have items: "k \<notin> set (m_vItem d) \<Longrightarrow> sm_find (m_mKeyValue d) k = None \<and> sm_find (m_mSubConfig d) k = None" for k
    using wf by (simp add: cfg_wf_iff [of d] sm_find_None)
  have "kv = m_mKeyValue d" "sub = m_mSubConfig d"
    using wf r items by (auto simp: cfg_wf_iff [of d] fun_eq_iff intro!: sm_ext)
  then show ?thesis using r(1) by simp
qed

lemma upd_at_upd:
  "cfg_wf c \<Longrightarrow> sub_at c p = Some n \<Longrightarrow> upd_at p g (upd_at p f c) = upd_at p (\<lambda>m. g (f m)) c"
proof (induction p arbitrary: c)
  case (Cons k p)
  then obtain d where d: "sm_find (m_mSubConfig c) k = Some d" "sub_at d p = Some n" by (auto split: option.splits)
  have "cfg_wf d" "sm_wf (m_mSubConfig c)" using Cons.prems(1) sm_find_entry [OF d(1)] by (auto simp: cfg_wf_iff [of c])
  with Cons.IH [OF _ d(2)] d(1) show ?case by (simp add: sm_set_twice)
qed simp

lemma upd_at_snoc: "sub_at c p = Some t \<Longrightarrow> upd_at (p @ [k]) f c = upd_at p (\<lambda>_. upd_at [k] f t) c"
  by (induction p arbitrary: c) (auto split: option.splits)

lemma add_item_name: "m_sNodeName (add_item d k t) = m_sNodeName t"
  by (auto simp: add_item_def split: option.splits)

lemma item_entry:
  assumes "cfg_wf d" and "printable d" and "k \<in> set (m_vItem d)"
  obtains (key) v where "sm_find (m_mKeyValue d) k = Some v" "key_ok k" "val_ok v"
  | (subconf) x where "sm_find (m_mKeyValue d) k = None" "sm_find (m_mSubConfig d) k = Some x" "name_ok k"
      "cfg_wf x" "printable x" "m_sNodeName x = k"
proof (cases "sm_find (m_mKeyValue d) k")
  case (Some v)
  then show thesis using key sm_find_entry [OF Some] assms(2) by (auto simp: printable_iff [of d])
next
  case None
  then have "k \<in> fst ` set (m_mSubConfig d)" using assms(1,3) by (simp add: cfg_wf_iff [of d] sm_find_None)
  then obtain x where x: "sm_find (m_mSubConfig d) k = Some x"
    by (cases "sm_find (m_mSubConfig d) k") (simp_all add: sm_find_None)
  have "name_ok k" "cfg_wf x" "printable x" "m_sNodeName x = k"
    using sm_find_entry [OF x] assms(1,2) unfolding printable_iff [of d] cfg_wf_iff [of d] by force+
  with None x subconf show thesis by blast
qed

lemma add_item_wf:
  assumes "cfg_wf t" and "k \<notin> set (m_vItem t)" and "sm_find (m_mKeyValue d) k = None \<Longrightarrow>
    \<forall>x. sm_find (m_mSubConfig d) k = Some x \<longrightarrow> cfg_wf x \<and> m_sNodeName x = k"
  shows "cfg_wf (add_item d k t)"
proof (cases "sm_find (m_mKeyValue d) k")
  case (Some v)
  then show ?thesis using assms(1,2) by (auto simp: add_item_def cfg_wf_iff [of t] sm_set_keys)
next
  case None
  have "k \<notin> fst ` set (m_mKeyValue t)" "distinct (m_vItem t @ [k])" using assms(1,2) by (simp_all add: cfg_wf_iff [of t])
  with None assms show ?thesis
    using set_sub_wf [OF assms(1), of _ k "m_vItem t @ [k]"] by (auto simp: add_item_def simp del: cfg_wf.simps split: option.split)
qed

definition reads_back :: "CConfig \<Rightarrow> bool" where
  "reads_back d \<longleftrightarrow> (\<forall>n path c t rest. cfg_wf c \<longrightarrow> sub_at c path = Some t \<longrightarrow> set (m_vItem d) \<inter> set (m_vItem t) = {} \<longrightarrow>
     parse_text (toString n d @ rest) (path, c) = parse_text rest (path, upd_at path (fold (add_item d) (m_vItem d)) c))"

lemma fresh_item: "cfg_wf t \<Longrightarrow> k \<notin> set (m_vItem t) \<Longrightarrow> sm_find (m_mKeyValue t) k = None \<and> sm_find (m_mSubConfig t) k = None"
  by (simp add: cfg_wf_iff [of t] sm_find_None)

lemma parse_item:
  assumes d: "cfg_wf d" "printable d" "k \<in> set (m_vItem d)" and c: "cfg_wf c" "sub_at c path = Some t" "k \<notin> set (m_vItem t)"
    and sub: "\<And>x. sm_find (m_mSubConfig d) k = Some x \<Longrightarrow> cfg_wf x \<Longrightarrow> printable x \<Longrightarrow> reads_back x"
  shows "parse_text (item_text n d k @ rest) (path, c) = parse_text rest (path, upd_at path (add_item d k) c)"
proof -
  note fresh = fresh_item [OF sub_at_wf [OF c(1,2)] c(3)]
  from d show ?thesis
  proof (cases rule: item_entry)
    case (key v)
    have "one_line (repeat ''  '' n @ k @ '' = '' @ v)" "repeat ''  '' n @ k @ '' = '' @ v \<noteq> []"
      using key by (auto simp: key_ok_def val_ok_def) (simp add: one_line_def)
    from parse_text_line [OF this] have "parse_text (item_text n d k @ rest) (path, c) =
        parse_text rest (path, upd_at path (\<lambda>_. add_item d k t) c)"
      using key fresh parse_assign [OF key(2,3), of n path c] top_node_at [OF c(2)]
      by (simp add: item_text_def assign_key_def add_item_def)
    then show ?thesis using upd_at_const [OF c(2), of "add_item d k"] by simp
  next
    case (subconf x)
    let ?open = "repeat ''  '' n @ ''<'' @ k @ ''>''" and ?close = "repeat ''  '' n @ ''</'' @ k @ ''>''"
    let ?t1 = "CConfig (m_sNodeName t) (m_vItem t @ [k]) (m_mKeyValue t) (sm_set k (new_CConfig k) (m_mSubConfig t))"
    let ?c1 = "upd_at path (\<lambda>_. ?t1) c"
    have ol: "one_line ?open" "?open \<noteq> []" "one_line ?close" "?close \<noteq> []"
      using subconf(3) by (auto simp: name_ok_def) (simp_all add: one_line_def)
    have open_sec: "open_section k t = Inr ?t1" using fresh by (simp add: open_section_def)
    have ok1: "parse_ok (path @ [k], ?c1)"
      using upd_top_ok(2) [of path c ?t1 k] open_section_wf [OF open_sec sub_at_wf [OF c(1,2)]] c(1,2)
      by (simp add: parse_ok_def top_node_def)
    have at1: "sub_at ?c1 (path @ [k]) = Some (new_CConfig k)" using sub_at_upd [OF c(2), of "\<lambda>_. ?t1" "[k]"] by simp
    let ?c2 = "upd_at (path @ [k]) (fold (add_item x) (m_vItem x)) ?c1"
    have c2: "?c2 = upd_at path (add_item d k) c"
    proof -
      have "?c2 = upd_at (path @ [k]) (\<lambda>_. x) ?c1"
        using upd_at_const [OF at1, of "fold (add_item x) (m_vItem x)"] rebuild [OF subconf(4)] subconf(6) by simp
      also have "\<dots> = upd_at path (\<lambda>_. upd_at [k] (\<lambda>_. x) ?t1) ?c1"
        by (rule upd_at_snoc) (use sub_at_upd [OF c(2), of "\<lambda>_. ?t1" "[]"] in simp)
      also have "\<dots> = upd_at path (\<lambda>_. upd_at [k] (\<lambda>_. x) ?t1) c" by (rule upd_at_upd [OF c(1,2)])
      also have "upd_at [k] (\<lambda>_. x) ?t1 = add_item d k t"
        using subconf(1,2) sub_at_wf [OF c(1,2)] by (simp add: add_item_def sm_set_twice cfg_wf_iff [of t])
      finally show ?thesis using upd_at_const [OF c(2), of "add_item d k"] by simp
    qed
    have at2: "sub_at ?c2 (path @ [k]) = Some x"
      using sub_at_upd [OF at1, of "fold (add_item x) (m_vItem x)" "[]"] rebuild [OF subconf(4)] subconf(6) by simp
    have body: "parse_text (toString (n + 1) x @ r) (path @ [k], ?c1) = parse_text r (path @ [k], ?c2)" for r
      using sub [OF subconf(2,4,5)] ok1 at1 by (simp add: reads_back_def parse_ok_def new_CConfig_def)
    have "parse_text (item_text n d k @ rest) (path, c) =
        parse_text (toString (n + 1) x @ ?close @ newline @ rest) (path @ [k], ?c1)"
      using parse_text_line [OF ol(1,2)] parse_open [OF subconf(3), of n path c] top_node_at [OF c(2)] open_sec subconf(1,2)
      by (simp add: item_text_def)
    also have "\<dots> = parse_text (?close @ newline @ rest) (path @ [k], ?c2)" by (rule body)
    also have "\<dots> = parse_text rest (path, ?c2)"
      using parse_text_line [OF ol(3,4)] parse_close [OF subconf(3), of "path @ [k]" ?c2 n] top_node_at [OF at2] subconf(6) by simp
    finally show ?thesis by (simp only: c2)
  qed
qed

lemma upd_at_id: "cfg_wf c \<Longrightarrow> sub_at c p = Some n \<Longrightarrow> upd_at p (\<lambda>x. x) c = c"
proof (induction p arbitrary: c)
  case (Cons k p)
  then obtain d where d: "sm_find (m_mSubConfig c) k = Some d" "sub_at d p = Some n" by (auto split: option.splits)
  have "cfg_wf d" "sm_wf (m_mSubConfig c)" using Cons.prems(1) sm_find_entry [OF d(1)] by (auto simp: cfg_wf_iff [of c])
  with Cons.IH [OF _ d(2)] d(1) show ?case by (simp add: sm_set_same)
qed simp

lemma parse_items:
  assumes "cfg_wf d" and "printable d"
    and "\<And>k x. sm_find (m_mSubConfig d) k = Some x \<Longrightarrow> cfg_wf x \<Longrightarrow> printable x \<Longrightarrow> reads_back x"
    and "cfg_wf c" and "sub_at c path = Some t" and "distinct ks" and "set ks \<subseteq> set (m_vItem d)"
    and "set ks \<inter> set (m_vItem t) = {}"
  shows "parse_text (concat (map (item_text n d) ks) @ rest) (path, c) =
    parse_text rest (path, upd_at path (fold (add_item d) ks) c)"
  using assms(4-8)
proof (induction ks arbitrary: c t)
  case Nil
  then show ?case using upd_at_id by (simp add: id_def)
next
  case (Cons k ks)
  have k: "k \<in> set (m_vItem d)" "k \<notin> set (m_vItem t)" using Cons.prems by auto
  let ?c = "upd_at path (add_item d k) c"
  have "cfg_wf (add_item d k t)"
    using assms(1,2) k(1) by (rule item_entry) (use add_item_wf [OF sub_at_wf [OF Cons.prems(1,2)] k(2), of d] in auto)
  then have wf: "cfg_wf ?c" by (rule upd_at_wf [OF Cons.prems(1,2)]) (rule add_item_name)
  have at: "sub_at ?c path = Some (add_item d k t)" using sub_at_upd [OF Cons.prems(2), of "add_item d k" "[]"] by simp
  have "set ks \<inter> set (m_vItem (add_item d k t)) = {}"
    using Cons.prems by (auto simp: add_item_def split: option.splits)
  with Cons.IH [OF wf at] Cons.prems
    parse_item [OF assms(1,2) k(1) Cons.prems(1,2) k(2) assms(3) [of k], where n = n and rest = "concat (map (item_text n d) ks) @ rest"]
  show ?case using upd_at_upd [OF Cons.prems(1,2), of "fold (add_item d) ks" "add_item d k"] by (simp add: comp_def)
qed

lemma prints_back: "cfg_wf d \<Longrightarrow> printable d \<Longrightarrow> reads_back d"
proof (induction d rule: measure_induct_rule [where f = size])
  case (less d)
  have sub: "reads_back x" if "sm_find (m_mSubConfig d) k = Some x" "cfg_wf x" "printable x" for k x
    using less(1) [of x] sub_config_size [OF that(1)] that(2,3) by (cases d) simp
  show ?case
    unfolding reads_back_def toString_items
    using parse_items [OF less(2,3) sub] less(2) by (auto simp: cfg_wf_iff [of d])
qed

lemma parse_toString:
  assumes "cfg_wf c" and "printable c"
  shows "parseString (toString n c) (new_CConfig (m_sNodeName c)) = (Inr (), c)"
proof -
  have "parse_text (toString n c @ []) ([], new_CConfig (m_sNodeName c)) =
      parse_text [] ([], fold (add_item c) (m_vItem c) (new_CConfig (m_sNodeName c)))"
    using prints_back [OF assms, unfolded reads_back_def, rule_format, of "new_CConfig (m_sNodeName c)" "[]" "new_CConfig (m_sNodeName c)" n "[]"]
    by (simp add: new_CConfig_def)
  then show ?thesis
    using rebuild [OF assms(1)] by (simp add: parseString_text parse_text_def splitString_fields strip_def)
qed

text \<open>\<open>joinConfig\<close> has cleared the node when it prints it: nothing of the old contents is left.\<close>

lemma joinConfig_forgets:
  assumes "cfg_wf config" and "printable config" and "m_sNodeName config = m_sNodeName cfg"
  shows "joinConfig config cfg = (Inr (), config)"
  using parse_toString [OF assms(1,2), of 0] assms(3) toString.simps [of 0 "CConfig (m_sNodeName cfg) [] [] []"]
  by (simp add: joinConfig_def new_CConfig_def)

section \<open>Paths\<close>

lemma subst_all_char: "subst_all [c] to s = concat (map (\<lambda>x. if x = c then to else [x]) s)"
  by (induction s) auto

lemma transformPath_eq:
  "transformPath s = concat (map (\<lambda>c. if c = CHR ''<'' then ''/'' else if c = CHR ''>'' then [] else [c]) s)"
  by (simp add: transformPath_def replace_subst subst_all_char) (induction s, auto)

definition path_name :: "string \<Rightarrow> bool" where
  "path_name k \<longleftrightarrow> k \<noteq> [] \<and> set k \<inter> set ''/<>'' = {}"

lemma transformPath_plain: "set s \<inter> set ''<>'' = {} \<Longrightarrow> transformPath s = s"
  unfolding transformPath_eq by (induction s) auto

lemma transformPath_append: "transformPath (s @ t) = transformPath s @ transformPath t"
  by (simp add: transformPath_eq)

lemma getSubConfigPtr_path:
  assumes "\<forall>k \<in> set ks. path_name k"
  shows "getSubConfigPtr (joinString ks ''/'') cfg = sub_at cfg ks"
proof -
  have "set (joinString ks ''/'') \<inter> set ''<>'' = {}"
  proof (cases ks)
    case (Cons k ks')
    then show ?thesis using assms by (auto simp: joinString_Cons path_name_def)
  qed (simp add: joinString_def)
  then show ?thesis
    using splitString_joinString [of "CHR ''/''" "''/''" ks] assms
    by (simp add: getSubConfigPtr_def transformPath_plain) (metis path_name_def disjoint_iff list.set_intros(1))
qed

lemma rfind_last: "c \<notin> set y \<Longrightarrow> rfind_char (x @ c # y) c = Some (length x)"
proof -
  assume "c \<notin> set y"
  then have "find_idx (\<lambda>a. a = c) (rev y @ c # rev x) = Some (length y)"
    using find_char_at [of c "rev y" "rev x"] by (simp add: find_char_def)
  then show ?thesis by (simp add: rfind_char_def)
qed

lemma rfind_none: "c \<notin> set y \<Longrightarrow> rfind_char y c = None"
  by (auto simp: rfind_char_def find_idx_None)

text \<open>A path names the key it spells, written with slashes or with the last section in angle brackets.\<close>

lemma lookup_path:
  assumes "\<forall>k \<in> set ks. path_name k" and "path_name k"
  shows "getConfigKeyPtr (joinString (ks @ [k]) ''/'') cfg = (case sub_at cfg ks of None \<Rightarrow> None | Some d \<Rightarrow> sm_find (m_mKeyValue d) k)"
    "ks \<noteq> [] \<Longrightarrow> getConfigKeyPtr (joinString ks ''/'' @ ''<'' @ k @ ''>'') cfg = getConfigKeyPtr (joinString (ks @ [k]) ''/'') cfg"
proof -
  have nb: "\<forall>x \<in> set v. path_name x \<Longrightarrow> transformPath (joinString v ''/'') = joinString v ''/''" for v
  proof (rule transformPath_plain, cases v)
    case (Cons x xs)
    assume "\<forall>x \<in> set v. path_name x"
    with Cons show "set (joinString v ''/'') \<inter> set ''<>'' = {}" by (auto simp: joinString_Cons path_name_def)
  qed (simp add: joinString_def)
  have all: "\<forall>x \<in> set (ks @ [k]). path_name x" using assms by auto
  show "getConfigKeyPtr (joinString (ks @ [k]) ''/'') cfg = (case sub_at cfg ks of None \<Rightarrow> None | Some d \<Rightarrow> sm_find (m_mKeyValue d) k)"
  proof (cases ks)
    case Nil
    have "transformPath k = k" "rfind_char k (CHR ''/'') = None"
      using assms(2) by (auto simp: path_name_def transformPath_plain rfind_none)
    then show ?thesis using Nil assms(2) by (simp add: getConfigKeyPtr_def joinString_def)
  next
    case (Cons x xs)
    have j: "joinString (ks @ [k]) ''/'' = joinString ks ''/'' @ ''/'' @ k"
      using Cons assms(1) by (simp add: joinString_Cons path_name_def)
    have "rfind_char (joinString ks ''/'' @ ''/'' @ k) (CHR ''/'') = Some (length (joinString ks ''/''))"
      using rfind_last [of "CHR ''/''" k "joinString ks ''/''"] assms(2) by (simp add: path_name_def)
    then show ?thesis
      using getSubConfigPtr_path [OF assms(1)] nb [OF all] j by (simp add: getConfigKeyPtr_def)
  qed
  show "getConfigKeyPtr (joinString ks ''/'' @ ''<'' @ k @ ''>'') cfg = getConfigKeyPtr (joinString (ks @ [k]) ''/'') cfg" if "ks \<noteq> []"
  proof -
    have j: "joinString (ks @ [k]) ''/'' = joinString ks ''/'' @ ''/'' @ k"
      using that assms(1) by (cases ks) (simp_all add: joinString_Cons path_name_def)
    have "transformPath k = k" using assms(2) by (auto simp: path_name_def transformPath_plain)
    then have "transformPath (joinString ks ''/'' @ ''<'' @ k @ ''>'') = transformPath (joinString (ks @ [k]) ''/'')"
      using nb [OF assms(1)] nb [OF all] unfolding transformPath_append by (simp add: j transformPath_eq)
    then show ?thesis by (simp add: getConfigKeyPtr_def)
  qed
qed

end
