(* ===== verification/Storm_Listener.thy ===== *)
theory Storm_Listener
  imports Storm_Request Registry_Manager Util_Timelist Util_Thread
    Util_Protocol Socket_Loop
begin

text \<open>
  The server side of a service: \<open>framework/storm_listener.cpp\<close> (the socket handler of a listening
  port), \<open>storm_service.cpp\<close> (the service behind it, with the RPC framing) and
  \<open>storm_cmd_service.cpp\<close> (a line-based administration service). A handler returns the new state and
  what it asks of others, in order: calls of the service, commands to the loop, the heart beat to the
  registry. Whether a packet is handled at once or put into the queue of another thread is \<open>sl_inLoop\<close>.

  Main results: every open connection is under one of the two idle checks or has been told to close
  (\<open>lst_watched\<close>), the queue never holds more than \<open>maxQueueLen + 1\<close> data packets
  (\<open>queue_bounded\<close>), and a service behind the queue sees the calls it would see without one, in
  order (\<open>queue_is_transparent\<close>).
\<close>

section \<open>Configuration and data\<close>

text \<open>\<open>framework/server_config.h\<close>\<close>

datatype RunThread = RunThread_Main | RunThread_Net | RunThread_Extra

record ServiceConfig =
  sc_runThread :: RunThread
  sc_name :: string
  sc_host :: string
  sc_port :: u32
  threadNum :: u32
  maxConnections :: u32
  maxQueueLen :: u32
  keepAliveTime :: u32
  emptyConnTimeOut :: u32
  queueTimeout :: u32

datatype PacketType = PacketType_Packet | PacketType_Close | PacketType_Accept

record Packet =
  pk_conn :: Connection
  pk_type :: PacketType
  pk_closeType :: SocketCloseType
  pk_data :: string

record StormListener =
  sl_inLoop :: bool
  sl_name :: string
  sl_ip :: string
  sl_port :: u32
  sl_config :: ServiceConfig
  sl_queue :: "Packet list"
  sl_conList :: "(u32, u32) TimeList"
  sl_timelist :: "(u32, u32) TimeList"
  sl_lastHeartBeatSec :: u32

datatype svc_effect =
    NetClose u32 SocketCloseType | NetSend u32 string
  | SvcAccept Connection | SvcClose Connection SocketCloseType | SvcRequest Connection string
  | AsyncHeartBeat ServiceInfo

definition conn_of :: "Socket \<Rightarrow> Connection" where
  "conn_of s = \<lparr>conn_id = s_id s, conn_fd = s_fd s, conn_port = s_port s, conn_ip = s_ip s\<rparr>"

text \<open>The close type and the data of a packet are written only by the branches that need them.\<close>

definition new_Packet :: "Socket \<Rightarrow> PacketType \<Rightarrow> Packet" where
  "new_Packet s ty = \<lparr>pk_conn = conn_of s, pk_type = ty, pk_closeType = CloseType_Self, pk_data = []\<rparr>"

section \<open>The listener\<close>

definition sl_onAccept :: "u32 \<Rightarrow> Socket \<Rightarrow> StormListener \<Rightarrow> StormListener \<times> svc_effect list" where
  "sl_onAccept now s l =
     (if tl_size (sl_timelist l) \<ge> unat (maxConnections (sl_config l)) then (l, [NetClose (s_id s) CloseType_Self])
      else
        let l1 = l\<lparr>sl_conList := tl_add (s_id s) now (sl_conList l)\<rparr> in
        if sl_inLoop l then (l1, [SvcAccept (conn_of s)])
        else (l1\<lparr>sl_queue := lq_push_back (new_Packet s PacketType_Accept) (sl_queue l1)\<rparr>, []))"

definition sl_onClose :: "Socket \<Rightarrow> SocketCloseType \<Rightarrow> StormListener \<Rightarrow> StormListener \<times> svc_effect list" where
  "sl_onClose s closeType l =
     (let l1 = l\<lparr>sl_conList := tl_del (s_id s) (sl_conList l), sl_timelist := tl_del (s_id s) (sl_timelist l)\<rparr> in
      if sl_inLoop l then (l1, [SvcClose (conn_of s) closeType])
      else (l1\<lparr>sl_queue := lq_push_back (new_Packet s PacketType_Close\<lparr>pk_closeType := closeType\<rparr>) (sl_queue l1)\<rparr>, []))"

definition sl_onPacket :: "u32 \<Rightarrow> Socket \<Rightarrow> string \<Rightarrow> StormListener \<Rightarrow> StormListener \<times> svc_effect list" where
  "sl_onPacket now s data l =
     (let l1 = l\<lparr>sl_conList := tl_del (s_id s) (sl_conList l), sl_timelist := tl_add (s_id s) now (sl_timelist l)\<rparr> in
      if sl_inLoop l then (l1, [SvcRequest (conn_of s) data])
      else if lq_size (sl_queue l1) > maxQueueLen (sl_config l1) then (l1, [])
      else (l1\<lparr>sl_queue := lq_push_back (new_Packet s PacketType_Packet\<lparr>pk_data := data\<rparr>) (sl_queue l1)\<rparr>, []))"

text \<open>\<open>listen\<close> is the result of \<open>SocketLoop::listen\<close>.\<close>

definition startListen :: "int \<Rightarrow> StormListener \<Rightarrow> int \<times> StormListener" where
  "startListen listen l =
     (listen, l\<lparr>sl_conList := tl_setFunction True (tl_setTimeout (emptyConnTimeOut (sl_config l)) (sl_conList l)),
        sl_timelist := tl_setFunction True (tl_setTimeout (keepAliveTime (sl_config l)) (sl_timelist l))\<rparr>)"

text \<open>\<open>proxy\<close>: whether there is a registry proxy; the names are those of the server configuration.\<close>

definition updateNet :: "bool \<Rightarrow> string \<Rightarrow> string \<Rightarrow> string \<Rightarrow> u32 \<Rightarrow> StormListener \<Rightarrow> StormListener \<times> svc_effect list" where
  "updateNet proxy app server st now l =
     (case tl_expire now (sl_conList l) of (idle, c) \<Rightarrow>
      case tl_expire now (sl_timelist l) of (late, t) \<Rightarrow>
        let l1 = l\<lparr>sl_conList := c, sl_timelist := t\<rparr>;
            closes = map (\<lambda>cid. NetClose cid CloseType_IdleTimeout) idle @ map (\<lambda>cid. NetClose cid CloseType_Timeout) late in
        if now > sl_lastHeartBeatSec l + 60 \<and> proxy then
          (l1\<lparr>sl_lastHeartBeatSec := now\<rparr>,
           closes @ [AsyncHeartBeat \<lparr>app_name = app, server_name = server, service_name = sc_name (sl_config l),
             set_name = st, info_ip = sc_host (sl_config l), info_port = sc_port (sl_config l)\<rparr>])
        else (l1, closes))"

definition getOnlinNum :: "StormListener \<Rightarrow> u32" where
  "getOnlinNum l = word_of_nat (tl_size (sl_timelist l))"

section \<open>The service\<close>

text \<open>\<open>StormService::onRequest\<close> over the method \<open>onRpcRequest\<close> of the derived class, which fills in a
  response and returns a code; \<open>None\<close> is a failed assertion of the buffer.\<close>

type_synonym 'a rpc_method = "Connection \<Rightarrow> RpcRequest \<Rightarrow> RpcResponse \<Rightarrow> 'a \<Rightarrow> (int \<times> RpcResponse) \<times> 'a"

definition svc_onRequest ::
  "rpc_codec \<Rightarrow> 'a rpc_method \<Rightarrow> Connection \<Rightarrow> string \<Rightarrow> 'a \<Rightarrow> (svc_effect list \<times> 'a) option" where
  "svc_onRequest C onRpcRequest conn buffer a =
     (case par_req C buffer of
        None \<Rightarrow> Some ([NetClose (conn_id conn) CloseType_PacketError], a)
      | Some req \<Rightarrow>
          (case onRpcRequest conn req new_RpcResponse a of
             ((ret, resp), a') \<Rightarrow>
               if rq_invoke_type req = InvokeType_OneWay then Some ([], a')
               else
                 let resp1 = resp\<lparr>rs_ret := ret, rs_proto_id := rq_proto_id req, rs_request_id := rq_request_id req\<rparr> in do {
                   data \<leftarrow> Len_encode_msg (word_of_nat (length (ser_resp C resp1))) (Some (ser_resp C resp1));
                   b \<leftarrow> data;
                   Some ([NetSend (conn_id conn) (contents b)], a')
                 }))"

text \<open>\<open>StormService::update\<close> without waiting: the callback a packet stands for, and the loop that
  empties the queue.\<close>

definition pk_call :: "Packet \<Rightarrow> svc_effect" where
  "pk_call p =
     (case pk_type p of
        PacketType_Accept \<Rightarrow> SvcAccept (pk_conn p)
      | PacketType_Close \<Rightarrow> SvcClose (pk_conn p) (pk_closeType p)
      | PacketType_Packet \<Rightarrow> SvcRequest (pk_conn p) (pk_data p))"

function svc_update :: "StormListener \<Rightarrow> svc_effect list \<times> StormListener" where
  "svc_update l =
     (case lq_pop_front 0 [] (sl_queue l) of
        (None, q) \<Rightarrow> ([], l)
      | (Some p, q) \<Rightarrow> (case svc_update (l\<lparr>sl_queue := q\<rparr>) of (calls, l') \<Rightarrow> (pk_call p # calls, l')))"
  by pat_completeness auto
termination
  by (relation "measure (\<lambda>l. length (sl_queue l))") (auto simp: lq_pop_front_def Let_def split: list.splits if_splits)

declare svc_update.simps [simp del]

section \<open>The command service\<close>

text \<open>A handler gets the parameters and returns its answer and whether the connection stays open.\<close>

type_synonym cmd_handler = "Connection \<Rightarrow> string list \<Rightarrow> string \<times> bool"

definition registerHandler :: "string \<Rightarrow> cmd_handler \<Rightarrow> (string, cmd_handler) std_map \<Rightarrow> (string, cmd_handler) std_map" where
  "registerHandler cmd handler m_handlers = sm_set cmd handler m_handlers"

definition cmd_ping :: cmd_handler where
  "cmd_ping conn params = (''pong'', True)"

definition cmd_status :: "string \<Rightarrow> cmd_handler" where
  "cmd_status server_status conn params = (server_status, True)"

definition cmd_exit :: cmd_handler where
  "cmd_exit conn params = (''Bye!'', False)"

definition cmd_handlers :: "string \<Rightarrow> (string, cmd_handler) std_map" where
  "cmd_handlers server_status =
     registerHandler ''exit'' cmd_exit (registerHandler ''status'' (cmd_status server_status) (registerHandler ''ping'' cmd_ping []))"

definition cmd_onRequest :: "(string, cmd_handler) std_map \<Rightarrow> Connection \<Rightarrow> string \<Rightarrow> svc_effect list" where
  "cmd_onRequest m_handlers conn data =
     (case splitString data '' '' True of
        [] \<Rightarrow> []
      | cmd # params \<Rightarrow>
          (case sm_find m_handlers cmd of
             None \<Rightarrow> [NetSend (conn_id conn) (''invalid cmd: '' @ cmd @ [CHR 0x0A])]
           | Some handler \<Rightarrow>
               (case handler conn params of
                  (out, success) \<Rightarrow>
                    NetSend (conn_id conn) (out @ [CHR 0x0A]) #
                    (if success then [] else [NetClose (conn_id conn) CloseType_Self]))))"

section \<open>Every open connection is watched\<close>

datatype lst_ev = EvAccept u32 Socket | EvClose Socket SocketCloseType | EvPacket u32 Socket string | EvTick u32

fun lst_step :: "lst_ev \<Rightarrow> StormListener \<Rightarrow> StormListener \<times> svc_effect list" where
  "lst_step (EvAccept now s) l = sl_onAccept now s l"
| "lst_step (EvClose s ct) l = sl_onClose s ct l"
| "lst_step (EvPacket now s data) l = sl_onPacket now s data l"
| "lst_step (EvTick now) l = updateNet False [] [] [] now l"

abbreviation tl_keys :: "('k, 't) TimeList \<Rightarrow> 'k set" where
  "tl_keys t \<equiv> fst ` set (tl_abs t)"

definition closes_in :: "svc_effect list \<Rightarrow> u32 set" where
  "closes_in es = {cid. \<exists>ct. NetClose cid ct \<in> set es}"

text \<open>A listener with the connections that are open and those it has asked the loop to close. The loop
  reports packets and the end of open connections only, and accepts under a fresh id.\<close>

inductive lst_reach :: "StormListener \<Rightarrow> StormListener \<Rightarrow> u32 set \<Rightarrow> u32 set \<Rightarrow> bool" for l0 where
  start: "lst_reach l0 l0 {} {}"
| accept: "lst_reach l0 l conns asked \<Longrightarrow> s_id s \<notin> conns \<Longrightarrow> lst_step (EvAccept now s) l = (l', es) \<Longrightarrow>
    lst_reach l0 l' (insert (s_id s) conns) (asked \<union> closes_in es)"
| packet: "lst_reach l0 l conns asked \<Longrightarrow> s_id s \<in> conns \<Longrightarrow> lst_step (EvPacket now s data) l = (l', es) \<Longrightarrow>
    lst_reach l0 l' conns (asked \<union> closes_in es)"
| close: "lst_reach l0 l conns asked \<Longrightarrow> s_id s \<in> conns \<Longrightarrow> lst_step (EvClose s ct) l = (l', es) \<Longrightarrow>
    lst_reach l0 l' (conns - {s_id s}) (asked - {s_id s})"
| tick: "lst_reach l0 l conns asked \<Longrightarrow> lst_step (EvTick now) l = (l', es) \<Longrightarrow> lst_reach l0 l' conns (asked \<union> closes_in es)"

definition watched :: "StormListener \<Rightarrow> u32 set \<Rightarrow> u32 set \<Rightarrow> bool" where
  "watched l conns asked \<longleftrightarrow> tl_keys (sl_conList l) \<inter> tl_keys (sl_timelist l) = {} \<and>
     tl_keys (sl_conList l) \<union> tl_keys (sl_timelist l) \<subseteq> conns \<and>
     conns \<subseteq> tl_keys (sl_conList l) \<union> tl_keys (sl_timelist l) \<union> asked"

definition lists_ok :: "StormListener \<Rightarrow> bool" where
  "lists_ok l \<longleftrightarrow> tl_wf (sl_conList l) \<and> tl_func (sl_conList l) \<and> tl_wf (sl_timelist l) \<and> tl_func (sl_timelist l)"

lemma closes_in_simps [simp]:
  "closes_in (es @ fs) = closes_in es \<union> closes_in fs" "closes_in (map (\<lambda>cid. NetClose cid ct) ks) = set ks"
  "closes_in [AsyncHeartBeat i] = {}"
  by (auto simp: closes_in_def)

lemma tl_expire_pair: "tl_expire now t = (ks, t') \<Longrightarrow> tl_wf t \<Longrightarrow> tl_wf t' \<and> tl_func t' = tl_func t"
  using tl_expire_wf [of t now] tl_op_fields(5) [of now t] by simp

lemma updateNet_lists:
  assumes "updateNet proxy app server st now l = (l', es)" and "lists_ok l"
  shows "\<exists>idle late. sl_queue l' = sl_queue l \<and> sl_inLoop l' = sl_inLoop l \<and> sl_config l' = sl_config l \<and>
    tl_expire now (sl_conList l) = (idle, sl_conList l') \<and> tl_expire now (sl_timelist l) = (late, sl_timelist l') \<and>
    closes_in es = set idle \<union> set late \<and>
    filter (\<lambda>e. \<forall>i. e \<noteq> AsyncHeartBeat i) es =
      map (\<lambda>cid. NetClose cid CloseType_IdleTimeout) idle @ map (\<lambda>cid. NetClose cid CloseType_Timeout) late"
  using assms(1) by (auto simp: updateNet_def Let_def filter_empty_conv split: prod.splits if_splits)

lemma lst_lists:
  assumes "lst_step ev l = (l', es)" and "lists_ok l"
  shows "lists_ok l'"
proof (cases ev)
  case (EvTick now)
  with assms have "updateNet False [] [] [] now l = (l', es)" by simp
  from updateNet_lists [OF this assms(2)] assms(2) show ?thesis
    by (auto simp: lists_ok_def dest!: tl_expire_pair)
qed (use assms in \<open>auto simp: lists_ok_def sl_onAccept_def sl_onClose_def sl_onPacket_def Let_def
      tl_add_wf tl_del_wf split: if_splits\<close>)

lemma step_keys:
  assumes "lists_ok l"
  shows "tl_keys (sl_conList (fst (sl_onPacket now s data l))) = tl_keys (sl_conList l) - {s_id s}"
    "tl_keys (sl_timelist (fst (sl_onPacket now s data l))) = insert (s_id s) (tl_keys (sl_timelist l))"
    "tl_keys (sl_conList (fst (sl_onClose s ct l))) = tl_keys (sl_conList l) - {s_id s}"
    "tl_keys (sl_timelist (fst (sl_onClose s ct l))) = tl_keys (sl_timelist l) - {s_id s}"
  using assms by (simp_all add: lists_ok_def sl_onPacket_def sl_onClose_def Let_def tl_add_keys tl_del_keys)

text \<open>The four steps on the sets of ids: idle \<open>A\<close>, active \<open>B\<close>, open \<open>C\<close>, told to close \<open>D\<close>.\<close>

definition watch_sets :: "'k set \<Rightarrow> 'k set \<Rightarrow> 'k set \<Rightarrow> 'k set \<Rightarrow> bool" where
  "watch_sets A B C D \<longleftrightarrow> A \<inter> B = {} \<and> A \<union> B \<subseteq> C \<and> C \<subseteq> A \<union> B \<union> D"

lemma watch_sets_steps:
  assumes "watch_sets A B C D"
  shows "i \<notin> C \<Longrightarrow> watch_sets (insert i A) B (insert i C) (D \<union> E)"
    "i \<in> C \<Longrightarrow> watch_sets (A - {i}) (insert i B) C (D \<union> E)"
    "watch_sets (A - {i}) (B - {i}) (C - {i}) (D - {i})"
    "watch_sets (A - X) (B - Y) C (D \<union> (X \<union> Y))"
    "watch_sets A B (insert i C) (D \<union> {i})"
  using assms unfolding watch_sets_def by blast+

lemma watched_sets: "watched l conns asked \<longleftrightarrow> watch_sets (tl_keys (sl_conList l)) (tl_keys (sl_timelist l)) conns asked"
  by (simp add: watched_def watch_sets_def)

lemma lst_watched:
  assumes "lst_reach l0 l conns asked" and "lists_ok l0" and "tl_keys (sl_conList l0) = {}" and "tl_keys (sl_timelist l0) = {}"
  shows "lists_ok l \<and> watched l conns asked"
  using assms
proof (induction rule: lst_reach.induct)
  case (accept l conns asked s now l' es)
  then have ok: "lists_ok l" "watched l conns asked" by simp_all
  have new: "l' = l \<and> closes_in es = {s_id s} \<or>
      tl_keys (sl_conList l') = insert (s_id s) (tl_keys (sl_conList l)) \<and> sl_timelist l' = sl_timelist l"
    using accept.hyps(3) [symmetric] ok(1)
    by (cases "unat (maxConnections (sl_config l)) \<le> tl_size (sl_timelist l)"; cases "sl_inLoop l")
      (simp_all add: sl_onAccept_def Let_def lists_ok_def tl_add_keys closes_in_def)
  show ?case
  proof (cases "l' = l \<and> closes_in es = {s_id s}")
    case True
    then show ?thesis using ok watch_sets_steps(5) by (simp add: watched_sets)
  next
    case False
    with new have "tl_keys (sl_conList l') = insert (s_id s) (tl_keys (sl_conList l))" "sl_timelist l' = sl_timelist l" by blast+
    then show ?thesis
      using lst_lists [OF accept.hyps(3) ok(1)] ok(2) accept.hyps(2) watch_sets_steps(1) by (simp add: watched_sets)
  qed
next
  case (packet l conns asked s now data l' es)
  then have ok: "lists_ok l" "watched l conns asked" by simp_all
  have "tl_keys (sl_conList l') = tl_keys (sl_conList l) - {s_id s}" "tl_keys (sl_timelist l') = insert (s_id s) (tl_keys (sl_timelist l))"
    using step_keys(1,2) [OF ok(1), of now s data] packet.hyps(3) by simp_all
  with watch_sets_steps(2) [OF ok(2) [unfolded watched_sets] packet.hyps(2)] show ?case
    using lst_lists [OF packet.hyps(3) ok(1)] by (simp add: watched_sets)
next
  case (close l conns asked s ct l' es)
  then have ok: "lists_ok l" "watched l conns asked" by simp_all
  have st: "sl_onClose s ct l = (l', es)" using close.hyps(3) by (simp only: lst_step.simps)
  have "tl_keys (sl_conList l') = tl_keys (sl_conList l) - {s_id s}" "tl_keys (sl_timelist l') = tl_keys (sl_timelist l) - {s_id s}"
    using step_keys(3,4) [OF ok(1), of s ct] unfolding st fst_conv .
  with watch_sets_steps(3) [OF ok(2) [unfolded watched_sets]] show ?case
    using lst_lists [OF close.hyps(3) ok(1)] by (simp add: watched_sets)
next
  case (tick l conns asked now l' es)
  then have ok: "lists_ok l" "watched l conns asked" and step: "updateNet False [] [] [] now l = (l', es)" by simp_all
  from updateNet_lists [OF step ok(1)] obtain idle late where
    e: "tl_expire now (sl_conList l) = (idle, sl_conList l')" "tl_expire now (sl_timelist l) = (late, sl_timelist l')"
    and c: "closes_in es = set idle \<union> set late" by blast
  have k: "tl_keys (sl_conList l') = tl_keys (sl_conList l) - set idle" "tl_keys (sl_timelist l') = tl_keys (sl_timelist l) - set late"
    using ok(1) tl_expire_keys [OF _ _ e(1)] tl_expire_keys [OF _ _ e(2)] by (simp_all add: lists_ok_def)
  from watch_sets_steps(4) [OF ok(2) [unfolded watched_sets]] show ?case
    using lst_lists [OF tick.hyps(2) ok(1)] unfolding watched_sets k c by blast
qed (simp add: watched_def)

section \<open>The queue\<close>

definition data_packets :: "StormListener \<Rightarrow> nat" where
  "data_packets l = length (filter (\<lambda>p. pk_type p = PacketType_Packet) (sl_queue l))"

lemma queue_bounded:
  assumes "lst_step ev l = (l', es)" and "length (sl_queue l) < 2 ^ 32" and "data_packets l \<le> unat (maxQueueLen (sl_config l)) + 1"
  shows "data_packets l' \<le> unat (maxQueueLen (sl_config l')) + 1"
proof (cases ev)
  case (EvPacket now s data)
  have le: "data_packets l \<le> length (sl_queue l)" by (simp add: data_packets_def)
  have "unat (lq_size (sl_queue l)) = length (sl_queue l)" using assms(2) by (simp add: lq_size_def)
  with EvPacket assms le show ?thesis
    by (auto simp: sl_onPacket_def Let_def data_packets_def lq_push_back_def new_Packet_def not_less word_le_nat_alt intro: order_trans [OF length_filter_le] split: if_splits)
next
  case (EvTick now)
  with assms show ?thesis
    by (auto simp: updateNet_def Let_def data_packets_def split: prod.splits if_splits)
qed (use assms in \<open>auto simp: sl_onAccept_def sl_onClose_def Let_def data_packets_def lq_push_back_def new_Packet_def split: if_splits\<close>)

text \<open>A service thread that takes packets out of the queue while the loop thread puts them in.\<close>

datatype svc_ev = Net lst_ev | Pop

definition svc_calls :: "svc_effect list \<Rightarrow> svc_effect list" where
  "svc_calls = filter (\<lambda>e. case e of SvcAccept c \<Rightarrow> True | SvcClose c ct \<Rightarrow> True | SvcRequest c d \<Rightarrow> True | _ \<Rightarrow> False)"

fun svc_run :: "svc_ev list \<Rightarrow> StormListener \<Rightarrow> svc_effect list \<times> StormListener" where
  "svc_run [] l = ([], l)"
| "svc_run (Net ev # evs) l =
     (case lst_step ev l of (l1, es) \<Rightarrow> case svc_run evs l1 of (calls, l') \<Rightarrow> (svc_calls es @ calls, l'))"
| "svc_run (Pop # evs) l =
     (case lq_pop_front 0 [] (sl_queue l) of
        (None, _) \<Rightarrow> svc_run evs l
      | (Some p, q) \<Rightarrow> (case svc_run evs (l\<lparr>sl_queue := q\<rparr>) of (calls, l') \<Rightarrow> (pk_call p # calls, l')))"

definition in_loop :: "StormListener \<Rightarrow> StormListener" where
  "in_loop l = l\<lparr>sl_inLoop := True, sl_queue := []\<rparr>"

text \<open>One step with and without the queue: the same calls, at once or as a packet at the end.\<close>

lemma step_modes:
  assumes "\<not> sl_inLoop l" and "length (sl_queue l) < unat (maxQueueLen (sl_config l))"
    and "lst_step ev l = (l', es)"
  shows "\<exists>es1. lst_step ev (in_loop l) = (in_loop l', es1) \<and>
    map pk_call (sl_queue l') = map pk_call (sl_queue l) @ svc_calls es1 \<and> svc_calls es = [] \<and>
    \<not> sl_inLoop l' \<and> sl_config l' = sl_config l \<and> length (sl_queue l') \<le> Suc (length (sl_queue l))"
proof (cases ev)
  case (EvPacket now s data)
  have "length (sl_queue l) < 2 ^ 32" using order.strict_trans [OF assms(2) unat_u32_less] by simp
  then have "unat (lq_size (sl_queue l)) = length (sl_queue l)" by (simp add: lq_size_def)
  then have "\<not> maxQueueLen (sl_config l) < lq_size (sl_queue l)" using assms(2) by (simp add: word_less_nat_alt)
  with EvPacket assms show ?thesis
    by (auto simp: sl_onPacket_def Let_def in_loop_def lq_push_back_def pk_call_def new_Packet_def svc_calls_def)
next
  case (EvTick now)
  with assms show ?thesis
    by (auto simp: updateNet_def Let_def in_loop_def svc_calls_def filter_empty_conv split: prod.splits if_splits)
qed (use assms in \<open>auto simp: sl_onAccept_def sl_onClose_def Let_def in_loop_def lq_push_back_def pk_call_def
      new_Packet_def svc_calls_def split: if_splits\<close>)

definition net_only :: "svc_ev list \<Rightarrow> svc_ev list" where
  "net_only = filter (\<lambda>e. e \<noteq> Pop)"

lemma queue_is_transparent:
  assumes "\<not> sl_inLoop l" and "length (sl_queue l) + length evs \<le> unat (maxQueueLen (sl_config l))"
    and "svc_run evs l = (calls, l')"
  shows "calls @ map pk_call (sl_queue l') = map pk_call (sl_queue l) @ fst (svc_run (net_only evs) (in_loop l))"
  using assms
proof (induction evs l arbitrary: calls rule: svc_run.induct)
  case (2 ev evs l)
  obtain l1 es where s: "lst_step ev l = (l1, es)" by (cases "lst_step ev l")
  obtain calls1 where c: "svc_run evs l1 = (calls1, l')" "calls = svc_calls es @ calls1"
    using 2(4) s by (auto split: prod.splits)
  have "length (sl_queue l) < unat (maxQueueLen (sl_config l))" using 2(3) by simp
  from step_modes [OF 2(2) this s] obtain es1 where m: "lst_step ev (in_loop l) = (in_loop l1, es1)"
    "map pk_call (sl_queue l1) = map pk_call (sl_queue l) @ svc_calls es1" "svc_calls es = []"
    "\<not> sl_inLoop l1" "sl_config l1 = sl_config l" "length (sl_queue l1) \<le> Suc (length (sl_queue l))" by blast
  from 2(1) [OF s [symmetric] m(4) _ c(1)] m 2(3) c(2) show ?case
    by (simp add: net_only_def split: prod.splits)
next
  case (3 evs l)
  show ?case
  proof (cases "sl_queue l")
    case Nil
    with 3 show ?thesis by (simp add: lq_pop_front_def net_only_def)
  next
    case (Cons p q)
    then have pop: "lq_pop_front 0 [] (sl_queue l) = (Some p, q)" by (simp add: lq_pop_front_def)
    then obtain calls1 where c: "svc_run evs (l\<lparr>sl_queue := q\<rparr>) = (calls1, l')" "calls = pk_call p # calls1"
      using 3(5) by (auto split: prod.splits)
    have "in_loop (l\<lparr>sl_queue := q\<rparr>) = in_loop l" by (simp add: in_loop_def)
    with 3(2) [OF pop [symmetric] refl _ _ c(1)] 3(3,4) c(2) Cons show ?thesis by (simp add: net_only_def)
  qed
qed (simp add: net_only_def)

text \<open>\<open>update\<close> empties the queue in order.\<close>

lemma svc_update_all: "svc_update l = (map pk_call (sl_queue l), l\<lparr>sl_queue := []\<rparr>)"
proof (induction l rule: svc_update.induct)
  case (1 l)
  then show ?case
    by (subst svc_update.simps) (cases "sl_queue l", auto simp: lq_pop_front_def Let_def)
qed

section \<open>Answers\<close>

text \<open>Every request that is not one-way gets one answer, with the id and the protocol number of the request
  and the code the method returned; a packet that is no request closes the connection.\<close>

lemma svc_onRequest_ok:
  assumes "par_req C buffer = Some req" and "onRpcRequest conn req new_RpcResponse a = ((ret, resp), a')"
    and "rq_invoke_type req \<noteq> InvokeType_OneWay"
    and "resp1 = resp\<lparr>rs_ret := ret, rs_proto_id := rq_proto_id req, rs_request_id := rq_request_id req\<rparr>"
    and "length (ser_resp C resp1) + 4 \<le> 2 ^ 31"
  shows "svc_onRequest C onRpcRequest conn buffer a = Some ([NetSend (conn_id conn) (len_frame (ser_resp C resp1))], a')"
  using assms Len_encode_msg_ok [of "ser_resp C resp1"] by (auto simp: svc_onRequest_def Let_def)

end
