(* ===== verification/Demo_Codec.thy ===== *)
theory Demo_Codec
  imports "Registry_Rpc"
begin

text \<open>
  An instance of the message encodings \<open>Storm_Request\<close> and \<open>Registry_Rpc\<close> leave open, for the witnesses:
  a field is its length in unary, a dot and its text. It satisfies the round trips the development
  assumes of protobuf (\<open>fields_codec_ok\<close>, \<open>demo_registry_ok\<close>).
\<close>

definition demo_str :: "string \<Rightarrow> string" where
  "demo_str s = replicate (length s) (CHR ''i'') @ CHR ''.'' # s"

definition demo_read :: "string \<Rightarrow> string \<times> string" where
  "demo_read s = (let n = length (takeWhile (\<lambda>c. c = CHR ''i'') s); r = drop (n + 1) s in (take n r, drop n r))"

lemma demo_read_str [simp]: "demo_read (demo_str s @ r) = (s, r)" "demo_read (demo_str s) = (s, [])"
proof -
  have "takeWhile (\<lambda>c. c = CHR ''i'') (demo_str s @ r) = replicate (length s) (CHR ''i'')" for r
    by (simp add: demo_str_def takeWhile_append)
  then show e: "demo_read (demo_str s @ r) = (s, r)" for r by (simp add: demo_read_def Let_def demo_str_def)
  from e [of "[]"] show "demo_read (demo_str s) = (s, [])" by simp
qed

definition demo_u32 :: "u32 \<Rightarrow> string" where
  "demo_u32 n = demo_str (replicate (unat n) (CHR ''n''))"

definition demo_read_u32 :: "string \<Rightarrow> u32 \<times> string" where
  "demo_read_u32 s = (case demo_read s of (t, r) \<Rightarrow> (word_of_nat (length t), r))"

lemma demo_read_u32 [simp]: "demo_read_u32 (demo_u32 n @ r) = (n, r)" "demo_read_u32 (demo_u32 n) = (n, [])"
  by (simp_all add: demo_read_u32_def demo_u32_def)

definition demo_int :: "int \<Rightarrow> string" where
  "demo_int i = demo_str (if i < 0 then CHR ''-'' # replicate (nat (- i)) (CHR ''n'') else replicate (nat i) (CHR ''n''))"

definition demo_read_int :: "string \<Rightarrow> int \<times> string" where
  "demo_read_int s =
     (case demo_read s of
        (CHR ''-'' # t, r) \<Rightarrow> (- int (length t), r)
      | (t, r) \<Rightarrow> (int (length t), r))"

lemma demo_read_int [simp]: "demo_read_int (demo_int i @ r) = (i, r)"
  by (cases "nat i") (auto simp: demo_read_int_def demo_int_def split: list.splits)

definition demo_ty :: "InvokeType \<Rightarrow> string" where
  "demo_ty t = demo_str (case t of InvokeType_Sync \<Rightarrow> ''s'' | InvokeType_Async \<Rightarrow> ''a'' | InvokeType_OneWay \<Rightarrow> ''o'')"

definition demo_read_ty :: "string \<Rightarrow> InvokeType \<times> string" where
  "demo_read_ty s =
     (case demo_read s of
        (t, r) \<Rightarrow> (if t = ''s'' then InvokeType_Sync else if t = ''a'' then InvokeType_Async else InvokeType_OneWay, r))"

lemma demo_read_ty [simp]: "demo_read_ty (demo_ty t @ r) = (t, r)"
  by (cases t) (simp_all add: demo_read_ty_def demo_ty_def)

definition fields_codec :: rpc_codec where
  "fields_codec =
     \<lparr>ser_req = \<lambda>q. demo_ty (rq_invoke_type q) @ demo_u32 (rq_request_id q) @ demo_u32 (rq_proto_id q) @ demo_str (rq_request q),
      par_req = \<lambda>s. case demo_read_ty s of (t, s1) \<Rightarrow> case demo_read_u32 s1 of (i, s2) \<Rightarrow> case demo_read_u32 s2 of (p, s3) \<Rightarrow>
        case demo_read s3 of (b, s4) \<Rightarrow>
        Some \<lparr>rq_invoke_type = t, rq_request_id = i, rq_proto_id = p, rq_request = b\<rparr>,
      ser_resp = \<lambda>a. demo_int (rs_ret a) @ demo_u32 (rs_proto_id a) @ demo_u32 (rs_request_id a) @ demo_str (rs_response a),
      par_resp = \<lambda>s. case demo_read_int s of (t, s1) \<Rightarrow> case demo_read_u32 s1 of (p, s2) \<Rightarrow> case demo_read_u32 s2 of (i, s3) \<Rightarrow>
        case demo_read s3 of (b, s4) \<Rightarrow>
        Some \<lparr>rs_ret = t, rs_proto_id = p, rs_request_id = i, rs_response = b\<rparr>\<rparr>"

lemma fields_codec_ok: "codec_ok fields_codec"
  by (simp add: codec_ok_def fields_codec_def)

section \<open>The messages of the registry\<close>

fun demo_addrs :: "(string \<times> u32) list \<Rightarrow> string" where
  "demo_addrs [] = []"
| "demo_addrs ((ip, port) # as) = demo_str ip @ demo_u32 port @ demo_addrs as"

fun demo_read_addrs :: "nat \<Rightarrow> string \<Rightarrow> (string \<times> u32) list \<times> string" where
  "demo_read_addrs 0 s = ([], s)"
| "demo_read_addrs (Suc n) s =
     (case demo_read s of (ip, s1) \<Rightarrow> case demo_read_u32 s1 of (port, s2) \<Rightarrow>
      case demo_read_addrs n s2 of (as, r) \<Rightarrow> ((ip, port) # as, r))"

lemma demo_read_addrs [simp]: "demo_read_addrs (length as) (demo_addrs as @ r) = (as, r)"
  by (induction as rule: demo_addrs.induct) simp_all

definition demo_QueryReq :: "QueryServiceReq msg_codec" where
  "demo_QueryReq =
     \<lparr>SerializeToString = \<lambda>q. Some (demo_str (qr_app_name q) @ demo_str (qr_server_name q) @ demo_str (qr_service_name q) @ demo_str (qr_set_name q)),
      ParseFromString = \<lambda>s. case demo_read s of (a, s1) \<Rightarrow> case demo_read s1 of (b, s2) \<Rightarrow> case demo_read s2 of (c, s3) \<Rightarrow>
        case demo_read s3 of (d, s4) \<Rightarrow>
        Some \<lparr>qr_app_name = a, qr_server_name = b, qr_service_name = c, qr_set_name = d\<rparr>\<rparr>"

definition demo_QueryAck :: "QueryServiceAck msg_codec" where
  "demo_QueryAck =
     \<lparr>SerializeToString = \<lambda>q. Some (demo_int (int (length (active_endpoints q))) @ demo_addrs (active_endpoints q) @
        demo_int (int (length (inactive_endpoints q))) @ demo_addrs (inactive_endpoints q) @ []),
      ParseFromString = \<lambda>s. case demo_read_int s of (n, s1) \<Rightarrow> case demo_read_addrs (nat n) s1 of (a, s2) \<Rightarrow>
        case demo_read_int s2 of (k, s3) \<Rightarrow> case demo_read_addrs (nat k) s3 of (b, s4) \<Rightarrow>
        Some \<lparr>active_endpoints = a, inactive_endpoints = b\<rparr>\<rparr>"

definition demo_Info :: "ServiceInfo msg_codec" where
  "demo_Info =
     \<lparr>SerializeToString = \<lambda>q. Some (demo_str (app_name q) @ demo_str (server_name q) @ demo_str (service_name q) @
        demo_str (set_name q) @ demo_str (info_ip q) @ demo_u32 (info_port q)),
      ParseFromString = \<lambda>s. case demo_read s of (a, s1) \<Rightarrow> case demo_read s1 of (b, s2) \<Rightarrow> case demo_read s2 of (c, s3) \<Rightarrow>
        case demo_read s3 of (d, s4) \<Rightarrow> case demo_read s4 of (i, s5) \<Rightarrow> case demo_read_u32 s5 of (p, s6) \<Rightarrow>
        Some \<lparr>app_name = a, server_name = b, service_name = c, set_name = d, info_ip = i, info_port = p\<rparr>\<rparr>"

definition demo_Unit :: "unit msg_codec" where
  "demo_Unit = \<lparr>SerializeToString = \<lambda>_. Some [], ParseFromString = \<lambda>_. Some ()\<rparr>"

definition demo_registry :: registry_codec where
  "demo_registry =
     \<lparr>rc_QueryReq = demo_QueryReq, rc_QueryAck = demo_QueryAck, rc_HeartBeatReq = demo_Info, rc_HeartBeatAck = demo_Unit,
      rc_StopReq = demo_Info, rc_StopAck = demo_Unit\<rparr>"

lemma demo_QueryAck_ok: "msg_ok demo_QueryAck"
  unfolding msg_ok_def
proof
  fix m
  show "\<exists>s. SerializeToString demo_QueryAck m = Some s \<and> ParseFromString demo_QueryAck s = Some m"
    using demo_read_addrs [of "inactive_endpoints m" "[]"] by (simp add: demo_QueryAck_def)
qed

lemma demo_registry_ok: "registry_codec_ok demo_registry"
  using demo_QueryAck_ok
  by (simp add: registry_codec_ok_def demo_registry_def msg_ok_def demo_QueryReq_def demo_Info_def demo_Unit_def)

end
