(* ===== verification/Util_Timer.thy ===== *)
theory Util_Timer
  imports Std_Map Storm_Prelude "HOL-Library.Multiset"
begin

text \<open>
  \<open>source/util/util_timer.cpp\<close>: timers kept in a multimap by expiry, with a hash map from their ids.
  Both hold pointers to the same nodes, so \<open>Timer\<close> has a store of nodes (\<open>t_store\<close>) and the maps hold
  their identities. Callbacks are identities too: \<open>update\<close> returns the ones it calls, in order; a
  callback that changes the timer it is called from is not modelled.

  Main result: \<open>update\<close> calls exactly the timers that are due, in the order of their expiry, drops those
  that fire once, files the repeating ones again and leaves the others (\<open>update_timer_ok\<close>, \<open>timer_refines_table\<close>).
\<close>

record TimerNode =
  tn_id :: u32
  tn_expire :: u64
  tn_duration :: u64
  tn_repeat :: bool
  tn_cb :: nat

record Timer =
  m_nodes :: "(u64 \<times> nat) list"
  m_search :: "(u32, nat) std_map"
  m_id :: u32
  t_store :: "nat \<Rightarrow> TimerNode"
  t_fresh :: nat

definition new_Timer :: Timer where
  "new_Timer = \<lparr>m_nodes = [], m_search = [], m_id = 0,
     t_store = \<lambda>_. \<lparr>tn_id = 0, tn_expire = 0, tn_duration = 0, tn_repeat = False, tn_cb = 0\<rparr>, t_fresh = 0\<rparr>"

text \<open>\<open>std::multimap::insert\<close>: behind the entries with the same key.\<close>

fun mm_insert :: "'k::linorder \<Rightarrow> 'v \<Rightarrow> ('k \<times> 'v) list \<Rightarrow> ('k \<times> 'v) list" where
  "mm_insert k v [] = [(k, v)]"
| "mm_insert k v ((k', v') # xs) = (if k < k' then (k, v) # (k', v') # xs else (k', v') # mm_insert k v xs)"

definition addTimer :: "u64 \<Rightarrow> u64 \<Rightarrow> nat \<Rightarrow> bool \<Rightarrow> Timer \<Rightarrow> u32 \<times> Timer" where
  "addTimer nowMs ms cb repeat t =
     (let expire = nowMs + ms; i = m_id t; n = t_fresh t;
          node = \<lparr>tn_id = i, tn_expire = expire, tn_duration = ms, tn_repeat = repeat, tn_cb = cb\<rparr> in
      (i, t\<lparr>m_id := i + 1, t_store := (t_store t)(n := node), t_fresh := Suc n,
            m_nodes := mm_insert expire n (m_nodes t), m_search := sm_set i n (m_search t)\<rparr>))"

text \<open>The product is computed in 32 bits.\<close>

definition addSecondTimer :: "u64 \<Rightarrow> u32 \<Rightarrow> nat \<Rightarrow> bool \<Rightarrow> Timer \<Rightarrow> u32 \<times> Timer" where
  "addSecondTimer nowMs sec cb repeat t = addTimer nowMs (ucast (sec * 1000)) cb repeat t"

definition delTimer :: "u32 \<Rightarrow> Timer \<Rightarrow> bool \<times> Timer" where
  "delTimer i t =
     (case sm_find (m_search t) i of
        None \<Rightarrow> (False, t)
      | Some n \<Rightarrow>
          (case find (\<lambda>(k, v). k = tn_expire (t_store t n) \<and> tn_id (t_store t v) = i) (m_nodes t) of
             None \<Rightarrow> (False, t)
           | Some e \<Rightarrow> (True, t\<lparr>m_nodes := remove1 e (m_nodes t), m_search := sm_erase i (m_search t)\<rparr>)))"

fun timer_loop :: "u64 \<Rightarrow> (u64 \<times> nat) list \<Rightarrow> (u64 \<times> nat) list \<Rightarrow> Timer \<Rightarrow> nat list \<times> (u64 \<times> nat) list \<times> Timer" where
  "timer_loop ms [] newNodes t = ([], newNodes, t\<lparr>m_nodes := []\<rparr>)"
| "timer_loop ms ((k, n) # nodes) newNodes t =
     (let node = t_store t n in
      if ms < tn_expire node then ([], newNodes, t\<lparr>m_nodes := (k, n) # nodes\<rparr>)
      else
        case (if tn_repeat node then
                let node1 = node\<lparr>tn_expire := ms + tn_duration node\<rparr> in
                timer_loop ms nodes (newNodes @ [(tn_expire node1, n)]) (t\<lparr>t_store := (t_store t)(n := node1)\<rparr>)
              else timer_loop ms nodes newNodes (t\<lparr>m_search := sm_erase (tn_id node) (m_search t)\<rparr>)) of
          (cbs, new, t') \<Rightarrow> (tn_cb node # cbs, new, t'))"

definition update_timer :: "u64 \<Rightarrow> Timer \<Rightarrow> nat list \<times> Timer" where
  "update_timer ms t =
     (case timer_loop ms (m_nodes t) [] t of
        (cbs, newNodes, t') \<Rightarrow> (cbs, t'\<lparr>m_nodes := fold (\<lambda>(k, n). mm_insert k n) newNodes (m_nodes t')\<rparr>))"

section \<open>The invariant\<close>

definition timer_ok :: "Timer \<Rightarrow> bool" where
  "timer_ok t \<longleftrightarrow> sorted (map fst (m_nodes t)) \<and> distinct (map snd (m_nodes t)) \<and>
     (\<forall>(k, n) \<in> set (m_nodes t). k = tn_expire (t_store t n) \<and> n < t_fresh t \<and> sm_find (m_search t) (tn_id (t_store t n)) = Some n) \<and>
     (\<forall>i n. sm_find (m_search t) i = Some n \<longrightarrow> n \<in> snd ` set (m_nodes t) \<and> tn_id (t_store t n) = i) \<and> sm_wf (m_search t)"

lemma mm_insert_set [simp]: "set (mm_insert k v xs) = insert (k, v) (set xs)"
  by (induction k v xs rule: mm_insert.induct) auto

lemma mm_insert_mset: "mset (mm_insert k v xs) = add_mset (k, v) (mset xs)"
  by (induction k v xs rule: mm_insert.induct) auto

lemma mm_insert_sorted: "sorted (map fst xs) \<Longrightarrow> sorted (map fst (mm_insert k v xs))"
  by (induction k v xs rule: mm_insert.induct) force+

lemma mm_insert_distinct: "distinct (map snd (mm_insert k v xs)) \<longleftrightarrow> v \<notin> snd ` set xs \<and> distinct (map snd xs)"
  by (induction k v xs rule: mm_insert.induct) auto

lemma new_Timer_ok: "timer_ok new_Timer"
  by (simp add: timer_ok_def new_Timer_def sm_find_def sm_wf_def)

lemma timer_okD:
  assumes "timer_ok t"
  shows "sorted (map fst (m_nodes t))" "distinct (map snd (m_nodes t))" "sm_wf (m_search t)"
    "(k, n) \<in> set (m_nodes t) \<Longrightarrow> k = tn_expire (t_store t n)" "(k, n) \<in> set (m_nodes t) \<Longrightarrow> n < t_fresh t"
    "(k, n) \<in> set (m_nodes t) \<Longrightarrow> sm_find (m_search t) (tn_id (t_store t n)) = Some n"
    "sm_find (m_search t) i = Some n \<Longrightarrow> tn_id (t_store t n) = i"
    "sm_find (m_search t) i = Some n \<Longrightarrow> (tn_expire (t_store t n), n) \<in> set (m_nodes t)"
proof -
  show "(tn_expire (t_store t n), n) \<in> set (m_nodes t)" if "sm_find (m_search t) i = Some n"
  proof -
    from that assms obtain k where k: "(k, n) \<in> set (m_nodes t)" unfolding timer_ok_def by force
    moreover have "k = tn_expire (t_store t n)" using k assms unfolding timer_ok_def by blast
    ultimately show ?thesis by simp
  qed
qed (use assms in \<open>unfold timer_ok_def, blast+\<close>)

lemma timer_okI:
  assumes "sorted (map fst (m_nodes t))" "distinct (map snd (m_nodes t))" "sm_wf (m_search t)"
    and "\<And>k n. (k, n) \<in> set (m_nodes t) \<Longrightarrow> k = tn_expire (t_store t n) \<and> n < t_fresh t \<and> sm_find (m_search t) (tn_id (t_store t n)) = Some n"
    and "\<And>i n. sm_find (m_search t) i = Some n \<Longrightarrow> tn_id (t_store t n) = i \<and> n \<in> snd ` set (m_nodes t)"
  shows "timer_ok t"
  using assms unfolding timer_ok_def by blast

lemma addTimer_ok:
  assumes ok: "timer_ok t" and free: "sm_find (m_search t) (m_id t) = None"
  shows "timer_ok (snd (addTimer nowMs ms cb repeat t))"
proof -
  have new: "t_fresh t \<notin> snd ` set (m_nodes t)" using timer_okD(5) [OF ok] by fastforce
  have i: "tn_id (t_store t n) \<noteq> m_id t" "n \<noteq> t_fresh t" "n < t_fresh t" if "(k, n) \<in> set (m_nodes t)" for k n
    using timer_okD(5,6) [OF ok that] free by auto
  have j: "n \<noteq> t_fresh t" if "sm_find (m_search t) i = Some n" for i n
    using timer_okD(8) [OF ok that] i by blast
  show ?thesis
  proof (rule timer_okI)
    fix k n
    assume "(k, n) \<in> set (m_nodes (snd (addTimer nowMs ms cb repeat t)))"
    then show "k = tn_expire (t_store (snd (addTimer nowMs ms cb repeat t)) n) \<and> n < t_fresh (snd (addTimer nowMs ms cb repeat t)) \<and>
        sm_find (m_search (snd (addTimer nowMs ms cb repeat t))) (tn_id (t_store (snd (addTimer nowMs ms cb repeat t)) n)) = Some n"
      using i timer_okD(4,6) [OF ok] by (auto simp: addTimer_def Let_def less_Suc_eq)
  next
    fix k n
    assume "sm_find (m_search (snd (addTimer nowMs ms cb repeat t))) k = Some n"
    then show "tn_id (t_store (snd (addTimer nowMs ms cb repeat t)) n) = k \<and> n \<in> snd ` set (m_nodes (snd (addTimer nowMs ms cb repeat t)))"
      using j timer_okD(7,8) [OF ok] by (force simp: addTimer_def Let_def split: if_splits)
  qed (use timer_okD(1-3) [OF ok] new in \<open>simp_all add: addTimer_def Let_def mm_insert_sorted mm_insert_distinct\<close>)
qed

lemma find_unique:
  assumes "e \<in> set xs" and "P e" and "\<And>x. x \<in> set xs \<Longrightarrow> P x \<Longrightarrow> x = e"
  shows "find P xs = Some e"
proof (cases "find P xs")
  case None
  then show ?thesis using assms(1,2) by (simp add: find_None_iff)
next
  case (Some x)
  then have "x \<in> set xs" "P x" by (auto simp: find_Some_iff)
  then show ?thesis using assms(3) Some by simp
qed

lemma delTimer_eq:
  assumes ok: "timer_ok t" and i: "sm_find (m_search t) i = Some n"
  shows "delTimer i t = (True, t\<lparr>m_nodes := remove1 (tn_expire (t_store t n), n) (m_nodes t), m_search := sm_erase i (m_search t)\<rparr>)"
proof -
  have "find (\<lambda>(k, v). k = tn_expire (t_store t n) \<and> tn_id (t_store t v) = i) (m_nodes t) = Some (tn_expire (t_store t n), n)"
  proof (rule find_unique)
    fix e
    assume e: "e \<in> set (m_nodes t)" "case e of (k, v) \<Rightarrow> k = tn_expire (t_store t n) \<and> tn_id (t_store t v) = i"
    obtain k v where kv: "e = (k, v)" by (cases e)
    with e timer_okD(6) [OF ok, of k v] i show "e = (tn_expire (t_store t n), n)" by simp
  qed (use timer_okD(7,8) [OF ok i] in simp_all)
  then show ?thesis using i by (simp add: delTimer_def)
qed

lemma delTimer_ok:
  assumes ok: "timer_ok t"
  shows "timer_ok (snd (delTimer i t))"
proof (cases "sm_find (m_search t) i")
  case None
  then show ?thesis using assms by (simp add: delTimer_def)
next
  case (Some n)
  let ?e = "(tn_expire (t_store t n), n)"
  have d: "distinct (m_nodes t)" using timer_okD(2) [OF ok] distinct_map [of snd] by blast
  then have r: "remove1 ?e (m_nodes t) = filter (\<lambda>e. ?e \<noteq> e) (m_nodes t)"
    by (simp only: distinct_remove1_removeAll removeAll_filter_not_eq)
  have s: "sorted (map fst (remove1 ?e (m_nodes t)))" "distinct (map snd (remove1 ?e (m_nodes t)))"
    unfolding r using timer_okD(1,2) [OF ok] by (simp_all only: sorted_filter distinct_map_filter)
  have mem: "(k, m) \<in> set (remove1 ?e (m_nodes t)) \<longleftrightarrow> (k, m) \<in> set (m_nodes t) \<and> m \<noteq> n" for k m
    unfolding r using timer_okD(4) [OF ok, of k m] by auto
  show ?thesis unfolding delTimer_eq [OF ok Some]
  proof (rule timer_okI)
    fix k m
    assume "(k, m) \<in> set (m_nodes (snd (True, t\<lparr>m_nodes := remove1 ?e (m_nodes t), m_search := sm_erase i (m_search t)\<rparr>)))"
    then have "(k, m) \<in> set (m_nodes t)" "m \<noteq> n" using mem by simp_all
    with timer_okD(4-6) [OF ok this(1)] timer_okD(7) [OF ok Some] Some
    show "k = tn_expire (t_store (snd (True, t\<lparr>m_nodes := remove1 ?e (m_nodes t), m_search := sm_erase i (m_search t)\<rparr>)) m) \<and>
        m < t_fresh (snd (True, t\<lparr>m_nodes := remove1 ?e (m_nodes t), m_search := sm_erase i (m_search t)\<rparr>)) \<and>
        sm_find (m_search (snd (True, t\<lparr>m_nodes := remove1 ?e (m_nodes t), m_search := sm_erase i (m_search t)\<rparr>)))
          (tn_id (t_store (snd (True, t\<lparr>m_nodes := remove1 ?e (m_nodes t), m_search := sm_erase i (m_search t)\<rparr>)) m)) = Some m"
      by auto
  next
    fix k m
    assume "sm_find (m_search (snd (True, t\<lparr>m_nodes := remove1 ?e (m_nodes t), m_search := sm_erase i (m_search t)\<rparr>))) k = Some m"
    then have k: "sm_find (m_search t) k = Some m" "k \<noteq> i" by (simp_all split: if_splits)
    have "m \<noteq> n" using timer_okD(7) [OF ok k(1)] timer_okD(7) [OF ok Some] k(2) by auto
    then have "m \<in> snd ` set (remove1 ?e (m_nodes t))" using timer_okD(8) [OF ok k(1)] mem by force
    with timer_okD(7) [OF ok k(1)] show "tn_id (t_store (snd (True, t\<lparr>m_nodes := remove1 ?e (m_nodes t), m_search := sm_erase i (m_search t)\<rparr>)) m) = k \<and>
        m \<in> snd ` set (m_nodes (snd (True, t\<lparr>m_nodes := remove1 ?e (m_nodes t), m_search := sm_erase i (m_search t)\<rparr>)))"
      by simp
  qed (use s timer_okD(3) [OF ok] in simp_all)
qed

section \<open>Timers that are due\<close>

definition due_nodes :: "u64 \<Rightarrow> (u64 \<times> nat) list \<Rightarrow> nat list" where
  "due_nodes ms nodes = map snd (takeWhile (\<lambda>(k, n). k \<le> ms) nodes)"

lemma timer_loop_eq:
  assumes "distinct (map snd nodes)" and "\<forall>(k, n) \<in> set nodes. k = tn_expire (t_store t n)"
  shows "timer_loop ms nodes new t =
    (let due = due_nodes ms nodes; st = t_store t in
      (map (\<lambda>n. tn_cb (st n)) due,
       new @ map (\<lambda>n. (ms + tn_duration (st n), n)) (filter (\<lambda>n. tn_repeat (st n)) due),
       t\<lparr>m_nodes := dropWhile (\<lambda>(k, n). k \<le> ms) nodes,
         t_store := (\<lambda>n. if n \<in> set due \<and> tn_repeat (st n) then (st n)\<lparr>tn_expire := ms + tn_duration (st n)\<rparr> else st n),
         m_search := fold sm_erase (map (\<lambda>n. tn_id (st n)) (filter (\<lambda>n. \<not> tn_repeat (st n)) due)) (m_search t)\<rparr>))"
  using assms
proof (induction ms nodes new t rule: timer_loop.induct)
  case (1 ms new t)
  then show ?case by (simp add: due_nodes_def Let_def)
next
  case (2 ms k n nodes new t)
  then have k: "k = tn_expire (t_store t n)" and n: "n \<notin> snd ` set nodes" and d: "distinct (map snd nodes)"
    and e: "\<forall>(k, m) \<in> set nodes. k = tn_expire (t_store t m)" by auto
  have mem: "m \<in> snd ` set nodes" if "m \<in> set (due_nodes ms nodes)" for m
    using that by (auto simp: due_nodes_def dest: set_takeWhileD)
  have due: "due_nodes ms ((k, n) # nodes) = (if k \<le> ms then n # due_nodes ms nodes else [])"
    by (simp add: due_nodes_def)
  note due' = due [unfolded k]
  show ?case
  proof (cases "ms < k")
    case True
    then show ?thesis by (simp add: due' k Let_def)
  next
    case False
    have ne: "\<forall>m \<in> set (due_nodes ms nodes). m \<noteq> n" using mem n by auto
    show ?thesis
    proof (cases "tn_repeat (t_store t n)")
      case True
      let ?node = "(t_store t n)\<lparr>tn_expire := ms + tn_duration (t_store t n)\<rparr>"
      have "\<forall>(k, m) \<in> set nodes. k = tn_expire (((t_store t)(n := ?node)) m)"
      proof clarify
        fix k' m
        assume m: "(k', m) \<in> set nodes"
        then have "m \<noteq> n" using n by force
        then show "k' = tn_expire (((t_store t)(n := ?node)) m)" using e m by auto
      qed
      then have e': "\<forall>(k, m) \<in> set nodes. k = tn_expire (t_store (t\<lparr>t_store := (t_store t)(n := ?node)\<rparr>) m)" by simp
      have nlt: "\<not> ms < tn_expire (t_store t n)" using False k by simp
      note ih = 2(1) [OF refl nlt True refl d e']
      let ?st = "(t_store t)(n := ?node)" and ?due = "due_nodes ms nodes"
      have f: "tn_cb (?st m) = tn_cb (t_store t m)" "tn_duration (?st m) = tn_duration (t_store t m)" "tn_repeat (?st m) = tn_repeat (t_store t m)"
        "tn_id (?st m) = tn_id (t_store t m)" for m by simp_all
      have st: "(\<lambda>m. if m \<in> set ?due \<and> tn_repeat (t_store t m) then (?st m)\<lparr>tn_expire := ms + tn_duration (t_store t m)\<rparr> else ?st m) =
          (\<lambda>m. if m \<in> set (n # ?due) \<and> tn_repeat (t_store t m) then (t_store t m)\<lparr>tn_expire := ms + tn_duration (t_store t m)\<rparr> else t_store t m)"
        using ne True by (auto simp: fun_eq_iff)
      show ?thesis
        using ih False k True st by (simp add: due' Let_def f not_less del: fun_upd_apply cong: if_cong)
    next
      case once: False
      with 2(2) [OF refl _ once] d e False k ne show ?thesis
        by (simp add: due' Let_def fun_eq_iff)
    qed
  qed
qed

lemma fold_mm_insert:
  "set (fold (\<lambda>(k, n). mm_insert k n) new xs) = set new \<union> set xs"
  "sorted (map fst xs) \<Longrightarrow> sorted (map fst (fold (\<lambda>(k, n). mm_insert k n) new xs))"
  "distinct (map snd (new @ xs)) \<Longrightarrow> distinct (map snd (fold (\<lambda>(k, n). mm_insert k n) new xs))"
  by (induction new arbitrary: xs) (auto simp: mm_insert_sorted mm_insert_distinct)

lemma fold_sm_erase:
  "sm_find (fold sm_erase ks m) i = (if i \<in> set ks then None else sm_find m i)" "sm_wf m \<Longrightarrow> sm_wf (fold sm_erase ks m)"
  by (induction ks arbitrary: m) auto

lemma sorted_split_both:
  "sorted (map fst xs) \<Longrightarrow> takeWhile (\<lambda>(k, n). k \<le> ms) xs = filter (\<lambda>(k, n). k \<le> ms) xs \<and>
     dropWhile (\<lambda>(k, n). k \<le> ms) xs = filter (\<lambda>(k, n). \<not> k \<le> ms) xs"
proof (induction xs)
  case (Cons e xs)
  have "\<not> fst e \<le> ms \<Longrightarrow> \<forall>x \<in> set xs. \<not> fst x \<le> ms" using Cons.prems by fastforce
  then have "\<not> fst e \<le> ms \<Longrightarrow> filter (\<lambda>(k, n). k \<le> ms) xs = [] \<and> filter (\<lambda>(k, n). \<not> k \<le> ms) xs = xs"
    by (simp add: filter_empty_conv filter_id_conv case_prod_unfold)
  with Cons show ?case by (cases e) simp
qed simp

lemmas sorted_split = sorted_split_both [THEN conjunct1] sorted_split_both [THEN conjunct2]

text \<open>The timers as a map from ids: expiry, period, whether they repeat, and callback.\<close>

definition tabs :: "Timer \<Rightarrow> u32 \<Rightarrow> (u64 \<times> u64 \<times> bool \<times> nat) option" where
  "tabs t i = map_option (\<lambda>n. let d = t_store t n in (tn_expire d, tn_duration d, tn_repeat d, tn_cb d)) (sm_find (m_search t) i)"

definition tabs_update :: "u64 \<Rightarrow> (u64 \<times> u64 \<times> bool \<times> nat) option \<Rightarrow> (u64 \<times> u64 \<times> bool \<times> nat) option" where
  "tabs_update ms e =
     (case e of
        None \<Rightarrow> None
      | Some (expire, duration, repeat, cb) \<Rightarrow>
          if ms < expire then Some (expire, duration, repeat, cb)
          else if repeat then Some (ms + duration, duration, repeat, cb)
          else None)"

lemma addTimer_tabs:
  assumes "timer_ok t"
  shows "tabs (snd (addTimer nowMs ms cb repeat t)) = (tabs t)(m_id t \<mapsto> (nowMs + ms, ms, repeat, cb))"
proof
  fix i
  have "n \<noteq> t_fresh t" if "sm_find (m_search t) i = Some n" for n
    using timer_okD(5) [OF assms timer_okD(8) [OF assms that]] by simp
  then show "tabs (snd (addTimer nowMs ms cb repeat t)) i = ((tabs t)(m_id t \<mapsto> (nowMs + ms, ms, repeat, cb))) i"
    by (cases "sm_find (m_search t) i") (auto simp: tabs_def addTimer_def Let_def)
qed

lemma delTimer_tabs:
  assumes "timer_ok t"
  shows "tabs (snd (delTimer i t)) = (tabs t)(i := None)" "fst (delTimer i t) = (tabs t i \<noteq> None)"
proof -
  show "fst (delTimer i t) = (tabs t i \<noteq> None)"
    using delTimer_eq [OF assms] by (cases "sm_find (m_search t) i") (simp_all add: delTimer_def tabs_def)
  show "tabs (snd (delTimer i t)) = (tabs t)(i := None)"
    using delTimer_eq [OF assms] by (cases "sm_find (m_search t) i") (auto simp: delTimer_def tabs_def fun_eq_iff)
qed

lemma update_timer_eq:
  fixes ms
  assumes ok: "timer_ok t"
  defines "due \<equiv> map snd (filter (\<lambda>(k, n). k \<le> ms) (m_nodes t))" and "st \<equiv> t_store t"
  shows "update_timer ms t = (map (\<lambda>n. tn_cb (st n)) due,
    t\<lparr>m_nodes := fold (\<lambda>(k, n). mm_insert k n) (map (\<lambda>n. (ms + tn_duration (st n), n)) (filter (\<lambda>n. tn_repeat (st n)) due))
        (filter (\<lambda>(k, n). \<not> k \<le> ms) (m_nodes t)),
      t_store := (\<lambda>n. if n \<in> set due \<and> tn_repeat (st n) then (st n)\<lparr>tn_expire := ms + tn_duration (st n)\<rparr> else st n),
      m_search := fold sm_erase (map (\<lambda>n. tn_id (st n)) (filter (\<lambda>n. \<not> tn_repeat (st n)) due)) (m_search t)\<rparr>)"
proof -
  have "\<forall>(k, n) \<in> set (m_nodes t). k = tn_expire (t_store t n)" using timer_okD(4) [OF ok] by blast
  from timer_loop_eq [OF timer_okD(2) [OF ok] this, of ms "[]"] show ?thesis
    unfolding due_def st_def by (simp add: update_timer_def Let_def due_nodes_def sorted_split [OF timer_okD(1) [OF ok]])
qed

lemma due_iff:
  assumes ok: "timer_ok t" and n: "sm_find (m_search t) i = Some n"
  shows "n \<in> set (map snd (filter (\<lambda>(k, n). k \<le> ms) (m_nodes t))) \<longleftrightarrow> tn_expire (t_store t n) \<le> ms"
proof -
  have "(k, n) \<in> set (m_nodes t) \<longleftrightarrow> k = tn_expire (t_store t n)" for k
    using timer_okD(4) [OF ok, of k n] timer_okD(8) [OF ok n] by blast
  then show ?thesis by (auto simp: image_iff)
qed

lemma update_timer_ok:
  assumes ok: "timer_ok t" and u: "update_timer ms t = (cbs, t')"
  shows "timer_ok t'" "cbs = map (\<lambda>(k, n). tn_cb (t_store t n)) (filter (\<lambda>(k, n). k \<le> ms) (m_nodes t))"
    "tabs t' i = tabs_update ms (tabs t i)"
proof -
  define due where "due = map snd (filter (\<lambda>(k, n). k \<le> ms) (m_nodes t))"
  define new where "new = map (\<lambda>n. (ms + tn_duration (t_store t n), n)) (filter (\<lambda>n. tn_repeat (t_store t n)) due)"
  note eq = update_timer_eq [OF ok, of ms, folded due_def, folded new_def]
  have t': "t' = t\<lparr>m_nodes := fold (\<lambda>(k, n). mm_insert k n) new (filter (\<lambda>(k, n). \<not> k \<le> ms) (m_nodes t)),
      t_store := (\<lambda>n. if n \<in> set due \<and> tn_repeat (t_store t n) then (t_store t n)\<lparr>tn_expire := ms + tn_duration (t_store t n)\<rparr> else t_store t n),
      m_search := fold sm_erase (map (\<lambda>n. tn_id (t_store t n)) (filter (\<lambda>n. \<not> tn_repeat (t_store t n)) due)) (m_search t)\<rparr>"
    and cbs: "cbs = map (\<lambda>n. tn_cb (t_store t n)) due" using u eq by simp_all
  show "cbs = map (\<lambda>(k, n). tn_cb (t_store t n)) (filter (\<lambda>(k, n). k \<le> ms) (m_nodes t))"
    by (simp add: cbs due_def case_prod_unfold)
  note D = timer_okD [OF ok]
  have dueD: "\<exists>k. (k, n) \<in> set (m_nodes t) \<and> k \<le> ms" if "n \<in> set due" for n using that by (auto simp: due_def)
  have same: "n = m" if "n \<in> set due" "m \<in> snd ` set (m_nodes t)" "tn_id (t_store t n) = tn_id (t_store t m)" for n m
  proof -
    from dueD [OF that(1)] obtain k where k: "(k, n) \<in> set (m_nodes t)" by blast
    from that(2) obtain k' where k': "(k', m) \<in> set (m_nodes t)" by (elim imageE) (metis prod.collapse)
    have "Some n = Some m" unfolding D(6) [OF k, symmetric] D(6) [OF k', symmetric] that(3) ..
    then show ?thesis by (rule option.inject [THEN iffD1])
  qed
  have snds: "map snd (filter (\<lambda>(k, n). k \<le> ms) (m_nodes t)) = filter (\<lambda>n. tn_expire (t_store t n) \<le> ms) (map snd (m_nodes t))"
    "map snd (filter (\<lambda>(k, n). \<not> k \<le> ms) (m_nodes t)) = filter (\<lambda>n. \<not> tn_expire (t_store t n) \<le> ms) (map snd (m_nodes t))"
    unfolding filter_map o_def using D(4) by (auto intro!: arg_cong [of _ _ "map snd"] filter_cong)
  have dist: "distinct (map snd (new @ filter (\<lambda>(k, n). \<not> k \<le> ms) (m_nodes t)))"
    using D(2) by (auto simp: new_def o_def due_def snds)
  have dueI: "n \<in> set due \<longleftrightarrow> tn_expire (t_store t n) \<le> ms" if "sm_find (m_search t) i = Some n" for i n
    using due_iff [OF ok that] by (simp add: due_def)
  show "timer_ok t'" unfolding t'
  proof (rule timer_okI, goal_cases)
    case 1
    then show ?case using D(1) by (simp add: fold_mm_insert sorted_filter)
  next
    case 2
    then show ?case using fold_mm_insert(3) [OF dist] by simp
  next
    case 3
    then show ?case using D(3) by (simp add: fold_sm_erase)
  next
    case (4 k n)
    then have mem: "n \<in> set due \<and> tn_repeat (t_store t n) \<and> k = ms + tn_duration (t_store t n) \<or> (k, n) \<in> set (m_nodes t) \<and> \<not> k \<le> ms"
      by (auto simp: fold_mm_insert new_def)
    then obtain k0 where k0: "(k0, n) \<in> set (m_nodes t)" using dueD by blast
    have nd: "n \<in> set due \<and> tn_repeat (t_store t n) \<and> k = ms + tn_duration (t_store t n) \<or> n \<notin> set due \<and> k = tn_expire (t_store t n)"
      using mem D(4) dueD by metis
    have "tn_id (t_store t n) \<notin> (\<lambda>x. tn_id (t_store t x)) ` {x \<in> set due. \<not> tn_repeat (t_store t x)}"
    proof
      assume "tn_id (t_store t n) \<in> (\<lambda>x. tn_id (t_store t x)) ` {x \<in> set due. \<not> tn_repeat (t_store t x)}"
      then obtain x where x: "x \<in> set due" "\<not> tn_repeat (t_store t x)" "tn_id (t_store t x) = tn_id (t_store t n)" by auto
      have "n \<in> snd ` set (m_nodes t)" using k0 by force
      from same [OF x(1) this x(3)] x nd show False by auto
    qed
    then show ?case using nd D(5,6) [OF k0] by (auto simp: fold_sm_erase)
  next
    case (5 i n)
    then have i: "sm_find (m_search t) i = Some n" and ne: "i \<notin> (\<lambda>x. tn_id (t_store t x)) ` {x \<in> set due. \<not> tn_repeat (t_store t x)}"
      by (auto simp: fold_sm_erase split: if_splits)
    have "(tn_expire (t_store t n), n) \<in> set (m_nodes t)" by (rule D(8) [OF i])
    moreover have "n \<in> set due \<Longrightarrow> tn_repeat (t_store t n)" using ne D(7) [OF i] by auto
    ultimately have "(ms + tn_duration (t_store t n), n) \<in> set new \<or> (tn_expire (t_store t n), n) \<in> set (filter (\<lambda>(k, n). \<not> k \<le> ms) (m_nodes t))"
      using dueI [OF i] by (auto simp: new_def)
    then have "n \<in> snd ` (set new \<union> set (filter (\<lambda>(k, n). \<not> k \<le> ms) (m_nodes t)))" by force
    then show ?case using D(7) [OF i] by (simp add: fold_mm_insert(1) del: set_filter)
  qed
  show "tabs t' i = tabs_update ms (tabs t i)"
  proof (cases "sm_find (m_search t) i")
    case None
    then show ?thesis unfolding t' by (simp add: tabs_def tabs_update_def fold_sm_erase)
  next
    case (Some n)
    have n: "n \<in> snd ` set (m_nodes t)" using D(8) [OF Some] by force
    have "i \<in> (\<lambda>x. tn_id (t_store t x)) ` {x \<in> set due. \<not> tn_repeat (t_store t x)} \<longleftrightarrow> n \<in> set due \<and> \<not> tn_repeat (t_store t n)"
    proof
      assume "i \<in> (\<lambda>x. tn_id (t_store t x)) ` {x \<in> set due. \<not> tn_repeat (t_store t x)}"
      then obtain x where x: "x \<in> set due" "\<not> tn_repeat (t_store t x)" "tn_id (t_store t x) = i" by auto
      have "x = n" using same [OF x(1) n] x(3) D(7) [OF Some] by simp
      with x show "n \<in> set due \<and> \<not> tn_repeat (t_store t n)" by simp
    qed (use D(7) [OF Some] in auto)
    with Some dueI [OF Some] show ?thesis unfolding t'
      by (cases "tn_expire (t_store t n) \<le> ms") (simp_all add: tabs_def tabs_update_def fold_sm_erase Let_def not_le leD)
  qed
qed

section \<open>Timers in seconds\<close>

text \<open>Up to 49 days the two ways to add a timer agree; beyond, the milliseconds wrap.\<close>

lemma addSecondTimer_ms:
  assumes "unat sec * 1000 < 2 ^ 32"
  shows "addSecondTimer nowMs sec cb repeat t = addTimer nowMs (word_of_nat (unat sec * 1000)) cb repeat t"
proof -
  have "unat (sec * 1000) = unat sec * 1000" using assms by (simp add: unat_mult_lem [THEN iffD1])
  then have "ucast (sec * 1000) = (word_of_nat (unat sec * 1000) :: u64)" by (metis of_nat_unat)
  then show ?thesis by (simp add: addSecondTimer_def)
qed

lemma second_timer_wraps: "addSecondTimer nowMs 4294968 cb repeat t = addTimer nowMs 704 cb repeat t"
  by (simp add: addSecondTimer_def)

section \<open>Any sequence of operations\<close>

text \<open>A timer as a table from ids to expiry, period, repetition and callback.\<close>

datatype timer_op = TmAdd u64 u64 nat bool | TmDel u32 | TmUpdate u64

type_synonym timer_table = "u32 \<Rightarrow> (u64 \<times> u64 \<times> bool \<times> nat) option"

fun tm_apply :: "timer_op \<Rightarrow> Timer \<Rightarrow> nat list \<times> Timer" where
  "tm_apply (TmAdd nowMs ms cb repeat) t = ([], snd (addTimer nowMs ms cb repeat t))"
| "tm_apply (TmDel i) t = ([], snd (delTimer i t))"
| "tm_apply (TmUpdate ms) t = update_timer ms t"

definition due_ids :: "u64 \<Rightarrow> timer_table \<Rightarrow> u32 set" where
  "due_ids ms T = {i. \<exists>e d r cb. T i = Some (e, d, r, cb) \<and> e \<le> ms}"

definition cb_of :: "timer_table \<Rightarrow> u32 \<Rightarrow> nat" where
  "cb_of T i = (case T i of None \<Rightarrow> 0 | Some (e, d, r, cb) \<Rightarrow> cb)"

fun table_apply :: "timer_op \<Rightarrow> u32 \<times> timer_table \<Rightarrow> nat multiset \<times> u32 \<times> timer_table" where
  "table_apply (TmAdd nowMs ms cb repeat) (i, T) = ({#}, i + 1, T(i \<mapsto> (nowMs + ms, ms, repeat, cb)))"
| "table_apply (TmDel k) (i, T) = ({#}, i, T(k := None))"
| "table_apply (TmUpdate ms) (i, T) = (image_mset (cb_of T) (mset_set (due_ids ms T)), i, \<lambda>k. tabs_update ms (T k))"

fun tm_run :: "timer_op list \<Rightarrow> Timer \<Rightarrow> nat multiset list \<times> Timer" where
  "tm_run [] t = ([], t)"
| "tm_run (x # xs) t = (case tm_apply x t of (cbs, t1) \<Rightarrow> case tm_run xs t1 of (fs, t2) \<Rightarrow> (mset cbs # fs, t2))"

fun table_run :: "timer_op list \<Rightarrow> u32 \<times> timer_table \<Rightarrow> nat multiset list \<times> u32 \<times> timer_table" where
  "table_run [] T = ([], T)"
| "table_run (x # xs) T = (case table_apply x T of (f, T1) \<Rightarrow> case table_run xs T1 of (fs, T2) \<Rightarrow> (f # fs, T2))"

lemma update_timer_fires:
  assumes ok: "timer_ok t" and u: "update_timer ms t = (cbs, t')"
  shows "mset cbs = image_mset (cb_of (tabs t)) (mset_set (due_ids ms (tabs t)))"
proof -
  let ?due = "filter (\<lambda>(k, n). k \<le> ms) (m_nodes t)"
  let ?id = "\<lambda>(k, n). tn_id (t_store t n)"
  note D = timer_okD [OF ok]
  have at: "sm_find (m_search t) (?id x) = Some (snd x)" if "x \<in> set (m_nodes t)" for x
    using D(6) [of "fst x" "snd x"] that by (cases x) simp
  have cb: "cb_of (tabs t) (?id x) = tn_cb (t_store t (snd x))" if "x \<in> set ?due" for x
    using at [of x] that by (cases x) (simp add: cb_of_def tabs_def Let_def)
  have "inj_on ?id (set (m_nodes t))"
  proof (rule inj_onI)
    fix x y assume x: "x \<in> set (m_nodes t)" and y: "y \<in> set (m_nodes t)" and e: "?id x = ?id y"
    have "snd x = snd y" using at [OF x] at [OF y] e by simp
    then show "x = y" using D(4) [of "fst x" "snd x"] D(4) [of "fst y" "snd y"] x y by (cases x, cases y) simp
  qed
  then have "distinct (map ?id ?due)"
    using D(2) by (auto simp: distinct_map intro: inj_on_subset distinct_filter)
  then have "mset (map ?id ?due) = mset_set (set (map ?id ?due))" by (simp only: mset_set_set)
  moreover have "set (map ?id ?due) = due_ids ms (tabs t)"
  proof (rule set_eqI, rule iffI)
    fix i assume "i \<in> set (map ?id ?due)"
    then obtain k n where "(k, n) \<in> set (m_nodes t)" "k \<le> ms" "i = tn_id (t_store t n)" by auto
    then show "i \<in> due_ids ms (tabs t)" using D(4,6) [of k n] by (auto simp: due_ids_def tabs_def Let_def)
  next
    fix i assume "i \<in> due_ids ms (tabs t)"
    then obtain n where n: "sm_find (m_search t) i = Some n" "tn_expire (t_store t n) \<le> ms"
      by (auto simp: due_ids_def tabs_def Let_def)
    from D(7,8) [OF n(1)] n(2) show "i \<in> set (map ?id ?due)" by (force simp: image_iff)
  qed
  moreover have "map (\<lambda>(k, n). tn_cb (t_store t n)) ?due = map (cb_of (tabs t)) (map ?id ?due)"
    using cb by auto
  then have "mset cbs = image_mset (cb_of (tabs t)) (mset (map ?id ?due))"
    unfolding update_timer_ok(2) [OF ok u] by (simp only: mset_map)
  ultimately show ?thesis by simp
qed

lemma tabs_dom: "timer_ok t \<Longrightarrow> (tabs t i = None) = (sm_find (m_search t) i = None)"
  by (simp add: tabs_def)

lemma tm_apply_table:
  assumes ok: "timer_ok t" and free: "\<And>nowMs ms cb r. x = TmAdd nowMs ms cb r \<Longrightarrow> tabs t (m_id t) = None"
    and r: "tm_apply x t = (cbs, t')"
  shows "timer_ok t' \<and> table_apply x (m_id t, tabs t) = (mset cbs, m_id t', tabs t')"
proof (cases x)
  case (TmAdd nowMs ms cb repeat)
  then show ?thesis
    using r addTimer_ok [OF ok] addTimer_tabs [OF ok] free by (auto simp: tabs_def addTimer_def Let_def)
next
  case (TmDel i)
  have "m_id (snd (delTimer i t)) = m_id t" by (simp add: delTimer_def split: option.splits)
  then show ?thesis using r delTimer_ok [OF ok] delTimer_tabs(1) [OF ok] by (auto simp: TmDel)
next
  case (TmUpdate ms)
  then have u: "update_timer ms t = (cbs, t')" using r by simp
  have "m_id t' = m_id t" using u update_timer_eq [OF ok, of ms] by (auto simp: Let_def)
  then show ?thesis
    using update_timer_ok(1,3) [OF ok u] update_timer_fires [OF ok u] by (auto simp: TmUpdate fun_eq_iff)
qed

lemma table_apply_bound:
  assumes "\<forall>i \<ge> m. T i = None" and "table_apply x (m, T) = (f, m', T')" and "unat m < 2 ^ 32 - 1"
  shows "(\<forall>i \<ge> m'. T' i = None) \<and> unat m' \<le> Suc (unat m)"
proof (cases x)
  case (TmAdd nowMs ms cb repeat)
  have "unat (m + 1) = Suc (unat m)" using assms(3) by (simp add: unat_word_ariths)
  moreover have "m \<le> i \<and> i \<noteq> m" if "m + 1 \<le> i" for i
    using that calculation by (auto simp: word_le_nat_alt)
  ultimately show ?thesis using assms(1,2) by (auto simp: TmAdd)
qed (use assms in \<open>auto simp: tabs_update_def\<close>)

lemma timer_refines_table:
  assumes "timer_ok t" and "\<forall>i \<ge> m_id t. tabs t i = None" and "unat (m_id t) + length xs < 2 ^ 32"
    and "tm_run xs t = (fs, t')"
  shows "timer_ok t' \<and> table_run xs (m_id t, tabs t) = (fs, m_id t', tabs t')"
  using assms
proof (induction xs arbitrary: t fs t')
  case (Cons x xs)
  obtain cbs t1 where 1: "tm_apply x t = (cbs, t1)" by (cases "tm_apply x t")
  obtain gs t2 where 2: "tm_run xs t1 = (gs, t2)" by (cases "tm_run xs t1")
  have a: "timer_ok t1" "table_apply x (m_id t, tabs t) = (mset cbs, m_id t1, tabs t1)"
    using tm_apply_table [OF Cons.prems(1) _ 1] Cons.prems(2) by auto
  have b: "\<forall>i \<ge> m_id t1. tabs t1 i = None" "unat (m_id t1) \<le> Suc (unat (m_id t))"
    using table_apply_bound [OF Cons.prems(2) a(2)] Cons.prems(3) by simp_all
  from Cons.IH [OF a(1) b(1) _ 2] b(2) Cons.prems(3,4) 1 2 a(2) show ?case by auto
qed simp

end
