(* ===== verification/Util_File.thy ===== *)
theory Util_File
  imports Util_String Util_Config
begin

text \<open>
  \<open>source/util/util_file.cpp\<close>. The calls of the operating system are the fields of \<open>os\<close>, over a state
  of the file system; the path functions compute on strings.

  Main results: simplifying a path resolves its components like a walk that never leaves the root, and is
  stable (\<open>comps_simplified\<close>, \<open>simplified_idem\<close>); \<open>makeDirectoryRecursive\<close> leaves every directory on the
  way in place (\<open>mkdir_loop_ok\<close>); \<open>listDirectory\<close> lists a tree in order (\<open>scanRec_tree\<close>).
\<close>

datatype mkdir_result = Mkdir_ok | Mkdir_exists | Mkdir_fails

record 'fs os =
  os_home :: "'fs \<Rightarrow> string option"
  os_cwd :: "'fs \<Rightarrow> string option"
  os_realpath :: "string \<Rightarrow> 'fs \<Rightarrow> string option"
  os_load :: "string \<Rightarrow> 'fs \<Rightarrow> string"
  os_save :: "string \<Rightarrow> string \<Rightarrow> 'fs \<Rightarrow> 'fs"
  os_remove :: "string \<Rightarrow> 'fs \<Rightarrow> bool \<times> 'fs"
  os_rename :: "string \<Rightarrow> string \<Rightarrow> 'fs \<Rightarrow> bool \<times> 'fs"
  os_mkdir :: "string \<Rightarrow> 'fs \<Rightarrow> mkdir_result \<times> 'fs"
  os_isreg :: "string \<Rightarrow> 'fs \<Rightarrow> bool"
  os_isdir :: "string \<Rightarrow> 'fs \<Rightarrow> bool"
  os_scandir :: "string \<Rightarrow> 'fs \<Rightarrow> (string \<times> bool) list option"
  os_system :: "string \<Rightarrow> 'fs \<Rightarrow> int \<times> 'fs"

section \<open>Paths\<close>

definition or_empty :: "string option \<Rightarrow> string" where
  "or_empty s = (case s of None \<Rightarrow> [] | Some x \<Rightarrow> x)"

definition getHomeDir :: "'fs os \<Rightarrow> 'fs \<Rightarrow> string" where
  "getHomeDir K fs = or_empty (os_home K fs)"

definition getCurrentDir :: "'fs os \<Rightarrow> 'fs \<Rightarrow> string" where
  "getCurrentDir K fs = or_empty (os_cwd K fs)"

definition path_step :: "string list \<Rightarrow> string \<Rightarrow> string list" where
  "path_step vp f = (if f = ''..'' then (if vp \<noteq> [] then butlast vp else vp) else if f \<noteq> ''.'' then vp @ [f] else vp)"

fun path_text :: "string list \<Rightarrow> string" where
  "path_text [] = []"
| "path_text [x] = x"
| "path_text (x # v) = x @ ''/'' @ path_text v"

definition getSimplifiedPath :: "string \<Rightarrow> string" where
  "getSimplifiedPath sPath =
     (if sPath = [] then sPath
      else
        let vp = foldl path_step [] (splitString sPath ''/'' True) in
        (if sPath ! 0 = CHR ''/'' then ''/'' else []) @ path_text vp)"

definition is_home :: "string \<Rightarrow> bool" where
  "is_home s \<longleftrightarrow> s \<noteq> [] \<and> s ! 0 = CHR 0x7E \<and> (length s = 1 \<or> s ! 1 = CHR ''/'')"

definition getAbsolutePath :: "'fs os \<Rightarrow> 'fs \<Rightarrow> string \<Rightarrow> string \<Rightarrow> string" where
  "getAbsolutePath K fs sPath sBasePath =
     (if sPath \<noteq> [] \<and> sPath ! 0 = CHR ''/'' then getSimplifiedPath sPath
      else if is_home sPath then getSimplifiedPath (getHomeDir K fs @ ''/'' @ drop 1 sPath)
      else if sBasePath = [] then getSimplifiedPath (getCurrentDir K fs @ ''/'' @ sPath)
      else if sBasePath ! 0 = CHR ''/'' then getSimplifiedPath (sBasePath @ ''/'' @ sPath)
      else if is_home sBasePath then getSimplifiedPath (getHomeDir K fs @ ''/'' @ drop 1 sBasePath @ ''/'' @ sPath)
      else getSimplifiedPath (getCurrentDir K fs @ ''/'' @ sBasePath @ ''/'' @ sPath))"

definition getCanonicalPath :: "'fs os \<Rightarrow> 'fs \<Rightarrow> string \<Rightarrow> string" where
  "getCanonicalPath K fs sPath = or_empty (os_realpath K sPath fs)"

text \<open>The scans of \<open>getFileBasename\<close> and \<open>getFileDirname\<close> run backwards from \<open>pos\<close>.\<close>

fun back_slash :: "string \<Rightarrow> nat \<Rightarrow> nat" where
  "back_slash s 0 = 0"
| "back_slash s (Suc pos) = (if s ! pos = CHR ''/'' then back_slash s pos else Suc pos)"

fun back_name :: "string \<Rightarrow> nat \<Rightarrow> nat" where
  "back_name s 0 = 0"
| "back_name s (Suc pos) = (if s ! pos \<noteq> CHR ''/'' then back_name s pos else Suc pos)"

definition getFileBasename :: "string \<Rightarrow> string" where
  "getFileBasename sPath =
     (if sPath = [] then []
      else
        let last = back_slash sPath (length sPath) in
        if last = 0 then ''/''
        else let pos = back_name sPath last in take (last - pos) (drop pos sPath))"

definition getFileDirname :: "string \<Rightarrow> string" where
  "getFileDirname sPath =
     (if sPath = [] then ''.''
      else
        let pos = back_slash sPath (length sPath) in
        if pos = 0 then ''/''
        else
          let pos1 = back_name sPath pos in
          if pos1 = 0 then ''.''
          else
            let pos2 = back_slash sPath pos1 in
            if pos2 = 0 then ''/'' else take pos2 sPath)"

text \<open>\<open>npos\<close>, the result of \<open>rfind\<close> when there is no slash, is larger than every position.\<close>

definition getFileExt :: "string \<Rightarrow> bool \<Rightarrow> string" where
  "getFileExt sPath bWithDot =
     (case rfind_char sPath (CHR ''.'') of
        None \<Rightarrow> []
      | Some pos \<Rightarrow>
          if (case rfind_char sPath (CHR ''/'') of None \<Rightarrow> True | Some pos1 \<Rightarrow> pos < pos1) then []
          else drop (if bWithDot then pos else pos + 1) sPath)"

definition replaceFileExt :: "string \<Rightarrow> string \<Rightarrow> bool \<Rightarrow> string" where
  "replaceFileExt sPath sReplace bWithDot =
     (case rfind_char sPath (CHR ''.'') of
        None \<Rightarrow> sPath
      | Some pos \<Rightarrow>
          if (case rfind_char sPath (CHR ''/'') of None \<Rightarrow> False | Some pos1 \<Rightarrow> pos < pos1) then sPath
          else take (if bWithDot then pos else pos + 1) sPath @ sReplace)"

section \<open>Files and directories\<close>

definition loadFromFile :: "'fs os \<Rightarrow> string \<Rightarrow> 'fs \<Rightarrow> string" where
  "loadFromFile K sFileName fs = os_load K sFileName fs"

definition saveToFile :: "'fs os \<Rightarrow> string \<Rightarrow> string \<Rightarrow> 'fs \<Rightarrow> 'fs" where
  "saveToFile K sFileName sContent fs = os_save K sFileName sContent fs"

definition removeFile :: "'fs os \<Rightarrow> string \<Rightarrow> 'fs \<Rightarrow> bool \<times> 'fs" where
  "removeFile K sPath fs = os_remove K sPath fs"

definition moveFile :: "'fs os \<Rightarrow> string \<Rightarrow> string \<Rightarrow> 'fs \<Rightarrow> bool \<times> 'fs" where
  "moveFile K sPathFrom sPathTo fs = os_rename K sPathFrom sPathTo fs"

definition isFileExists :: "'fs os \<Rightarrow> string \<Rightarrow> 'fs \<Rightarrow> bool" where
  "isFileExists K sPath fs = os_isreg K sPath fs"

definition isDirectoryExists :: "'fs os \<Rightarrow> string \<Rightarrow> 'fs \<Rightarrow> bool" where
  "isDirectoryExists K sPath fs = os_isdir K sPath fs"

definition makeDirectory :: "'fs os \<Rightarrow> string \<Rightarrow> 'fs \<Rightarrow> bool \<times> 'fs" where
  "makeDirectory K sPath fs =
     (case os_mkdir K sPath fs of
        (Mkdir_ok, fs1) \<Rightarrow> (True, fs1)
      | (Mkdir_exists, fs1) \<Rightarrow> (isDirectoryExists K sPath fs1, fs1)
      | (Mkdir_fails, fs1) \<Rightarrow> (False, fs1))"

lemma find_char_range:
  assumes "find_char s c pos = Some p"
  shows "pos \<le> p" "p < length s" "s ! p = c" "\<And>i. pos \<le> i \<Longrightarrow> i < p \<Longrightarrow> s ! i \<noteq> c"
proof -
  obtain i where i: "find_idx (\<lambda>x. x = c) (drop pos s) = Some i" "p = pos + i"
    using assms by (auto simp: find_char_def)
  note f = i(1) [unfolded find_idx_Some]
  show "pos \<le> p" "p < length s" "s ! p = c" using f i(2) by auto
  show "s ! j \<noteq> c" if "pos \<le> j" "j < p" for j
  proof -
    have "i < length s - pos" using f by simp
    then have l: "pos \<le> length s" by linarith
    have "j - pos < i" using that i(2) by simp
    with f have "drop pos s ! (j - pos) \<noteq> c" by blast
    moreover have "drop pos s ! (j - pos) = s ! j" using l that(1) by (simp add: nth_drop)
    ultimately show ?thesis by simp
  qed
qed

text \<open>The loop of \<open>makeDirectoryRecursive\<close> from position \<open>pos\<close>.\<close>

function mkdir_loop :: "'fs os \<Rightarrow> string \<Rightarrow> nat \<Rightarrow> 'fs \<Rightarrow> bool \<times> 'fs" where
  "mkdir_loop K sAbsPath pos fs =
     (case find_char sAbsPath (CHR ''/'') pos of
        None \<Rightarrow> makeDirectory K sAbsPath fs
      | Some p \<Rightarrow>
          if p \<noteq> 0 then
            (case makeDirectory K (take p sAbsPath) fs of
               (ok, fs1) \<Rightarrow> if \<not> ok then (False, fs1) else mkdir_loop K sAbsPath (p + 1) fs1)
          else mkdir_loop K sAbsPath (p + 1) fs)"
  by pat_completeness auto
termination
  by (relation "measure (\<lambda>(K, s, pos, fs). length s - pos)")
    (use find_char_range(1,2) in \<open>fastforce+\<close>)

declare mkdir_loop.simps [simp del]

definition makeDirectoryRecursive :: "'fs os \<Rightarrow> string \<Rightarrow> 'fs \<Rightarrow> bool \<times> 'fs" where
  "makeDirectoryRecursive K sPath fs = mkdir_loop K (getAbsolutePath K fs sPath ''.'') 0 fs"

text \<open>Listing throws a \<open>runtime_error\<close>. The recursion follows the file system, which may be cyclic, so it has
  fuel; \<open>None\<close> when it runs out.\<close>

definition scanOneDirectory :: "'fs os \<Rightarrow> string \<Rightarrow> 'fs \<Rightarrow> string list \<Rightarrow> bool \<Rightarrow> string list throws" where
  "scanOneDirectory K sPath fs vFiles bWithDirectory =
     (case os_scandir K sPath fs of
        None \<Rightarrow> Inl ''list directory: scandir failed''
      | Some namelist \<Rightarrow>
          Inr (vFiles @ map fst (filter (\<lambda>(name, isDir). name \<noteq> ''.'' \<and> name \<noteq> ''..'' \<and> (bWithDirectory \<or> \<not> isDir)) namelist)))"

text \<open>The loop over the entries of one directory; \<open>descend\<close> is the recursive call.\<close>

fun scanRec_loop ::
  "(string \<Rightarrow> string \<Rightarrow> string list \<Rightarrow> string list throws option) \<Rightarrow> 'fs os \<Rightarrow> string \<Rightarrow> string \<Rightarrow> 'fs \<Rightarrow> bool \<Rightarrow>
     string list \<Rightarrow> string list \<Rightarrow> string list throws option" where
  "scanRec_loop descend K sPath sPrefix fs bWithDirectory [] vFiles = Some (Inr vFiles)"
| "scanRec_loop descend K sPath sPrefix fs bWithDirectory (sFile # v) vFiles =
     (let sAbsFile = sPath @ ''/'' @ sFile;
          bIsDir = isDirectoryExists K sAbsFile fs;
          vFiles1 = (if \<not> bIsDir \<or> bWithDirectory then vFiles @ [if sPrefix = [] then sFile else sPrefix @ sFile] else vFiles) in
      if bIsDir then
        (case descend sAbsFile (sPrefix @ sFile @ ''/'') vFiles1 of
           None \<Rightarrow> None
         | Some (Inl e) \<Rightarrow> Some (Inl e)
         | Some (Inr vFiles2) \<Rightarrow> scanRec_loop descend K sPath sPrefix fs bWithDirectory v vFiles2)
      else scanRec_loop descend K sPath sPrefix fs bWithDirectory v vFiles1)"

primrec scanRec :: "nat \<Rightarrow> 'fs os \<Rightarrow> 'fs \<Rightarrow> bool \<Rightarrow> string \<Rightarrow> string \<Rightarrow> string list \<Rightarrow> string list throws option" where
  "scanRec 0 K fs bWithDirectory sPath sPrefix vFiles = None"
| "scanRec (Suc n) K fs bWithDirectory sPath sPrefix vFiles =
     (case scanOneDirectory K sPath fs [] True of
        Inl e \<Rightarrow> Some (Inl e)
      | Inr v \<Rightarrow> scanRec_loop (scanRec n K fs bWithDirectory) K sPath sPrefix fs bWithDirectory v vFiles)"

definition listDirectory :: "nat \<Rightarrow> 'fs os \<Rightarrow> string \<Rightarrow> 'fs \<Rightarrow> string list \<Rightarrow> bool \<Rightarrow> bool \<Rightarrow> string list throws option" where
  "listDirectory n K sPath fs vFiles bRecursive bWithDirectory =
     (if \<not> isDirectoryExists K sPath fs then Some (Inl ''list directory: no such directory'')
      else if \<not> bRecursive then Some (scanOneDirectory K sPath fs vFiles bWithDirectory)
      else scanRec n K fs bWithDirectory sPath [] vFiles)"

definition doFile :: "'fs os \<Rightarrow> (unit \<Rightarrow> string) \<Rightarrow> string \<Rightarrow> 'fs \<Rightarrow> int throws \<times> 'fs" where
  "doFile K strerror sFileName fs =
     (case os_system K sFileName fs of
        (iRet, fs1) \<Rightarrow> if iRet \<noteq> 0 then (Inl (''system: '' @ strerror ()), fs1) else (Inr 0, fs1))"

section \<open>Simplified paths\<close>

definition comps :: "string \<Rightarrow> string list" where
  "comps s = splitString s ''/'' True"

definition comp_ok :: "string \<Rightarrow> bool" where
  "comp_ok x \<longleftrightarrow> x \<noteq> [] \<and> CHR ''/'' \<notin> set x \<and> x \<noteq> ''.'' \<and> x \<noteq> ''..''"

lemma comps_slash [simp]: "comps (CHR ''/'' # s) = comps s" "comps [] = []"
  by (simp_all add: comps_def splitString_fields strip_def)

lemma field_list_nonempty: "field_list P s \<noteq> []"
  by (induction s) (auto split: list.splits)

lemma field_list_snoc_sep: "P c \<Longrightarrow> field_list P (s @ c # t) = field_list P s @ field_list P t"
  by (induction s) (auto split: list.splits simp: field_list_nonempty)

lemma comps_join [simp]: "comps (s @ CHR ''/'' # t) = comps s @ comps t"
  by (simp add: comps_def splitString_fields strip_def field_list_snoc_sep)

lemma comps_elems: "x \<in> set (comps s) \<Longrightarrow> x \<noteq> [] \<and> CHR ''/'' \<notin> set x"
  using fields_no_sep [of x "\<lambda>c. c \<in> set ''/''" s] by (auto simp: comps_def splitString_fields strip_def)

lemma path_step_ok:
  assumes "\<forall>x \<in> set vp. comp_ok x" and "f \<noteq> []" and "CHR ''/'' \<notin> set f"
  shows "\<forall>x \<in> set (path_step vp f). comp_ok x"
  using assms by (auto simp: path_step_def comp_ok_def dest: in_set_butlastD)

lemma path_steps_ok:
  assumes "\<forall>x \<in> set vp. comp_ok x" and "\<forall>x \<in> set v. x \<noteq> [] \<and> CHR ''/'' \<notin> set x"
  shows "\<forall>x \<in> set (foldl path_step vp v). comp_ok x"
  using assms
proof (induction v arbitrary: vp)
  case (Cons f v)
  then have "\<forall>x \<in> set (path_step vp f). comp_ok x" by (intro path_step_ok) simp_all
  from Cons.IH [OF this] Cons.prems(2) show ?case by simp
qed simp

lemma path_steps_plain: "\<forall>x \<in> set v. comp_ok x \<Longrightarrow> foldl path_step vp v = vp @ v"
  by (induction v arbitrary: vp) (simp_all add: path_step_def comp_ok_def)

lemma comps_single: "x \<noteq> [] \<Longrightarrow> CHR ''/'' \<notin> set x \<Longrightarrow> comps x = [x]"
proof -
  assume x: "x \<noteq> []" "CHR ''/'' \<notin> set x"
  then have "\<forall>c \<in> set x. \<not> c = CHR ''/''" by auto
  from fields_none [OF this] x(1) show ?thesis by (simp add: comps_def splitString_fields strip_def)
qed

lemma path_text_comps: "\<forall>x \<in> set v. comp_ok x \<Longrightarrow> comps (path_text v) = v"
proof (induction v rule: path_text.induct)
  case (2 x)
  then show ?case by (simp add: comps_single comp_ok_def)
next
  case (3 x y v)
  then have "comps x = [x]" by (simp add: comps_single comp_ok_def)
  with 3 show ?case by simp
qed simp

lemma path_text_first: "\<forall>x \<in> set v. comp_ok x \<Longrightarrow> v \<noteq> [] \<Longrightarrow> path_text v \<noteq> [] \<and> path_text v ! 0 \<noteq> CHR ''/''"
proof (cases v rule: path_text.cases)
  case (2 x)
  assume "\<forall>x \<in> set v. comp_ok x"
  with 2 show ?thesis by (cases x) (auto simp: comp_ok_def)
next
  case (3 x y w)
  assume "\<forall>x \<in> set v. comp_ok x"
  with 3 show ?thesis by (cases x) (auto simp: comp_ok_def)
qed simp

text \<open>The components of a simplified path: those of the path, with dots dropped and every double dot
  taking the one before it away, if there is one.\<close>

lemma comps_simplified:
  "comps (getSimplifiedPath s) = foldl path_step [] (comps s)" "\<forall>x \<in> set (comps (getSimplifiedPath s)). comp_ok x"
proof -
  have ok: "\<forall>x \<in> set (foldl path_step [] (comps s)). comp_ok x"
    using path_steps_ok [of "[]" "comps s"] comps_elems by simp
  show "comps (getSimplifiedPath s) = foldl path_step [] (comps s)"
    using path_text_comps [OF ok] by (auto simp: getSimplifiedPath_def Let_def simp flip: comps_def)
  then show "\<forall>x \<in> set (comps (getSimplifiedPath s)). comp_ok x" using ok by simp
qed

lemma simplified_abs: "s \<noteq> [] \<and> s ! 0 = CHR ''/'' \<Longrightarrow> getSimplifiedPath s = ''/'' @ path_text (foldl path_step [] (comps s))"
  by (simp add: getSimplifiedPath_def comps_def)

lemma simplified_idem: "getSimplifiedPath (getSimplifiedPath s) = getSimplifiedPath s"
proof (cases "s = []")
  case False
  define v where "v = foldl path_step [] (comps s)"
  have ok: "\<forall>x \<in> set v. comp_ok x" using comps_simplified [of s] by (simp add: v_def)
  have g: "getSimplifiedPath s = (if s ! 0 = CHR ''/'' then ''/'' else []) @ path_text v"
    using False by (simp add: getSimplifiedPath_def v_def comps_def)
  show ?thesis
  proof (cases "s ! 0 = CHR ''/''")
    case True
    then have "getSimplifiedPath s = CHR ''/'' # path_text v" using g by simp
    then show ?thesis using ok path_text_comps [OF ok] path_steps_plain [OF ok, of "[]"]
      by (simp add: simplified_abs)
  next
    case rel: False
    then have "getSimplifiedPath s = path_text v" using g by simp
    moreover have "getSimplifiedPath (path_text v) = path_text v"
    proof (cases "v = []")
      case nonempty: False
      from path_text_first [OF ok this] show ?thesis
        using path_text_comps [OF ok] path_steps_plain [OF ok, of "[]"]
        by (simp add: getSimplifiedPath_def Let_def flip: comps_def)
    qed (simp add: getSimplifiedPath_def)
    ultimately show ?thesis by simp
  qed
qed (simp add: getSimplifiedPath_def)

text \<open>A relative path is resolved against its base.\<close>

lemma absolute_comps:
  assumes "b \<noteq> []" and "b ! 0 = CHR ''/''" and "\<not> (s \<noteq> [] \<and> s ! 0 = CHR ''/'')" and "\<not> is_home s"
  shows "comps (getAbsolutePath K fs s b) = foldl path_step (foldl path_step [] (comps b)) (comps s)"
    "getAbsolutePath K fs s b ! 0 = CHR ''/''"
proof -
  have g: "getAbsolutePath K fs s b = getSimplifiedPath (b @ ''/'' @ s)" using assms by (auto simp: getAbsolutePath_def)
  show "comps (getAbsolutePath K fs s b) = foldl path_step (foldl path_step [] (comps b)) (comps s)"
    by (simp add: g comps_simplified)
  show "getAbsolutePath K fs s b ! 0 = CHR ''/''"
    using assms(1,2) simplified_abs [of "b @ ''/'' @ s"] by (simp add: g nth_append)
qed

text \<open>A file name without a directory has no extension for \<open>getFileExt\<close>.\<close>

lemma getFileExt_plain: "CHR ''/'' \<notin> set s \<Longrightarrow> getFileExt s b = []"
  by (simp add: getFileExt_def rfind_none split: option.split)

lemma getFileExt_path:
  assumes "CHR ''.'' \<notin> set ext" and "CHR ''/'' \<notin> set ext"  and "CHR ''/'' \<notin> set name"
  shows "getFileExt (dir @ ''/'' @ name @ ''.'' @ ext) False = ext"
proof -
  have "rfind_char ((dir @ ''/'' @ name) @ CHR ''.'' # ext) (CHR ''.'') = Some (length (dir @ ''/'' @ name))"
    using assms(1) by (rule rfind_last)
  moreover have "rfind_char (dir @ CHR ''/'' # (name @ ''.'' @ ext)) (CHR ''/'') = Some (length dir)"
    using assms by (intro rfind_last) auto
  ultimately show ?thesis by (simp add: getFileExt_def)
qed

section \<open>Directories\<close>

text \<open>What the documentation of \<open>mkdir\<close> says: success makes a directory, and no directory goes away.\<close>

definition mkdir_law :: "'fs os \<Rightarrow> bool" where
  "mkdir_law K \<longleftrightarrow>
     (\<forall>p fs fs'. os_mkdir K p fs = (Mkdir_ok, fs') \<longrightarrow> os_isdir K p fs') \<and>
     (\<forall>p r fs fs' q. os_mkdir K p fs = (r, fs') \<longrightarrow> os_isdir K q fs \<longrightarrow> os_isdir K q fs')"

lemma makeDirectory_ok:
  assumes "mkdir_law K" and "makeDirectory K p fs = (ok, fs')"
  shows "ok \<Longrightarrow> os_isdir K p fs'" "os_isdir K q fs \<Longrightarrow> os_isdir K q fs'"
proof -
  obtain r where r: "os_mkdir K p fs = (r, fs')"
    using assms(2) by (auto simp: makeDirectory_def split: prod.splits mkdir_result.splits)
  show "os_isdir K q fs \<Longrightarrow> os_isdir K q fs'" using assms(1) r unfolding mkdir_law_def by blast
  show "ok \<Longrightarrow> os_isdir K p fs'"
    using assms r unfolding mkdir_law_def by (cases r) (auto simp: makeDirectory_def isDirectoryExists_def)
qed

text \<open>When \<open>makeDirectoryRecursive\<close> succeeds the directory and all those above it exist.\<close>

lemma mkdir_loop_ok:
  assumes "mkdir_law K" and "mkdir_loop K s pos fs = (ok, fs')"
  shows "(ok \<longrightarrow> os_isdir K s fs' \<and> (\<forall>p. pos \<le> p \<and> p < length s \<and> p \<noteq> 0 \<and> s ! p = CHR ''/'' \<longrightarrow> os_isdir K (take p s) fs')) \<and>
    (\<forall>q. os_isdir K q fs \<longrightarrow> os_isdir K q fs')"
  using assms
proof (induction K s pos fs rule: mkdir_loop.induct)
  case (1 K s pos fs)
  show ?case
  proof (cases "find_char s (CHR ''/'') pos")
    case None
    have no: "s ! p \<noteq> CHR ''/''" if "pos \<le> p" "p < length s" for p
    proof -
      have "s ! p = drop pos s ! (p - pos)" "p - pos < length (drop pos s)" using that by auto
      then have "s ! p \<in> set (drop pos s)" by (metis nth_mem)
      then show ?thesis using None by (auto simp: find_char_def find_idx_None)
    qed
    have "makeDirectory K s fs = (ok, fs')" using 1(4) None by (subst (asm) mkdir_loop.simps) simp
    from makeDirectory_ok [OF 1(3) this] no show ?thesis by blast
  next
    case (Some p)
    note r = find_char_range [OF Some]
    have slash: "i = p \<or> p + 1 \<le> i" if "pos \<le> i" "s ! i = CHR ''/''" for i
      using r(4) [OF that(1)] that(2) by (cases "i < p") auto
    show ?thesis
    proof (cases "p = 0")
      case True
      then have "mkdir_loop K s (p + 1) fs = (ok, fs')" using 1(4) Some by (subst (asm) mkdir_loop.simps) simp
      from 1(2) [OF Some _ 1(3) this] True slash show ?thesis by fastforce
    next
      case False
      obtain b fs1 where m: "makeDirectory K (take p s) fs = (b, fs1)" by (cases "makeDirectory K (take p s) fs")
      note md = makeDirectory_ok [OF 1(3) m]
      show ?thesis
      proof (cases b)
        case True
        then have "mkdir_loop K s (p + 1) fs1 = (ok, fs')" using 1(4) Some False m by (subst (asm) mkdir_loop.simps) simp
        from 1(1) [OF Some False m [symmetric] _ 1(3) this] True md slash show ?thesis by auto
      next
        case no: False
        then have "(ok, fs') = (False, fs1)" using 1(4) Some False m by (subst (asm) mkdir_loop.simps) simp
        then show ?thesis using md(2) by simp
      qed
    qed
  qed
qed

section \<open>Listings\<close>

datatype fs_tree = FsFile | FsDir "(string \<times> fs_tree) list"

fun holds_tree :: "'fs os \<Rightarrow> 'fs \<Rightarrow> string \<Rightarrow> fs_tree \<Rightarrow> bool" where
  "holds_tree K fs path FsFile \<longleftrightarrow> \<not> os_isdir K path fs"
| "holds_tree K fs path (FsDir es) \<longleftrightarrow> os_isdir K path fs \<and>
     (\<exists>names. os_scandir K path fs = Some names \<and> filter (\<lambda>x. x \<noteq> ''.'' \<and> x \<noteq> ''..'') (map fst names) = map fst es) \<and>
     (\<forall>e \<in> set es. holds_tree K fs (path @ ''/'' @ fst e) (snd e))"

fun tree_paths :: "bool \<Rightarrow> string \<Rightarrow> fs_tree \<Rightarrow> string list" where
  "tree_paths dirs pre FsFile = []"
| "tree_paths dirs pre (FsDir es) =
     concat (map (\<lambda>e. (if snd e = FsFile \<or> dirs then [pre @ fst e] else []) @ tree_paths dirs (pre @ fst e @ ''/'') (snd e)) es)"

fun tree_height :: "fs_tree \<Rightarrow> nat" where
  "tree_height FsFile = 0"
| "tree_height (FsDir es) = Suc (Max (insert 0 (set (map (\<lambda>e. tree_height (snd e)) es))))"

lemma scanRec_loop_tree:
  assumes "\<And>e vs. e \<in> set es \<Longrightarrow> snd e \<noteq> FsFile \<Longrightarrow>
      descend (path @ ''/'' @ fst e) (pre @ fst e @ ''/'') vs = Some (Inr (vs @ tree_paths dirs (pre @ fst e @ ''/'') (snd e)))"
    and "\<forall>e \<in> set es. holds_tree K fs (path @ ''/'' @ fst e) (snd e)"
  shows "scanRec_loop descend K path pre fs dirs (map fst es) vs = Some (Inr (vs @ tree_paths dirs pre (FsDir es)))"
  using assms
proof (induction es arbitrary: vs)
  case (Cons e es)
  have dir: "isDirectoryExists K (path @ ''/'' @ fst e) fs \<longleftrightarrow> snd e \<noteq> FsFile"
    using Cons.prems(2) by (cases "snd e") (simp_all add: isDirectoryExists_def)
  have ih: "scanRec_loop descend K path pre fs dirs (map fst es) vs = Some (Inr (vs @ tree_paths dirs pre (FsDir es)))" for vs
    by (rule Cons.IH) (use Cons.prems in auto)
  have d: "snd e \<noteq> FsFile \<Longrightarrow>
      descend (path @ ''/'' @ fst e) (pre @ fst e @ ''/'') ws = Some (Inr (ws @ tree_paths dirs (pre @ fst e @ ''/'') (snd e)))" for ws
    using Cons.prems(1) [of e ws] by simp
  show ?case
    by (cases "snd e = FsFile") (simp_all add: Let_def dir [simplified] ih d [simplified])
qed simp

text \<open>The listing of a tree, with enough fuel for its height: every file, and every directory if asked
  for, before what is below it.\<close>

lemma scanRec_tree:
  assumes "holds_tree K fs path (FsDir es)" and "tree_height (FsDir es) \<le> n"
  shows "scanRec n K fs dirs path pre vs = Some (Inr (vs @ tree_paths dirs pre (FsDir es)))"
  using assms
proof (induction n arbitrary: path pre vs es)
  case (Suc n)
  from Suc.prems(1) obtain names where names: "os_scandir K path fs = Some names"
    "filter (\<lambda>x. x \<noteq> ''.'' \<and> x \<noteq> ''..'') (map fst names) = map fst es" by auto
  have one: "scanOneDirectory K path fs [] True = Inr (map fst es)"
    using names by (simp add: scanOneDirectory_def filter_map comp_def case_prod_unfold)
  have "scanRec_loop (scanRec n K fs dirs) K path pre fs dirs (map fst es) vs = Some (Inr (vs @ tree_paths dirs pre (FsDir es)))"
  proof (rule scanRec_loop_tree)
    fix e ws
    assume e: "e \<in> set es" "snd e \<noteq> FsFile"
    then obtain fs' where d: "snd e = FsDir fs'" by (cases "snd e") auto
    have h: "tree_height (snd e) \<le> n" using Suc.prems(2) e(1) by simp
    have t: "holds_tree K fs (path @ ''/'' @ fst e) (snd e)" using Suc.prems(1) e(1) by simp
    show "scanRec n K fs dirs (path @ ''/'' @ fst e) (pre @ fst e @ ''/'') ws =
        Some (Inr (ws @ tree_paths dirs (pre @ fst e @ ''/'') (snd e)))"
      unfolding d by (rule Suc.IH) (use h t d in simp_all)
  qed (use Suc.prems(1) in simp)
  then show ?case by (simp add: one)
qed simp

end
