(* ===== verification/Util_Time.thy ===== *)
theory Util_Time
  imports Util_String
begin

text \<open>
  \<open>source/util/util_time.cpp\<close>. The C library's calendar (\<open>localtime_r\<close>, \<open>mktime\<close>, \<open>strftime\<close>,
  \<open>strptime\<close>) is the argument \<open>libc\<close> of the definitions that use it; \<open>time_t\<close> is \<open>int\<close>. A \<open>runtime_error\<close>
  is an \<open>Inl\<close>.

  Main results: the bisection \<open>findDst\<close> ends and returns a second at which the daylight saving flag
  changes (\<open>findDst_ok\<close>), \<open>parseDayTime\<close> reads back a printed time of day (\<open>parseDayTime_print\<close>), and a
  \<open>UtilTimer\<close> is ready once per interval without bursts (\<open>isReady_ok\<close>).
\<close>

record tm =
  tm_year :: int
  tm_mon :: int
  tm_mday :: int
  tm_hour :: int
  tm_min :: int
  tm_sec :: int
  tm_isdst :: int

definition zero_tm :: tm where
  "zero_tm = \<lparr>tm_year = 0, tm_mon = 0, tm_mday = 0, tm_hour = 0, tm_min = 0, tm_sec = 0, tm_isdst = 0\<rparr>"

record libc_time =
  localtime_r :: "int \<Rightarrow> tm"
  mktime :: "tm \<Rightarrow> int"
  strftime :: "string \<Rightarrow> tm \<Rightarrow> string"
  strptime :: "string \<Rightarrow> string \<Rightarrow> tm \<Rightarrow> tm option"

definition default_fmt :: string where
  "default_fmt = ''%Y-%m-%d %H:%M:%S''"

text \<open>The text is cut at the size of the buffer; \<open>strftime\<close> itself returns 0 and leaves no text when it
  does not fit.\<close>

definition formatTime :: "libc_time \<Rightarrow> u32 \<Rightarrow> string \<Rightarrow> string" where
  "formatTime L iTime fmt =
     (let s = strftime L fmt (localtime_r L (uint iTime)) in if length s \<ge> 256 then [] else s)"

definition parseTime_tm :: "libc_time \<Rightarrow> string \<Rightarrow> string \<Rightarrow> string + tm" where
  "parseTime_tm L sTime fmt =
     (case strptime L sTime fmt zero_tm of
        None \<Rightarrow> Inl (''invald time: '' @ sTime @ '', format: '' @ fmt)
      | Some t \<Rightarrow> Inr t)"

definition parseTime :: "libc_time \<Rightarrow> string \<Rightarrow> string \<Rightarrow> string + u32" where
  "parseTime L sTime fmt = map_sum id (\<lambda>t. word_of_int (mktime L t)) (parseTime_tm L sTime fmt)"

section \<open>Dates\<close>

text \<open>The offset is added in 32 bits before the conversion to \<open>time_t\<close>.\<close>

definition date_of :: "tm \<Rightarrow> u32" where
  "date_of t = word_of_int ((tm_year t + 1900) * 10000 + (tm_mon t + 1) * 100 + tm_mday t)"

definition getDate :: "libc_time \<Rightarrow> u32 \<Rightarrow> int \<Rightarrow> u32" where
  "getDate L iTime offset = date_of (localtime_r L (uint (iTime + word_of_int (offset * 86400))))"

definition getHour :: "libc_time \<Rightarrow> u32 \<Rightarrow> int \<Rightarrow> u32" where
  "getHour L iTime offset = word_of_int (tm_hour (localtime_r L (uint (iTime + word_of_int (offset * 3600)))))"

definition getDateHour :: "libc_time \<Rightarrow> u32 \<Rightarrow> int \<Rightarrow> u32" where
  "getDateHour L iTime offset =
     (let t = localtime_r L (uint (iTime + word_of_int (offset * 3600))) in
      word_of_int (((tm_year t + 1900) * 10000 + (tm_mon t + 1) * 100 + tm_mday t) * 100 + tm_hour t))"

text \<open>The fields are computed from unsigned numbers and stored in signed ones.\<close>

definition date_tm :: "u32 \<Rightarrow> u32 \<Rightarrow> tm" where
  "date_tm iDate iHour =
     zero_tm\<lparr>tm_year := sint (iDate div 10000 - 1900), tm_mon := sint (iDate div 100 mod 100 - 1),
       tm_mday := sint (iDate mod 100), tm_hour := sint iHour\<rparr>"

definition fromDate :: "libc_time \<Rightarrow> u32 \<Rightarrow> u32 \<Rightarrow> u32" where
  "fromDate L iDate iHour = word_of_int (mktime L (date_tm iDate iHour))"

section \<open>Times of day\<close>

definition parseDayTime :: "string \<Rightarrow> string + u32" where
  "parseDayTime sTime =
     (if sTime = [] then Inr 0
      else
        let vItem = splitString_u32 sTime '':'' True in
        if length vItem \<noteq> 3 \<or> vItem ! 0 > 23 \<or> vItem ! 1 > 59 \<or> vItem ! 2 > 59 then
          Inl (''invald day time format: '' @ sTime)
        else Inr (vItem ! 2 + vItem ! 1 * 100 + vItem ! 0 * 10000))"

definition getDayTime :: "libc_time \<Rightarrow> u32 \<Rightarrow> u32" where
  "getDayTime L iTime =
     (let t = localtime_r L (uint iTime) in word_of_int (tm_hour t * 10000 + tm_min t * 100 + tm_sec t))"

definition isInDayTimeRange :: "u32 \<Rightarrow> u32 \<Rightarrow> u32 \<Rightarrow> bool" where
  "isInDayTimeRange iTime lo hi \<longleftrightarrow> iTime \<ge> lo \<and> iTime \<le> hi"

section \<open>Daylight saving time\<close>

function dst_loop :: "(int \<Rightarrow> int) \<Rightarrow> int \<Rightarrow> int \<Rightarrow> int" where
  "dst_loop isdst a b =
     (let diff = b - a in
      if diff < 2 then b
      else
        let t = a + diff div 2 in
        if isdst a = isdst t then dst_loop isdst t b else dst_loop isdst a t)"
  by pat_completeness auto
termination
  by (relation "measure (\<lambda>(isdst, a, b). nat (b - a))") auto

declare dst_loop.simps [simp del]

definition findDst :: "libc_time \<Rightarrow> u32 \<Rightarrow> u32 \<Rightarrow> u32 option" where
  "findDst L iBeginTime iEndTime =
     (let isdst = \<lambda>t. tm_isdst (localtime_r L t) in
      if isdst (uint iBeginTime) = isdst (uint iEndTime) then None
      else Some (word_of_int (dst_loop isdst (uint iBeginTime) (uint iEndTime))))"

text \<open>The first result is written even when the second search fails.\<close>

definition getLocalDstTime :: "libc_time \<Rightarrow> u32 \<Rightarrow> u32 \<times> u32 \<Rightarrow> bool \<times> u32 \<times> u32" where
  "getLocalDstTime L iYear dst =
     (let a = fromDate L (iYear * 10000 + 101) 0; b = fromDate L (iYear * 10000 + 701) 0 - 1 in
      case findDst L a b of
        None \<Rightarrow> (False, dst)
      | Some iDst1 \<Rightarrow>
          let a2 = b + 1; b2 = fromDate L ((iYear + 1) * 10000 + 101) 0 - 1 in
          (case findDst L a2 b2 of
             None \<Rightarrow> (False, iDst1, snd dst)
           | Some iDst2 \<Rightarrow> (True, iDst1, iDst2)))"

section \<open>Interval timers\<close>

record UtilTimer =
  m_iInterval :: u64
  m_iLastTriggerTime :: u64

definition ut_reset :: "u64 \<Rightarrow> u64 \<Rightarrow> UtilTimer \<Rightarrow> UtilTimer" where
  "ut_reset iInterval iCurrTime t = t\<lparr>m_iInterval := iInterval, m_iLastTriggerTime := iCurrTime\<rparr>"

definition isReady :: "u64 \<Rightarrow> UtilTimer \<Rightarrow> bool \<times> UtilTimer" where
  "isReady iCurrTime t =
     (if m_iLastTriggerTime t + m_iInterval t > iCurrTime then (False, t)
      else if iCurrTime > m_iLastTriggerTime t + m_iInterval t + m_iInterval t then (True, t\<lparr>m_iLastTriggerTime := iCurrTime\<rparr>)
      else (True, t\<lparr>m_iLastTriggerTime := m_iLastTriggerTime t + m_iInterval t\<rparr>))"

section \<open>Properties\<close>

lemma dst_loop_ok:
  assumes "a < b" and "isdst a \<noteq> isdst b"
  shows "a < dst_loop isdst a b \<and> dst_loop isdst a b \<le> b \<and>
    isdst (dst_loop isdst a b - 1) = isdst a \<and> isdst (dst_loop isdst a b) \<noteq> isdst a"
  using assms
proof (induction isdst a b rule: dst_loop.induct)
  case (1 isdst a b)
  show ?case
  proof (cases "b - a < 2")
    case True
    with 1(3) have "b = a + 1" by simp
    then show ?thesis using 1(4) by (simp add: dst_loop.simps)
  next
    case False
    define t where "t = a + (b - a) div 2"
    have t: "a < t" "t < b" using False by (simp_all add: t_def)
    show ?thesis
    proof (cases "isdst a = isdst t")
      case True
      with 1(1) [OF refl False t_def True t(2)] 1(4) t have
        "t < dst_loop isdst t b \<and> dst_loop isdst t b \<le> b \<and> isdst (dst_loop isdst t b - 1) = isdst t \<and> isdst (dst_loop isdst t b) \<noteq> isdst t"
        by simp
      moreover have "dst_loop isdst a b = dst_loop isdst t b"
        using False True by (subst dst_loop.simps) (simp add: t_def Let_def)
      ultimately show ?thesis using True t by simp
    next
      case neq: False
      moreover have "dst_loop isdst a b = dst_loop isdst a t"
        using False neq by (subst dst_loop.simps) (simp add: t_def Let_def)
      ultimately show ?thesis using 1(2) [OF refl False t_def neq t(1)] t by simp
    qed
  qed
qed

lemma findDst_ok:
  assumes "findDst L a b = Some r" and "a < b"
  shows "a < r \<and> r \<le> b \<and> tm_isdst (localtime_r L (uint r - 1)) = tm_isdst (localtime_r L (uint a)) \<and>
    tm_isdst (localtime_r L (uint r)) \<noteq> tm_isdst (localtime_r L (uint a))"
proof -
  let ?d = "\<lambda>t. tm_isdst (localtime_r L t)" let ?r = "dst_loop ?d (uint a) (uint b)"
  have ne: "?d (uint a) \<noteq> ?d (uint b)" and r: "r = word_of_int ?r"
    using assms(1) by (auto simp: findDst_def Let_def split: if_splits)
  have "uint a < uint b" using assms(2) by (simp add: word_less_def)
  note l = dst_loop_ok [OF this ne]
  have "0 \<le> uint a" "uint b < 2 ^ 32" using uint_lt2p [of b] by simp_all
  with l have "0 \<le> ?r" "?r < 2 ^ 32" by linarith+
  then have "uint r = ?r" by (simp add: r uint_word_of_int take_bit_int_eq_self)
  with l show ?thesis by (simp add: word_less_def word_le_def)
qed

lemma findDst_none: "findDst L a b = None \<longleftrightarrow> tm_isdst (localtime_r L (uint a)) = tm_isdst (localtime_r L (uint b))"
  by (simp add: findDst_def Let_def)

text \<open>A time of day with three fields is accepted exactly when they are in range, and its value is below
  a day's end.\<close>

lemma parseDayTime_fields:
  assumes "\<forall>x \<in> {h, m, s}. x \<noteq> [] \<and> CHR '':'' \<notin> set x"
  shows "parseDayTime (h @ '':'' @ m @ '':'' @ s) =
    (if strto_u32 h \<le> 23 \<and> strto_u32 m \<le> 59 \<and> strto_u32 s \<le> 59
     then Inr (strto_u32 s + strto_u32 m * 100 + strto_u32 h * 10000)
     else Inl (''invald day time format: '' @ h @ '':'' @ m @ '':'' @ s))"
proof -
  have "splitString (joinString [h, m, s] [CHR '':'']) '':'' True = [h, m, s]"
    by (rule splitString_joinString) (use assms in auto)
  moreover have "joinString [h, m, s] [CHR '':''] = h @ '':'' @ m @ '':'' @ s"
    using assms by (simp add: joinString_def)
  ultimately show ?thesis
    using assms by (auto simp: parseDayTime_def splitString_u32_def Let_def not_le)
qed

lemma parseDayTime_bound:
  assumes "parseDayTime sTime = Inr v"
  shows "v \<le> 235959"
proof (cases "sTime = []")
  case False
  define w where "w = splitString_u32 sTime '':'' True"
  from assms False have r: "w ! 0 \<le> 23" "w ! 1 \<le> 59" "w ! 2 \<le> 59" and v: "v = w ! 2 + w ! 1 * 100 + w ! 0 * 10000"
    by (auto simp: parseDayTime_def w_def Let_def not_less split: if_splits)
  have "unat (w ! 0) \<le> 23" "unat (w ! 1) \<le> 59" "unat (w ! 2) \<le> 59"
    using r by (simp_all add: word_le_nat_alt)
  then show ?thesis unfolding v word_le_nat_alt by (simp add: unat_word_ariths)
qed (use assms in \<open>simp add: parseDayTime_def\<close>)

lemma parseDayTime_print:
  assumes "h \<le> 23" and "m \<le> 59" and "s \<le> 59"
  shows "parseDayTime (tostr_u32 h @ '':'' @ tostr_u32 m @ '':'' @ tostr_u32 s) = Inr (s + m * 100 + h * 10000)"
proof -
  have "tostr_u32 n \<noteq> []" for n by (simp add: tostr_u32_def)
  moreover have "CHR '':'' \<notin> set (tostr_u32 n)" for n
  proof
    assume "CHR '':'' \<in> set (tostr_u32 n)"
    then have "is_digit_of 10 (CHR '':'')" unfolding tostr_u32_def by (rule dec_digits_digits)
    then show False by (simp add: is_digit_of_def digit_val_def isdigit_c_def)
  qed
  ultimately have "\<forall>x \<in> {tostr_u32 h, tostr_u32 m, tostr_u32 s}. x \<noteq> [] \<and> CHR '':'' \<notin> set x" by simp
  from parseDayTime_fields [OF this] assms show ?thesis by (simp only: strto_u32_tostr) simp
qed

text \<open>Numbers are read with the prefixes of C, so a field with a leading zero is octal: \<open>09\<close> is 0.\<close>

lemma parseDayTime_octal: "parseDayTime ''23:09:12'' = Inr 230012"
proof -
  have "strto_u32 ''23'' = 23" "strto_u32 ''09'' = 0" "strto_u32 ''12'' = 12"
    by (simp_all add: strto_u32_def strtoull_def saturate_u64_def is_digit_of_def digit_val_def isspace_def)
  with parseDayTime_fields [of "''23''" "''09''" "''12''"] show ?thesis by simp
qed

text \<open>Ready exactly when an interval has passed since the last trigger; afterwards the last trigger is not
  ahead of time and at most one interval behind, so a late timer is ready at most once more at once.\<close>

lemma isReady_ok:
  assumes "unat (m_iLastTriggerTime t) + 2 * unat (m_iInterval t) < 2 ^ 64"
  shows "fst (isReady now t) \<longleftrightarrow> unat (m_iLastTriggerTime t) + unat (m_iInterval t) \<le> unat now"
    "fst (isReady now t) \<Longrightarrow> m_iLastTriggerTime (snd (isReady now t)) \<le> now \<and>
       unat now - unat (m_iLastTriggerTime (snd (isReady now t))) \<le> unat (m_iInterval t)"
    "\<not> fst (isReady now t) \<Longrightarrow> snd (isReady now t) = t"
proof -
  let ?l = "m_iLastTriggerTime t" and ?i = "m_iInterval t"
  have s: "unat (?l + ?i) = unat ?l + unat ?i" "unat (?l + ?i + ?i) = unat ?l + 2 * unat ?i"
    using assms by (simp_all add: unat_word_ariths)
  show "fst (isReady now t) \<longleftrightarrow> unat ?l + unat ?i \<le> unat now"
    using s by (auto simp: isReady_def word_less_nat_alt word_le_nat_alt)
  show "fst (isReady now t) \<Longrightarrow> m_iLastTriggerTime (snd (isReady now t)) \<le> now \<and>
      unat now - unat (m_iLastTriggerTime (snd (isReady now t))) \<le> unat ?i"
    using s by (auto simp: isReady_def word_less_nat_alt word_le_nat_alt split: if_splits)
  show "\<not> fst (isReady now t) \<Longrightarrow> snd (isReady now t) = t"
    by (auto simp: isReady_def split: if_splits)
qed

section \<open>The clock\<close>

record timeval =
  tmv_sec :: u64
  tmv_usec :: u64

definition getNow :: "timeval \<Rightarrow> u32" where
  "getNow tv = ucast (tmv_sec tv)"

definition getNowMS :: "timeval \<Rightarrow> u64" where
  "getNowMS tv = tmv_sec tv * 1000 + tmv_usec tv div 1000"

definition getNowUs :: "timeval \<Rightarrow> u64" where
  "getNowUs tv = tmv_sec tv * 1000000 + tmv_usec tv"

text \<open>The three clocks agree for as long as microseconds fit into 64 bits.\<close>

lemma clocks_agree:
  assumes "unat (tmv_usec tv) < 10 ^ 6" and "unat (tmv_sec tv) < 2 ^ 43"
  shows "unat (getNowUs tv) = unat (tmv_sec tv) * 10 ^ 6 + unat (tmv_usec tv)"
    and "unat (getNowMS tv) = unat (getNowUs tv) div 1000"
    and "unat (tmv_sec tv) = unat (getNowMS tv) div 1000"
proof -
  have u: "unat (tmv_sec tv * 1000000) = unat (tmv_sec tv) * 1000000" "unat (tmv_sec tv * 1000) = unat (tmv_sec tv) * 1000"
    using assms(2) by (simp_all add: unat_word_ariths)
  show us: "unat (getNowUs tv) = unat (tmv_sec tv) * 10 ^ 6 + unat (tmv_usec tv)"
    using assms by (simp add: getNowUs_def unat_word_ariths)
  have ms: "unat (getNowMS tv) = unat (tmv_sec tv) * 1000 + unat (tmv_usec tv) div 1000"
    using assms by (simp add: getNowMS_def unat_word_ariths unat_div)
  show "unat (getNowMS tv) = unat (getNowUs tv) div 1000"
    unfolding us ms by (simp add: div_add1_eq [of "unat (tmv_sec tv) * 1000000"])
  show "unat (tmv_sec tv) = unat (getNowMS tv) div 1000"
    unfolding ms using assms(1) by simp
qed

end
