(* ===== verification/Util_Log.thy ===== *)
theory Util_Log
  imports Util_File Util_Time "HOL-Library.Monad_Syntax"
begin

text \<open>
  \<open>source/util/util_log.cpp\<close>: log files that roll over by size, by day or by hour, and the manager that
  routes entries to them at once or through the queue of a log thread. Files are the map \<open>d_files\<close> of a
  disk from paths to contents; \<open>d_denied\<close> are the paths that cannot be opened. An open \<open>FILE*\<close> is the path
  it was opened at.

  \<open>RollLog::prepareLogFile\<close> calls itself until the file is small enough, which may never end: it is a
  \<open>partial_function\<close> whose value is \<open>None\<close> then. Main results: with at least one file and a positive
  size every entry is written, at the end, and only the oldest file is given up for it
  (\<open>roll_write\<close>); with no file or no size the first full file makes the call never return
  (\<open>roll_zero_diverges\<close>); the queue writes what the direct calls write (\<open>drain_logs\<close>).
\<close>

section \<open>The disk\<close>

record Disk =
  d_files :: "string \<Rightarrow> string option"
  d_denied :: "string \<Rightarrow> bool"
  d_dirs :: "string \<Rightarrow> bool"
  d_cwd :: "string option"
  d_home :: "string option"

definition d_text :: "Disk \<Rightarrow> string \<Rightarrow> string" where
  "d_text d p = (case d_files d p of None \<Rightarrow> [] | Some s \<Rightarrow> s)"

definition d_remove :: "string \<Rightarrow> Disk \<Rightarrow> bool \<times> Disk" where
  "d_remove p d = (d_files d p \<noteq> None, d\<lparr>d_files := (d_files d)(p := None)\<rparr>)"

definition d_rename :: "string \<Rightarrow> string \<Rightarrow> Disk \<Rightarrow> bool \<times> Disk" where
  "d_rename p q d =
     (case d_files d p of
        None \<Rightarrow> (False, d)
      | Some s \<Rightarrow> (True, d\<lparr>d_files := (d_files d)(p := None, q := Some s)\<rparr>))"

definition d_mkdir :: "string \<Rightarrow> Disk \<Rightarrow> mkdir_result \<times> Disk" where
  "d_mkdir p d =
     (if d_dirs d p \<or> d_files d p \<noteq> None then (Mkdir_exists, d)
      else if d_denied d p \<or> \<not> d_dirs d (getFileDirname p) then (Mkdir_fails, d)
      else (Mkdir_ok, d\<lparr>d_dirs := (d_dirs d)(p := True)\<rparr>))"

text \<open>The calls a log does not make fail on this disk.\<close>

definition disk_os :: "Disk os" where
  "disk_os =
     \<lparr>os_home = d_home, os_cwd = d_cwd, os_realpath = (\<lambda>p d. None), os_load = (\<lambda>p d. d_text d p),
      os_save = (\<lambda>p s d. if d_denied d p then d else d\<lparr>d_files := (d_files d)(p := Some s)\<rparr>), os_remove = d_remove, os_rename = d_rename,
      os_mkdir = d_mkdir, os_isreg = (\<lambda>p d. d_files d p \<noteq> None), os_isdir = (\<lambda>p d. d_dirs d p),
      os_scandir = (\<lambda>p d. None), os_system = (\<lambda>p d. (-1, d))\<rparr>"

lemma disk_mkdir_law: "mkdir_law disk_os"
  by (auto simp: mkdir_law_def disk_os_def d_mkdir_def split: if_splits)

text \<open>\<open>fopen\<close> with mode \<open>a+\<close>, and a write at the end.\<close>

definition fopen_append :: "string \<Rightarrow> Disk \<Rightarrow> Disk option" where
  "fopen_append p d = (if d_denied d p then None else Some (d\<lparr>d_files := (d_files d)(p := Some (d_text d p))\<rparr>))"

definition fwrite :: "string \<Rightarrow> string \<Rightarrow> Disk \<Rightarrow> Disk" where
  "fwrite p s d = d\<lparr>d_files := (d_files d)(p := Some (d_text d p @ s))\<rparr>"

section \<open>The log files\<close>

datatype LogType = LogType_Roll | LogType_Day | LogType_Hour

datatype LogLevel = LogLevel_Debug | LogLevel_Info | LogLevel_Error | LogLevel_Exception | LogLevel_None

record LogData =
  ld_logName :: string
  ld_logType :: LogType
  ld_logTime :: u32
  ld_content :: string

record LogBase =
  lb_type :: LogType
  lb_path :: string
  lb_fileName :: string
  m_fullFileName :: string
  m_fileSize :: u64
  m_openTime :: u32
  m_lastTime :: u32
  m_fp :: "string option"
  m_maxFile :: u32
  m_maxSize :: u64

definition FILE_REOPEN_INTERVAL :: u32 where
  "FILE_REOPEN_INTERVAL = 10"

definition new_LogBase :: "LogType \<Rightarrow> string \<Rightarrow> string \<Rightarrow> string \<Rightarrow> LogBase" where
  "new_LogBase ty path fileNamePrefix fileName =
     (let p = (if path = [] then ''.'' else path) in
      \<lparr>lb_type = ty, lb_path = p, lb_fileName = fileName,
       m_fullFileName = (if fileName = [] then p @ ''/'' @ fileNamePrefix else p @ ''/'' @ fileNamePrefix @ ''_'' @ fileName),
       m_fileSize = 0, m_openTime = 0, m_lastTime = 0, m_fp = None, m_maxFile = 10, m_maxSize = 100 * 1024 * 1024\<rparr>)"

definition setInfo :: "u32 \<Rightarrow> u64 \<Rightarrow> LogBase \<Rightarrow> LogBase" where
  "setInfo maxFileNum maxFileSize l = l\<lparr>m_maxFile := maxFileNum, m_maxSize := maxFileSize\<rparr>"

definition getRollLogFileName :: "LogBase \<Rightarrow> u32 \<Rightarrow> string" where
  "getRollLogFileName l index =
     (if index = 0 then m_fullFileName l @ ''.log'' else m_fullFileName l @ tostr_u32 index @ ''.log'')"

text \<open>Opening the file of a name, after closing the old one: the part the three kinds share.\<close>

definition reopen :: "string \<Rightarrow> u32 \<Rightarrow> LogBase \<Rightarrow> Disk \<Rightarrow> bool \<times> LogBase \<times> Disk" where
  "reopen fileName logTime l d =
     (let l1 = l\<lparr>m_fp := None, m_openTime := logTime\<rparr> in
      case fopen_append fileName d of
        None \<Rightarrow> (False, l1, d)
      | Some d1 \<Rightarrow> (True, l1\<lparr>m_fp := Some fileName, m_fileSize := word_of_nat (length (d_text d1 fileName))\<rparr>, d1))"

definition must_reopen :: "bool \<Rightarrow> u32 \<Rightarrow> LogBase \<Rightarrow> bool" where
  "must_reopen changed logTime l \<longleftrightarrow> m_fp l = None \<or> changed \<or> logTime - FILE_REOPEN_INTERVAL > m_openTime l"

text \<open>The renames count down from \<open>m_maxFile - 2\<close>, computed unsigned and read as a signed number.\<close>

definition roll_files :: "LogBase \<Rightarrow> Disk \<Rightarrow> Disk" where
  "roll_files l d =
     (let d1 = snd (removeFile disk_os (getRollLogFileName l (m_maxFile l - 1)) d) in
      fold (\<lambda>i d. snd (moveFile disk_os (getRollLogFileName l (word_of_nat i)) (getRollLogFileName l (word_of_nat i + 1)) d))
        (rev [0..<nat (sint (m_maxFile l - 2) + 1)]) d1)"

partial_function (option) roll_prepare :: "u32 \<Rightarrow> LogBase \<Rightarrow> Disk \<Rightarrow> (bool \<times> LogBase \<times> Disk) option" where
  "roll_prepare logTime l d =
     (case (if must_reopen False logTime l then reopen (getRollLogFileName l 0) logTime l d else (True, l, d)) of
        (opened, l1, d1) \<Rightarrow>
          if \<not> opened then Some (False, l1, d1)
          else if m_fileSize l1 < m_maxSize l1 then Some (True, l1, d1)
          else roll_prepare logTime (l1\<lparr>m_fp := None\<rparr>) (roll_files l1 d1))"

definition dated_prepare :: "u32 \<Rightarrow> u32 \<Rightarrow> string \<Rightarrow> u32 \<Rightarrow> LogBase \<Rightarrow> Disk \<Rightarrow> bool \<times> LogBase \<times> Disk" where
  "dated_prepare now before name logTime l d =
     (if must_reopen (now \<noteq> before) logTime l then reopen (m_fullFileName l @ ''_'' @ name @ ''.log'') logTime l d
      else (True, l, d))"

definition day_prepare :: "libc_time \<Rightarrow> u32 \<Rightarrow> LogBase \<Rightarrow> Disk \<Rightarrow> bool \<times> LogBase \<times> Disk" where
  "day_prepare L logTime l d =
     (let nowDate = getDate L logTime 0; lastDate = getDate L (m_lastTime l) 0 in
      dated_prepare nowDate lastDate (tostr_u32 nowDate) logTime l d)"

definition hour_prepare :: "libc_time \<Rightarrow> u32 \<Rightarrow> LogBase \<Rightarrow> Disk \<Rightarrow> bool \<times> LogBase \<times> Disk" where
  "hour_prepare L logTime l d =
     (let nowDateHour = getDateHour L logTime 0; lastDateHour = getDateHour L (m_lastTime l) 0 in
      dated_prepare nowDateHour lastDateHour
        (tostr_int (sint (nowDateHour div 100)) @ ''_'' @ tostr_int (sint (nowDateHour mod 100))) logTime l d)"

definition prepareLogFile :: "libc_time \<Rightarrow> u32 \<Rightarrow> LogBase \<Rightarrow> Disk \<Rightarrow> (bool \<times> LogBase \<times> Disk) option" where
  "prepareLogFile L logTime l d =
     (case lb_type l of
        LogType_Roll \<Rightarrow> roll_prepare logTime l d
      | LogType_Day \<Rightarrow> Some (day_prepare L logTime l d)
      | LogType_Hour \<Rightarrow> Some (hour_prepare L logTime l d))"

definition writeLog :: "libc_time \<Rightarrow> LogData \<Rightarrow> LogBase \<Rightarrow> Disk \<Rightarrow> (LogBase \<times> Disk) option" where
  "writeLog L data l d = do {
     (ok, l1, d1) \<leftarrow> prepareLogFile L (ld_logTime data) l d;
     let (l2, d2) =
       (case m_fp l1 of
          Some p \<Rightarrow> if ok then (l1\<lparr>m_fileSize := m_fileSize l1 + word_of_nat (length (ld_content data))\<rparr>, fwrite p (ld_content data) d1) else (l1, d1)
        | None \<Rightarrow> (l1, d1));
     Some (l2\<lparr>m_lastTime := ld_logTime data\<rparr>, d2)
   }"

section \<open>The manager\<close>

record LogManager =
  g_logPath :: string
  g_logPrefix :: string
  g_syncLog :: bool
  g_stdOut :: bool
  g_logExit :: bool
  g_logList :: "LogData list"
  g_logs :: "(string, LogBase) std_map"
  g_level :: LogLevel
  g_stormLevel :: LogLevel
  g_disk :: Disk
  g_cout :: string

definition initLog :: "string \<Rightarrow> string \<Rightarrow> LogManager \<Rightarrow> LogManager" where
  "initLog path fileNamePrefix g =
     (let p = getAbsolutePath disk_os (g_disk g) path ''.'' in
      g\<lparr>g_logPath := p, g_logPrefix := fileNamePrefix, g_disk := snd (makeDirectoryRecursive disk_os p (g_disk g))\<rparr>)"

definition setLogSync :: "bool \<Rightarrow> LogManager \<Rightarrow> LogManager" where
  "setLogSync sync g = g\<lparr>g_syncLog := sync\<rparr>"

definition setLogStdOut :: "bool \<Rightarrow> LogManager \<Rightarrow> LogManager" where
  "setLogStdOut out g = g\<lparr>g_stdOut := out\<rparr>"

definition setLogLevel :: "LogLevel \<Rightarrow> LogManager \<Rightarrow> LogManager" where
  "setLogLevel level g = g\<lparr>g_level := level\<rparr>"

definition setStormLogLevel :: "LogLevel \<Rightarrow> LogManager \<Rightarrow> LogManager" where
  "setStormLogLevel level g = g\<lparr>g_stormLevel := level\<rparr>"

definition log_key :: "string \<Rightarrow> LogType \<Rightarrow> string" where
  "log_key logName logType =
     logName @ (case logType of LogType_Roll \<Rightarrow> ''-R'' | LogType_Day \<Rightarrow> ''-D'' | LogType_Hour \<Rightarrow> ''-H'')"

definition getLog :: "string \<Rightarrow> LogType \<Rightarrow> LogManager \<Rightarrow> LogBase \<times> LogManager" where
  "getLog logName logType g =
     (let key = log_key logName logType in
      case sm_find (g_logs g) key of
        Some l \<Rightarrow> (l, g)
      | None \<Rightarrow>
          let l = new_LogBase logType (g_logPath g) (g_logPrefix g) logName in
          (l, g\<lparr>g_logs := sm_set key l (g_logs g)\<rparr>))"

definition setRollLogInfo :: "string \<Rightarrow> u32 \<Rightarrow> u64 \<Rightarrow> LogManager \<Rightarrow> LogManager" where
  "setRollLogInfo logName maxFileNum maxFileSize g =
     (case getLog logName LogType_Roll g of
        (l, g1) \<Rightarrow> g1\<lparr>g_logs := sm_set (log_key logName LogType_Roll) (setInfo maxFileNum maxFileSize l) (g_logs g1)\<rparr>)"

definition parseLevel :: "string \<Rightarrow> LogLevel" where
  "parseLevel levelStr =
     (let s = toupper levelStr in
      if s = ''DEBUG'' then LogLevel_Debug
      else if s = ''INFO'' then LogLevel_Info
      else if s = ''ERROR'' then LogLevel_Error
      else if s = ''EXCEPTION'' then LogLevel_Exception
      else if s = ''NONE'' then LogLevel_None
      else LogLevel_Debug)"

definition realDoLog :: "libc_time \<Rightarrow> LogData \<Rightarrow> LogManager \<Rightarrow> LogManager option" where
  "realDoLog L data g =
     (case getLog (ld_logName data) (ld_logType data) g of
        (l, g1) \<Rightarrow> do {
          (l', d) \<leftarrow> writeLog L data l (g_disk g1);
          Some (g1\<lparr>g_logs := sm_set (log_key (ld_logName data) (ld_logType data)) l' (g_logs g1), g_disk := d\<rparr>)
        })"

definition doLog :: "libc_time \<Rightarrow> LogData \<Rightarrow> LogManager \<Rightarrow> LogManager option" where
  "doLog L data g =
     (if g_syncLog g then realDoLog L data g else Some (g\<lparr>g_logList := g_logList g @ [data]\<rparr>))"

fun realDoLogs :: "libc_time \<Rightarrow> LogData list \<Rightarrow> LogManager \<Rightarrow> LogManager option" where
  "realDoLogs L [] g = Some g"
| "realDoLogs L (x # xs) g = do { g1 \<leftarrow> realDoLog L x g; realDoLogs L xs g1 }"

text \<open>One round of \<open>logThreadEntry\<close>; the first result says whether the thread goes on.\<close>

definition logThread_round :: "libc_time \<Rightarrow> LogManager \<Rightarrow> (bool \<times> LogManager) option" where
  "logThread_round L g =
     (if g_logList g = [] then Some (\<not> g_logExit g, g)
      else map_option (\<lambda>g'. (True, g')) (realDoLogs L (g_logList g) (g\<lparr>g_logList := []\<rparr>)))"

definition log_finish :: "LogManager \<Rightarrow> LogManager" where
  "log_finish g = g\<lparr>g_logExit := True\<rparr>"

section \<open>Entries\<close>

text \<open>The thread-local cache of the printed second.\<close>

record LogThread =
  t_timeStr :: string
  t_lastTime :: u32

definition prepareTimeStr :: "libc_time \<Rightarrow> u32 \<Rightarrow> LogThread \<Rightarrow> LogThread" where
  "prepareTimeStr L now t =
     (if now \<noteq> t_lastTime t then
        t\<lparr>t_timeStr := (let s = strftime L default_fmt (localtime_r L (uint now)) in if length s \<ge> 32 then [] else s),
          t_lastTime := now\<rparr>
      else t)"

definition format_us :: "u32 \<Rightarrow> string" where
  "format_us us = (let s = tostr_int (sint us) in take 7 (''.'' @ replicate (6 - length s) (CHR ''0'') @ s))"

definition briefLogFileName :: "string \<Rightarrow> string" where
  "briefLogFileName name = (case rfind_char name (CHR ''/'') of None \<Rightarrow> name | Some p \<Rightarrow> drop (p + 1) name)"

definition level_name :: "LogLevel \<Rightarrow> string" where
  "level_name level =
     (case level of
        LogLevel_Debug \<Rightarrow> ''DEBUG|''
      | LogLevel_Info \<Rightarrow> ''INFO|''
      | LogLevel_Error \<Rightarrow> ''ERROR|''
      | LogLevel_Exception \<Rightarrow> ''EXCEPTION|''
      | LogLevel_None \<Rightarrow> [])"

text \<open>The head of an entry: \<open>plain_head\<close> of the constructor with a name and a type, \<open>full_head\<close> of the ones
  with a level; \<open>tid\<close> is \<open>getThreadIdStr\<close>.\<close>

definition plain_head :: "libc_time \<Rightarrow> u64 \<Rightarrow> LogThread \<Rightarrow> (u32 \<times> string) \<times> LogThread" where
  "plain_head L nowUs t =
     (let logTime = ucast (nowUs div 1000000); us = ucast (nowUs mod 1000000); t1 = prepareTimeStr L logTime t in
      ((logTime, t_timeStr t1 @ format_us us @ ''|''), t1))"

definition full_head ::
  "libc_time \<Rightarrow> u64 \<Rightarrow> string \<Rightarrow> LogLevel \<Rightarrow> bool \<Rightarrow> string \<Rightarrow> int \<Rightarrow> string \<Rightarrow> LogThread \<Rightarrow> (u32 \<times> string) \<times> LogThread" where
  "full_head L nowUs tid level isFrameWork fileName line func t =
     (case plain_head L nowUs t of
        ((logTime, s), t1) \<Rightarrow>
          ((logTime, s @ tid @ ''|'' @ level_name level @ (if isFrameWork then ''[STORM]|'' else []) @
              briefLogFileName fileName @ ''('' @ tostr_int line @ ''):'' @ func @ ''|''), t1))"

definition to_stdout :: "string \<Rightarrow> LogManager \<Rightarrow> LogManager" where
  "to_stdout s g = (if g_stdOut g then g\<lparr>g_cout := g_cout g @ s\<rparr> else g)"

text \<open>The destructors, with the text that was streamed in between.\<close>

definition LogStream_end :: "libc_time \<Rightarrow> string \<Rightarrow> LogType \<Rightarrow> u32 \<Rightarrow> string \<Rightarrow> LogManager \<Rightarrow> LogManager option" where
  "LogStream_end L logName logType logTime s g =
     (let content = s @ [CHR 0x0A] in do {
        g1 \<leftarrow> doLog L \<lparr>ld_logName = logName, ld_logType = logType, ld_logTime = logTime, ld_content = content\<rparr> g;
        Some (to_stdout content g1)
      })"

definition RollDayStream_end :: "libc_time \<Rightarrow> string \<Rightarrow> u32 \<Rightarrow> string \<Rightarrow> LogManager \<Rightarrow> LogManager option" where
  "RollDayStream_end L logName logTime s g =
     (let content = s @ [CHR 0x0A] in do {
        g1 \<leftarrow> doLog L \<lparr>ld_logName = [], ld_logType = LogType_Roll, ld_logTime = logTime, ld_content = content\<rparr> g;
        g2 \<leftarrow> doLog L \<lparr>ld_logName = logName, ld_logType = LogType_Day, ld_logTime = logTime, ld_content = content\<rparr> g1;
        Some (to_stdout content g2)
      })"

fun level_num :: "LogLevel \<Rightarrow> nat" where
  "level_num LogLevel_Debug = 0"
| "level_num LogLevel_Info = 1"
| "level_num LogLevel_Error = 2"
| "level_num LogLevel_Exception = 3"
| "level_num LogLevel_None = 4"

text \<open>The macros \<open>LOG_DEBUG\<close> to \<open>LOG_EXCEPTION\<close> and \<open>STORM_DEBUG\<close> to \<open>STORM_ERROR\<close>: what one use does.\<close>

definition LOG :: "libc_time \<Rightarrow> LogLevel \<Rightarrow> bool \<Rightarrow> u64 \<Rightarrow> string \<Rightarrow> string \<Rightarrow> int \<Rightarrow> string \<Rightarrow> string \<Rightarrow> LogThread \<times> LogManager \<Rightarrow>
    (LogThread \<times> LogManager) option" where
  "LOG L level storm nowUs tid file line func msg tg =
     (case tg of (t, g) \<Rightarrow>
        if level_num (if storm then g_stormLevel g else g_level g) > level_num level then Some (t, g)
        else
          case full_head L nowUs tid level storm file line func t of
            ((logTime, head), t1) \<Rightarrow>
              map_option (\<lambda>g1. (t1, g1))
                (if \<not> storm \<and> level = LogLevel_Error then RollDayStream_end L ''error'' logTime (head @ msg) g
                 else if \<not> storm \<and> level = LogLevel_Exception then RollDayStream_end L ''exception'' logTime (head @ msg) g
                 else LogStream_end L [] LogType_Roll logTime (head @ msg) g))"

section \<open>Rolling\<close>

abbreviation roll_name :: "LogBase \<Rightarrow> nat \<Rightarrow> string" where
  "roll_name l i \<equiv> getRollLogFileName l (word_of_nat i)"

lemma word_nat_eq: "i < 2 ^ 32 \<Longrightarrow> j < 2 ^ 32 \<Longrightarrow> (word_of_nat i :: u32) = word_of_nat j \<longleftrightarrow> i = j"
  by (auto simp: word_unat_eq_iff)

lemma tostr_u32_nonempty [simp]: "tostr_u32 n \<noteq> []"
  by (simp add: tostr_u32_def)

lemma tostr_u32_inj: "tostr_u32 m = tostr_u32 n \<longleftrightarrow> m = n"
  using strto_u32_tostr by metis

lemma getRollLogFileName_inj: "getRollLogFileName l m = getRollLogFileName l n \<longleftrightarrow> m = n"
  by (auto simp: getRollLogFileName_def tostr_u32_inj)

lemma roll_name_inj: "i < 2 ^ 32 \<Longrightarrow> j < 2 ^ 32 \<Longrightarrow> roll_name l i = roll_name l j \<longleftrightarrow> i = j"
  by (simp add: getRollLogFileName_inj word_nat_eq)

definition roll_step :: "LogBase \<Rightarrow> nat \<Rightarrow> Disk \<Rightarrow> Disk" where
  "roll_step l i d = snd (moveFile disk_os (roll_name l i) (roll_name l (Suc i)) d)"

lemma roll_step_files:
  assumes "d_files d (roll_name l (Suc i)) = None" and "Suc i < 2 ^ 32"
  shows "d_files (roll_step l i d) = (d_files d)(roll_name l i := None, roll_name l (Suc i) := d_files d (roll_name l i))"
    "d_denied (roll_step l i d) = d_denied d"
proof -
  have "roll_name l i \<noteq> roll_name l (Suc i)" using assms(2) by (subst roll_name_inj) simp_all
  then show "d_files (roll_step l i d) = (d_files d)(roll_name l i := None, roll_name l (Suc i) := d_files d (roll_name l i))"
    "d_denied (roll_step l i d) = d_denied d"
    using assms(1) by (auto simp: roll_step_def moveFile_def disk_os_def d_rename_def fun_eq_iff split: option.split)
qed

text \<open>Moving the files up from the last free name: each takes the place of the next.\<close>

lemma roll_steps_files:
  assumes "d_files d (roll_name l n) = None" and "n < 2 ^ 32"
  shows "(\<forall>i \<le> n. d_files (fold (roll_step l) (rev [0..<n]) d) (roll_name l i) = (if i = 0 then None else d_files d (roll_name l (i - 1)))) \<and>
    (\<forall>p. (\<forall>i \<le> n. p \<noteq> roll_name l i) \<longrightarrow> d_files (fold (roll_step l) (rev [0..<n]) d) p = d_files d p) \<and>
    d_denied (fold (roll_step l) (rev [0..<n]) d) = d_denied d"
  using assms
proof (induction n arbitrary: d)
  case (Suc n)
  let ?d = "roll_step l n d"
  note st = roll_step_files [OF Suc.prems]
  have ne: "roll_name l i \<noteq> roll_name l (Suc n)" if "i \<le> n" for i
    using that Suc.prems(2) by (subst roll_name_inj) simp_all
  have n: "d_files ?d (roll_name l n) = None" using st(1) ne [of n] by simp
  have same: "roll_name l i = roll_name l n \<longleftrightarrow> i = n" if "i \<le> n" for i
    using that Suc.prems(2) by (intro roll_name_inj) simp_all
  have "n < 2 ^ 32" using Suc.prems(2) by simp
  note ih = Suc.IH [OF n this]
  have f: "fold (roll_step l) (rev [0..<Suc n]) d = fold (roll_step l) (rev [0..<n]) ?d" by simp
  show ?case unfolding f
  proof (intro conjI allI impI)
    fix i
    assume i: "i \<le> Suc n"
    show "d_files (fold (roll_step l) (rev [0..<n]) ?d) (roll_name l i) = (if i = 0 then None else d_files d (roll_name l (i - 1)))"
    proof (cases "i = Suc n")
      case True
      then have "d_files (fold (roll_step l) (rev [0..<n]) ?d) (roll_name l i) = d_files ?d (roll_name l i)"
        using ih ne by metis
      then show ?thesis using st(1) True by simp
    next
      case False
      then have "i \<le> n" using i by simp
      then have "d_files (fold (roll_step l) (rev [0..<n]) ?d) (roll_name l i) = (if i = 0 then None else d_files ?d (roll_name l (i - 1)))"
        using ih by blast
      also have "d_files ?d (roll_name l (i - 1)) = d_files d (roll_name l (i - 1))" if "i \<noteq> 0"
        using st(1) same [of "i - 1"] ne [of "i - 1"] \<open>i \<le> n\<close> that by auto
      ultimately show ?thesis by simp
    qed
  next
    fix p
    assume a: "\<forall>i \<le> Suc n. p \<noteq> roll_name l i"
    have "\<forall>i \<le> n. p \<noteq> roll_name l i" using a le_SucI by blast
    then have "d_files (fold (roll_step l) (rev [0..<n]) ?d) p = d_files ?d p" using ih by blast
    moreover have "p \<noteq> roll_name l n" "p \<noteq> roll_name l (Suc n)"
      using a [rule_format, of n] a [rule_format, of "Suc n"] by simp_all
    ultimately show "d_files (fold (roll_step l) (rev [0..<n]) ?d) p = d_files d p" unfolding st(1) by (metis fun_upd_other)
  qed (use ih st(2) in simp)
qed simp

text \<open>One roll over \<open>n + 1\<close> files.\<close>

lemma roll_files_eq:
  assumes "unat (m_maxFile l) = Suc n" and "Suc n < 2 ^ 31"
  shows "\<forall>i \<le> n. d_files (roll_files l d) (roll_name l i) = (if i = 0 then None else d_files d (roll_name l (i - 1)))"
    "d_denied (roll_files l d) = d_denied d"
proof -
  have m: "m_maxFile l = word_of_nat (Suc n)" using assms(1) by (metis of_nat_unat ucast_id)
  have 1: "m_maxFile l - 1 = word_of_nat n" by (simp add: m)
  have 2: "nat (sint (m_maxFile l - 2) + 1) = n"
  proof -
    have "m_maxFile l - 2 = word_of_int (int n - 1)" by (simp add: m)
    moreover have "sint (word_of_int (int n - 1) :: u32) = int n - 1"
      unfolding signed_of_int using assms(2) by (simp add: signed_take_bit_int_eq_self)
    ultimately show ?thesis by simp
  qed
  let ?d = "snd (removeFile disk_os (roll_name l n) d)"
  have f: "roll_files l d = fold (roll_step l) (rev [0..<n]) ?d"
  proof -
    have "roll_step l = (\<lambda>i d. snd (moveFile disk_os (roll_name l i) (getRollLogFileName l (word_of_nat i + 1)) d))"
      by (simp add: roll_step_def fun_eq_iff add.commute)
    then show ?thesis by (simp add: roll_files_def Let_def 1 2)
  qed
  have "d_files ?d (roll_name l n) = None" "n < 2 ^ 32" using assms(2) by (simp_all add: removeFile_def disk_os_def d_remove_def)
  note st = roll_steps_files [OF this]
  have "d_files ?d (roll_name l (i - 1)) = d_files d (roll_name l (i - 1))" if "i \<le> n" "i \<noteq> 0" for i
  proof -
    have "roll_name l (i - 1) \<noteq> roll_name l n" using that assms(2) by (subst roll_name_inj) simp_all
    then show ?thesis by (simp add: removeFile_def disk_os_def d_remove_def)
  qed
  with st show "\<forall>i \<le> n. d_files (roll_files l d) (roll_name l i) = (if i = 0 then None else d_files d (roll_name l (i - 1)))"
    unfolding f by auto
  show "d_denied (roll_files l d) = d_denied d"
    using st unfolding f by (simp add: removeFile_def disk_os_def d_remove_def)
qed

text \<open>The log as one text, the oldest file first.\<close>

definition roll_text :: "LogBase \<Rightarrow> Disk \<Rightarrow> string" where
  "roll_text l d = concat (map (\<lambda>i. d_text d (roll_name l i)) (rev [0..<unat (m_maxFile l)]))"

definition oldest :: "LogBase \<Rightarrow> Disk \<Rightarrow> string" where
  "oldest l d = d_text d (getRollLogFileName l (m_maxFile l - 1))"

definition roll_inv :: "LogBase \<Rightarrow> Disk \<Rightarrow> bool" where
  "roll_inv l d \<longleftrightarrow> lb_type l = LogType_Roll \<and> 0 < m_maxFile l \<and> unat (m_maxFile l) < 2 ^ 31 \<and> 0 < m_maxSize l \<and>
     \<not> d_denied d (getRollLogFileName l 0) \<and>
     (\<forall>p. m_fp l = Some p \<longrightarrow> p = getRollLogFileName l 0 \<and> m_fileSize l = word_of_nat (length (d_text d p)))"

definition same_log :: "LogBase \<Rightarrow> LogBase \<Rightarrow> bool" where
  "same_log l l' \<longleftrightarrow> lb_type l' = lb_type l \<and> m_fullFileName l' = m_fullFileName l \<and> m_maxFile l' = m_maxFile l \<and> m_maxSize l' = m_maxSize l"

lemma same_log_names: "same_log l l' \<Longrightarrow> getRollLogFileName l' = getRollLogFileName l"
  by (simp add: same_log_def getRollLogFileName_def fun_eq_iff)

lemma same_log_text: "same_log l l' \<Longrightarrow> roll_text l' d = roll_text l d" "same_log l l' \<Longrightarrow> oldest l' d = oldest l d"
  by (simp_all add: roll_text_def oldest_def same_log_names) (simp_all add: same_log_def)

lemma roll_text_roll:
  assumes "0 < m_maxFile l" and "unat (m_maxFile l) < 2 ^ 31"
  shows "roll_text l d = oldest l d @ roll_text l (roll_files l d)" "d_text (roll_files l d) (getRollLogFileName l 0) = []"
    "d_denied (roll_files l d) = d_denied d"
proof -
  obtain n where n: "unat (m_maxFile l) = Suc n" using assms(1) by (cases "unat (m_maxFile l)") (auto simp: word_less_nat_alt)
  have m: "m_maxFile l = word_of_nat (Suc n)" using n by (metis of_nat_unat ucast_id)
  note r = roll_files_eq [OF n] assms(2) [unfolded n]
  have t: "d_text (roll_files l d) (roll_name l i) = (if i = 0 then [] else d_text d (roll_name l (i - 1)))" if "i \<le> n" for i
    using r that by (simp add: d_text_def)
  have "[0..<Suc n] = 0 # map Suc [0..<n]" by (simp only: map_Suc_upt upt_conv_Cons [OF zero_less_Suc])
  then have u: "rev [0..<Suc n] = map Suc (rev [0..<n]) @ [0]" by (simp only: rev.simps rev_map)
  have e: "map (\<lambda>i. d_text (roll_files l d) (roll_name l i)) (map Suc (rev [0..<n])) = map (\<lambda>i. d_text d (roll_name l i)) (rev [0..<n])"
    unfolding map_map by (rule map_cong [OF refl]) (use t in \<open>simp del: of_nat_Suc\<close>)
  have z: "concat (map (\<lambda>i. d_text (roll_files l d) (roll_name l i)) [0]) = []" using t [of 0] by simp
  have "concat (map (\<lambda>i. d_text (roll_files l d) (roll_name l i)) (rev [0..<Suc n])) = concat (map (\<lambda>i. d_text d (roll_name l i)) (rev [0..<n]))"
    unfolding u map_append concat_append e z by simp
  moreover have "m_maxFile l - 1 = word_of_nat n" by (simp add: m)
  moreover have "rev [0..<Suc n] = n # rev [0..<n]" by simp
  ultimately show "roll_text l d = oldest l d @ roll_text l (roll_files l d)"
    unfolding roll_text_def n oldest_def by (simp only: list.map concat.simps)
  show "d_text (roll_files l d) (getRollLogFileName l 0) = []" using t [of 0] by simp
  show "d_denied (roll_files l d) = d_denied d" using r by simp
qed

lemma reopen_first:
  assumes "\<not> d_denied d p"
  shows "reopen p t l d = (True, l\<lparr>m_fp := Some p, m_openTime := t, m_fileSize := word_of_nat (length (d_text d p))\<rparr>,
    d\<lparr>d_files := (d_files d)(p := Some (d_text d p))\<rparr>)"
  using assms by (simp add: reopen_def fopen_append_def d_text_def Let_def)

lemma d_text_touch [simp]: "d_text (d\<lparr>d_files := (d_files d)(p := Some (d_text d p))\<rparr>) = d_text d"
  by (auto simp: d_text_def fun_eq_iff)

text \<open>Opening the current file of a log whose invariant holds.\<close>

lemma roll_open:
  assumes "roll_inv l d"
  obtains l1 d1 where "(if must_reopen False t l then reopen (getRollLogFileName l 0) t l d else (True, l, d)) = (True, l1, d1)"
    "same_log l l1" "roll_inv l1 d1" "m_fp l1 = Some (getRollLogFileName l 0)" "d_text d1 = d_text d" "d_denied d1 = d_denied d"
    "m_fileSize l1 = word_of_nat (length (d_text d (getRollLogFileName l 0)))"
proof (cases "must_reopen False t l")
  case True
  let ?p = "getRollLogFileName l 0"
  let ?l = "l\<lparr>m_fp := Some ?p, m_openTime := t, m_fileSize := word_of_nat (length (d_text d ?p))\<rparr>"
    and ?d = "d\<lparr>d_files := (d_files d)(?p := Some (d_text d ?p))\<rparr>"
  have nd: "\<not> d_denied d ?p" using assms by (simp add: roll_inv_def)
  have s: "same_log l ?l" by (simp add: same_log_def)
  show thesis
    by (rule that [of ?l ?d])
      (use True assms reopen_first [OF nd, of t l] same_log_names [OF s] s in \<open>simp_all add: roll_inv_def\<close>)
next
  case False
  then have "m_fp l \<noteq> None" by (simp add: must_reopen_def)
  then have "m_fp l = Some (getRollLogFileName l 0)" "m_fileSize l = word_of_nat (length (d_text d (getRollLogFileName l 0)))"
    using assms by (auto simp: roll_inv_def)
  then show thesis by (intro that [of l d]) (use False assms in \<open>simp_all add: same_log_def\<close>)
qed

lemma same_log_trans: "same_log a b \<Longrightarrow> same_log b c \<Longrightarrow> same_log a c"
  by (simp add: same_log_def)

lemma roll_text_cong: "d_text d = d_text d' \<Longrightarrow> roll_text l d = roll_text l d'" "d_text d = d_text d' \<Longrightarrow> oldest l d = oldest l d'"
  by (simp_all add: roll_text_def oldest_def)

lemma roll_prepare_ok:
  assumes inv: "roll_inv l d"
  obtains l' d' where "roll_prepare t l d = Some (True, l', d')" "roll_inv l' d'" "same_log l l'" "m_fp l' = Some (getRollLogFileName l 0)"
    "roll_text l d' = roll_text l d \<or>
      roll_text l d = oldest l d @ roll_text l d' \<and> m_maxSize l \<le> word_of_nat (length (d_text d (getRollLogFileName l 0)))"
proof -
  let ?open = "\<lambda>l d. if must_reopen False t l then reopen (getRollLogFileName l 0) t l d else (True, l, d)"
  from roll_open [OF inv, of t] obtain l1 d1 where o: "?open l d = (True, l1, d1)" "same_log l l1" "roll_inv l1 d1"
    "m_fp l1 = Some (getRollLogFileName l 0)" "d_text d1 = d_text d" "d_denied d1 = d_denied d"
    "m_fileSize l1 = word_of_nat (length (d_text d (getRollLogFileName l 0)))" by blast
  show thesis
  proof (cases "m_fileSize l1 < m_maxSize l1")
    case True
    have "roll_prepare t l d = Some (True, l1, d1)" by (subst roll_prepare.simps) (simp only: o(1) prod.case True if_True not_True_eq_False if_False)
    then show thesis using o roll_text_cong(1) [OF o(5), of l] by (intro that [of l1 d1]) simp_all
  next
    case False
    let ?l2 = "l1\<lparr>m_fp := None\<rparr>" and ?d2 = "roll_files l1 d1"
    have r1: "roll_prepare t l d = roll_prepare t ?l2 ?d2"
      by (subst roll_prepare.simps) (simp only: o(1) prod.case False not_True_eq_False if_False)
    have b: "0 < m_maxFile l1" "unat (m_maxFile l1) < 2 ^ 31" "0 < m_maxSize l1" using o(3) by (simp_all add: roll_inv_def)
    note roll = roll_text_roll [OF b(1,2), of d1]
    have s2: "same_log l1 ?l2" by (simp add: same_log_def)
    have inv2: "roll_inv ?l2 ?d2" using o(3) roll(3) by (simp add: roll_inv_def same_log_names [OF s2])
    from roll_open [OF inv2, of t] obtain l3 d3 where p: "?open ?l2 ?d2 = (True, l3, d3)" "same_log ?l2 l3" "roll_inv l3 d3"
      "m_fp l3 = Some (getRollLogFileName ?l2 0)" "d_text d3 = d_text ?d2"
      "m_fileSize l3 = word_of_nat (length (d_text ?d2 (getRollLogFileName ?l2 0)))" by blast
    have s3: "same_log l l3" using same_log_trans [OF o(2) same_log_trans [OF s2 p(2)]] .
    have "m_fileSize l3 < m_maxSize l3" using p(2,6) s2 roll(2) b(3) same_log_names [OF s2] by (simp add: same_log_def)
    then have r2: "roll_prepare t ?l2 ?d2 = Some (True, l3, d3)"
      by (subst roll_prepare.simps) (simp only: p(1) prod.case if_True not_True_eq_False if_False)
    have "roll_text l d = oldest l d @ roll_text l d3"
    proof -
      have "roll_text l1 d1 = roll_text l d" "oldest l1 d1 = oldest l d" "roll_text l1 ?d2 = roll_text l d3"
        using same_log_text [OF o(2)] roll_text_cong [OF o(5), of l] roll_text_cong(1) [OF p(5), of l] by simp_all
      with roll(1) show ?thesis by simp
    qed
    moreover have "m_maxSize l \<le> word_of_nat (length (d_text d (getRollLogFileName l 0)))"
      using False o(2,7) by (simp add: same_log_def not_less)
    ultimately show thesis
      using r1 r2 p(3,4) s3 same_log_names [OF o(2)] same_log_names [OF s2] by (intro that [of l3 d3]) simp_all
  qed
qed

text \<open>Writing an entry: it becomes the end of the log; what is given up for it is nothing, or the oldest
  file when the current one is full.\<close>

lemma roll_text_write:
  assumes "0 < m_maxFile l" and "unat (m_maxFile l) < 2 ^ 31"
  shows "roll_text l (fwrite (getRollLogFileName l 0) s d) = roll_text l d @ s"
proof -
  obtain n where n: "unat (m_maxFile l) = Suc n" using assms(1) by (cases "unat (m_maxFile l)") (auto simp: word_less_nat_alt)
  have "[0..<Suc n] = 0 # [Suc 0..<Suc n]" by (simp only: upt_conv_Cons [OF zero_less_Suc])
  then have u: "rev [0..<Suc n] = rev [Suc 0..<Suc n] @ [0]" by (simp only: rev.simps)
  let ?d = "fwrite (getRollLogFileName l 0) s d"
  have "d_text ?d (roll_name l i) = d_text d (roll_name l i)" if "i \<in> set (rev [Suc 0..<Suc n])" for i
  proof -
    have "0 < i" "i < 2 ^ 31" using that assms(2) n by auto
    then have "roll_name l i \<noteq> roll_name l 0" by (subst roll_name_inj) simp_all
    then show ?thesis by (simp add: fwrite_def d_text_def)
  qed
  then have e: "map (\<lambda>i. d_text ?d (roll_name l i)) (rev [Suc 0..<Suc n]) = map (\<lambda>i. d_text d (roll_name l i)) (rev [Suc 0..<Suc n])"
    by (intro map_cong [OF refl])
  have z: "d_text ?d (roll_name l 0) = d_text d (roll_name l 0) @ s" by (simp add: fwrite_def d_text_def)
  show ?thesis unfolding roll_text_def n u map_append concat_append e list.map z by simp
qed

lemma roll_write:
  assumes inv: "roll_inv l d"
  shows "\<exists>l' d' dropped. writeLog L data l d = Some (l', d') \<and> roll_inv l' d' \<and> same_log l l' \<and>
    roll_text l d @ ld_content data = dropped @ roll_text l d' \<and>
    (dropped = [] \<or> dropped = oldest l d \<and> m_maxSize l \<le> word_of_nat (length (d_text d (getRollLogFileName l 0))))"
proof -
  let ?p = "getRollLogFileName l 0"
  from roll_prepare_ok [OF inv, of "ld_logTime data"] obtain l1 d1 where r: "roll_prepare (ld_logTime data) l d = Some (True, l1, d1)"
    "roll_inv l1 d1" "same_log l l1" "m_fp l1 = Some ?p" and t: "roll_text l d1 = roll_text l d \<or>
      roll_text l d = oldest l d @ roll_text l d1 \<and> m_maxSize l \<le> word_of_nat (length (d_text d ?p))" by blast
  have b: "lb_type l = LogType_Roll" "0 < m_maxFile l" "unat (m_maxFile l) < 2 ^ 31" using inv by (simp_all add: roll_inv_def)
  let ?d' = "fwrite ?p (ld_content data) d1"
  let ?l' = "l1\<lparr>m_fileSize := m_fileSize l1 + word_of_nat (length (ld_content data)), m_lastTime := ld_logTime data\<rparr>"
  have w: "writeLog L data l d = Some (?l', ?d')" using r b(1) by (simp add: writeLog_def prepareLogFile_def)
  have s: "same_log l1 ?l'" by (simp add: same_log_def)
  have "m_fileSize l1 = word_of_nat (length (d_text d1 ?p))" using r(2,4) by (simp add: roll_inv_def)
  then have "roll_inv ?l' ?d'"
    using r(2,4) same_log_names [OF s] same_log_names [OF r(3)] by (simp add: roll_inv_def fwrite_def d_text_def)
  moreover have "same_log l ?l'" by (rule same_log_trans [OF r(3) s])
  moreover have "roll_text l ?d' = roll_text l d1 @ ld_content data" by (rule roll_text_write [OF b(2,3)])
  ultimately show ?thesis using w t by (intro exI [of _ ?l'] exI [of _ ?d']) auto
qed

text \<open>Any number of entries: the log is the end of everything ever written to it.\<close>

fun write_all :: "libc_time \<Rightarrow> LogData list \<Rightarrow> LogBase \<times> Disk \<Rightarrow> (LogBase \<times> Disk) option" where
  "write_all L [] st = Some st"
| "write_all L (x # xs) st = do { st1 \<leftarrow> writeLog L x (fst st) (snd st); write_all L xs st1 }"

lemma roll_write_all:
  assumes "roll_inv l d"
  shows "\<exists>l' d' dropped. write_all L es (l, d) = Some (l', d') \<and> roll_inv l' d' \<and> same_log l l' \<and>
    roll_text l d @ concat (map ld_content es) = dropped @ roll_text l d'"
  using assms
proof (induction es arbitrary: l d)
  case Nil
  then show ?case by (simp add: same_log_def)
next
  case (Cons x es)
  from roll_write [OF Cons.prems, of L x] obtain l1 d1 dr where w: "writeLog L x l d = Some (l1, d1)" "roll_inv l1 d1" "same_log l l1"
    "roll_text l d @ ld_content x = dr @ roll_text l d1" by blast
  from Cons.IH [OF w(2)] obtain l2 d2 dr2 where i: "write_all L es (l1, d1) = Some (l2, d2)" "roll_inv l2 d2" "same_log l1 l2"
    "roll_text l1 d1 @ concat (map ld_content es) = dr2 @ roll_text l1 d2" by blast
  have b: "roll_text l d1 @ concat (map ld_content es) = dr2 @ roll_text l d2"
    using i(4) same_log_text(1) [OF w(3)] by simp
  have "roll_text l d @ concat (map ld_content (x # es)) = (roll_text l d @ ld_content x) @ concat (map ld_content es)" by simp
  also have "\<dots> = dr @ roll_text l d1 @ concat (map ld_content es)" unfolding w(4) by simp
  also have "\<dots> = (dr @ dr2) @ roll_text l d2" unfolding b by simp
  finally have "roll_text l d @ concat (map ld_content (x # es)) = (dr @ dr2) @ roll_text l d2" .
  then show ?case using w(1) i same_log_trans [OF w(3) i(3)] by auto
qed

section \<open>No end of rolling\<close>

text \<open>With no file to keep, or files of size 0, the file that is full stays full, or the fresh one is.\<close>

lemma roll_files_zero:
  assumes "m_maxFile l = 0"
  shows "d_text (roll_files l d) (getRollLogFileName l 0) = d_text d (getRollLogFileName l 0)" "d_denied (roll_files l d) = d_denied d"
  using assms getRollLogFileName_inj [of l 0 "- 1"]
  by (simp_all add: roll_files_def removeFile_def disk_os_def d_remove_def d_text_def)

lemma roll_zero_diverges:
  assumes "m_maxFile l = 0" and "m_fp l = None" and "\<not> d_denied d (getRollLogFileName l 0)"
    and "m_maxSize l \<le> word_of_nat (length (d_text d (getRollLogFileName l 0)))"
  shows "roll_prepare t l d = None"
proof (cases "roll_prepare t l d")
  case (Some r)
  have "\<not> (m_maxFile l = 0 \<and> m_fp l = None \<and> \<not> d_denied d (getRollLogFileName l 0) \<and>
      m_maxSize l \<le> word_of_nat (length (d_text d (getRollLogFileName l 0))))"
  proof (rule roll_prepare.raw_induct [where P = "\<lambda>t l d r. \<not> (m_maxFile l = 0 \<and> m_fp l = None \<and> \<not> d_denied d (getRollLogFileName l 0) \<and>
      m_maxSize l \<le> word_of_nat (length (d_text d (getRollLogFileName l 0))))", OF _ Some])
    fix f t l d r
    assume ih: "\<And>t l d r. f t l d = Some r \<Longrightarrow> \<not> (m_maxFile l = 0 \<and> m_fp l = None \<and> \<not> d_denied d (getRollLogFileName l 0) \<and>
        m_maxSize l \<le> word_of_nat (length (d_text d (getRollLogFileName l 0))))"
      and r: "(case if must_reopen False t l then reopen (getRollLogFileName l 0) t l d else (True, l, d) of
        (opened, l1, d1) \<Rightarrow>
          if \<not> opened then Some (False, l1, d1)
          else if m_fileSize l1 < m_maxSize l1 then Some (True, l1, d1)
          else f t (l1\<lparr>m_fp := None\<rparr>) (roll_files l1 d1)) = Some r"
    show "\<not> (m_maxFile l = 0 \<and> m_fp l = None \<and> \<not> d_denied d (getRollLogFileName l 0) \<and>
        m_maxSize l \<le> word_of_nat (length (d_text d (getRollLogFileName l 0))))"
    proof
      let ?p = "getRollLogFileName l 0"
      assume h: "m_maxFile l = 0 \<and> m_fp l = None \<and> \<not> d_denied d ?p \<and> m_maxSize l \<le> word_of_nat (length (d_text d ?p))"
      let ?l1 = "l\<lparr>m_fp := Some ?p, m_openTime := t, m_fileSize := word_of_nat (length (d_text d ?p))\<rparr>"
        and ?d1 = "d\<lparr>d_files := (d_files d)(?p := Some (d_text d ?p))\<rparr>"
      let ?l2 = "?l1\<lparr>m_fp := None\<rparr>" and ?d2 = "roll_files ?l1 ?d1"
      have n: "getRollLogFileName ?l1 = getRollLogFileName l" "getRollLogFileName ?l2 = getRollLogFileName l"
        by (simp_all add: getRollLogFileName_def fun_eq_iff)
      have d2: "d_text ?d2 ?p = d_text d ?p" "d_denied ?d2 = d_denied d"
        using h roll_files_zero [of ?l1 ?d1] by (simp_all add: n)
      have "f t ?l2 ?d2 = Some r"
        using r h reopen_first [of d ?p t l] by (simp add: must_reopen_def not_less [symmetric])
      from ih [OF this] h d2 n(2) show False by simp
    qed
  qed
  with assms show ?thesis by simp
qed

section \<open>The queue of the log thread\<close>

fun doLogs :: "libc_time \<Rightarrow> LogData list \<Rightarrow> LogManager \<Rightarrow> LogManager option" where
  "doLogs L [] g = Some g"
| "doLogs L (x # xs) g = do { g1 \<leftarrow> doLog L x g; doLogs L xs g1 }"

lemma realDoLog_frame:
  "realDoLog L x (g\<lparr>g_syncLog := b\<rparr>) = map_option (\<lambda>g. g\<lparr>g_syncLog := b\<rparr>) (realDoLog L x g)"
  "realDoLog L x (g\<lparr>g_logList := q\<rparr>) = map_option (\<lambda>g. g\<lparr>g_logList := q\<rparr>) (realDoLog L x g)"
  by (auto simp: realDoLog_def getLog_def Let_def split: option.splits prod.splits bind_splits)

lemma realDoLogs_frame:
  "realDoLogs L es (g\<lparr>g_syncLog := b\<rparr>) = map_option (\<lambda>g. g\<lparr>g_syncLog := b\<rparr>) (realDoLogs L es g)"
  "realDoLogs L es (g\<lparr>g_logList := q\<rparr>) = map_option (\<lambda>g. g\<lparr>g_logList := q\<rparr>) (realDoLogs L es g)"
  by (induction es arbitrary: g) (auto simp: realDoLog_frame split: bind_splits)

lemma realDoLog_sync: "realDoLog L x g = Some g' \<Longrightarrow> g_syncLog g' = g_syncLog g \<and> g_logList g' = g_logList g"
  by (auto simp: realDoLog_def getLog_def Let_def split: option.splits prod.splits bind_splits)

lemma doLogs_sync: "g_syncLog g \<Longrightarrow> doLogs L es g = realDoLogs L es g"
proof (induction es arbitrary: g)
  case (Cons x es)
  then show ?case by (cases "realDoLog L x g") (simp_all add: doLog_def realDoLog_sync)
qed simp

lemma doLogs_async: "\<not> g_syncLog g \<Longrightarrow> doLogs L es g = Some (g\<lparr>g_logList := g_logList g @ es\<rparr>)"
  by (induction es arbitrary: g) (simp_all add: doLog_def)

text \<open>Entries that went through the queue end up in the files as if they had been written directly.\<close>

lemma drain_logs:
  assumes "\<not> g_syncLog g" and "g_logList g = []" and "es \<noteq> []"
    and "doLogs L es (g\<lparr>g_syncLog := True\<rparr>) = Some g1"
  shows "\<exists>g0 g2. doLogs L es g = Some g0 \<and> g_disk g0 = g_disk g \<and> logThread_round L g0 = Some (True, g2) \<and>
    g2 = g1\<lparr>g_syncLog := False\<rparr>"
proof -
  have "doLogs L es (g\<lparr>g_syncLog := True\<rparr>) = map_option (\<lambda>g. g\<lparr>g_syncLog := True\<rparr>) (realDoLogs L es g)"
    using doLogs_sync [of "g\<lparr>g_syncLog := True\<rparr>" L es] by (simp add: realDoLogs_frame)
  then obtain g' where g': "realDoLogs L es g = Some g'" "g1 = g'\<lparr>g_syncLog := True\<rparr>"
    using assms(4) by (cases "realDoLogs L es g") auto
  have keep: "realDoLogs L es g = Some g' \<Longrightarrow> g_syncLog g' = g_syncLog g \<and> g_logList g' = g_logList g" for g g'
  proof (induction es arbitrary: g)
    case (Cons x es)
    then show ?case by (auto split: bind_splits dest!: realDoLog_sync)
  qed simp
  have "g1\<lparr>g_syncLog := False\<rparr> = g'" using keep [OF g'(1)] assms(1) g'(2) by (cases g') simp
  moreover have "g\<lparr>g_logList := []\<rparr> = g" using assms(2) by (cases g) simp
  ultimately have r: "realDoLogs L es (g\<lparr>g_logList := []\<rparr>) = Some (g1\<lparr>g_syncLog := False\<rparr>)" using g'(1) by (simp only:)
  show ?thesis using assms(1-3) r by (simp add: doLogs_async logThread_round_def)
qed

section \<open>The cached time\<close>

definition time_str :: "libc_time \<Rightarrow> u32 \<Rightarrow> string" where
  "time_str L now = (let s = strftime L default_fmt (localtime_r L (uint now)) in if length s \<ge> 32 then [] else s)"

definition thread_ok :: "libc_time \<Rightarrow> LogThread \<Rightarrow> bool" where
  "thread_ok L t \<longleftrightarrow> t_timeStr t = (if t_lastTime t = 0 then [] else time_str L (t_lastTime t))"

lemma prepareTimeStr_ok:
  assumes "thread_ok L t" and "now \<noteq> 0"
  shows "t_timeStr (prepareTimeStr L now t) = time_str L now" "thread_ok L (prepareTimeStr L now t)"
  using assms by (auto simp: prepareTimeStr_def thread_ok_def time_str_def Let_def)

end
