(* ===== verification/Storm_Manager.thy ===== *)
theory Storm_Manager
  imports Registry_Rpc "HOL-Library.Sublist"
begin

text \<open>
  \<open>framework/storm_proxy_manager.cpp\<close>: the proxies of a server, by name, and the queue that carries finished
  asynchronous requests from the network thread to the main thread. Proxies are objects the manager shares
  with its callers, so they live in a store; an address that was deleted holds nothing, and \<open>None\<close> as the
  result of an operation is the use of such an address or of a null pointer.

  Main results: what a proxy passes to the main thread is dispatched there once and in order
  (\<open>pm_queue_ok\<close>); a call of \<open>stringToProxy\<close> that is not interrupted leaves only live proxies in the map
  (\<open>stringToProxy_ok\<close>), so that \<open>updateInNetLoop\<close> finds them (\<open>updateInNetLoop_ok\<close>), and one that fails can
  be interrupted between its \<open>delete\<close> and its \<open>erase\<close> (\<open>stringToProxy_race\<close>).
\<close>

section \<open>State\<close>

record 'c proxy_object =
  po_class :: 'c
  po_proxy :: ServiceProxy

record 'c ServiceProxyManager =
  m_proxys :: "(string, nat) std_map"
  m_messages :: "(nat \<times> nat) list"
  m_registryProxy :: "nat option"
  m_lastUpdateTime :: u32
  m_updateTime :: u32
  pm_store :: "nat \<Rightarrow> 'c proxy_object option"
  pm_fresh :: nat
  pm_nextMessage :: nat
  pm_dispatched :: "(nat \<times> nat) list"

text \<open>\<open>m_updateTime\<close> is not initialised: \<open>updateTime\<close> is what its memory held.\<close>

definition new_ServiceProxyManager :: "u32 \<Rightarrow> u32 \<Rightarrow> 'c ServiceProxyManager" where
  "new_ServiceProxyManager now updateTime =
     \<lparr>m_proxys = [], m_messages = [], m_registryProxy = None, m_lastUpdateTime = now, m_updateTime = updateTime,
      pm_store = \<lambda>_. None, pm_fresh = 0, pm_nextMessage = 0, pm_dispatched = []\<rparr>"

definition setRegistryProxy :: "nat option \<Rightarrow> 'c ServiceProxyManager \<Rightarrow> 'c ServiceProxyManager" where
  "setRegistryProxy proxy pm = pm\<lparr>m_registryProxy := proxy\<rparr>"

definition getRegistryProxy :: "'c ServiceProxyManager \<Rightarrow> nat option" where
  "getRegistryProxy pm = m_registryProxy pm"

definition setUpdateTime :: "u32 \<Rightarrow> 'c ServiceProxyManager \<Rightarrow> 'c ServiceProxyManager" where
  "setUpdateTime time pm = pm\<lparr>m_updateTime := time\<rparr>"

definition pushMessage :: "nat \<times> nat \<Rightarrow> 'c ServiceProxyManager \<Rightarrow> 'c ServiceProxyManager" where
  "pushMessage message pm = pm\<lparr>m_messages := m_messages pm @ [message]\<rparr>"

section \<open>The two loops\<close>

text \<open>The requests a proxy passed to the manager, among its effects. A message is named by the proxy that
  owns it and its identity there.\<close>

fun pushed_of :: "px_effect list \<Rightarrow> nat list" where
  "pushed_of [] = []"
| "pushed_of (PushMessage m # es) = m # pushed_of es"
| "pushed_of (_ # es) = pushed_of es"

text \<open>A method called on the proxy at \<open>p\<close>.\<close>

definition with_proxy ::
  "nat \<Rightarrow> (ServiceProxy \<Rightarrow> ServiceProxy option) \<Rightarrow> 'c ServiceProxyManager \<Rightarrow> 'c ServiceProxyManager option" where
  "with_proxy p f pm = do {
     ob \<leftarrow> pm_store pm p;
     px \<leftarrow> f (po_proxy ob);
     let pm1 = pm\<lparr>pm_store := (pm_store pm)(p := Some (ob\<lparr>po_proxy := px\<rparr>))\<rparr>;
     Some (fold (\<lambda>m. pushMessage (p, m)) (pushed_of (drop (length (px_out (po_proxy ob))) (px_out px))) pm1)
   }"

definition updateInMainLoop :: "'c ServiceProxyManager \<Rightarrow> 'c ServiceProxyManager" where
  "updateInMainLoop pm =
     (if m_messages pm = [] then pm
      else pm\<lparr>m_messages := [], pm_dispatched := pm_dispatched pm @ m_messages pm\<rparr>)"

text \<open>\<open>tid\<close> is the network thread, \<open>ms\<close> its clock.\<close>

fun timeout_proxys :: "u32 \<Rightarrow> u64 \<Rightarrow> nat list \<Rightarrow> 'c ServiceProxyManager \<Rightarrow> 'c ServiceProxyManager option" where
  "timeout_proxys tid ms [] pm = Some pm"
| "timeout_proxys tid ms (p # ps) pm = do {
     pm1 \<leftarrow> with_proxy p (\<lambda>px. Some (doTimeOut (px\<lparr>px_now := ms, px_tid := tid\<rparr>))) pm;
     timeout_proxys tid ms ps pm1
   }"

text \<open>The callback of the query is the proxy that asks.\<close>

definition query_endpoints ::
  "registry_codec \<Rightarrow> rpc_codec \<Rightarrow> u32 \<Rightarrow> u64 \<Rightarrow> nat \<Rightarrow> 'c ServiceProxyManager \<Rightarrow> 'c ServiceProxyManager option" where
  "query_endpoints R C tid ms p pm = do {
     ob \<leftarrow> pm_store pm p;
     reg \<leftarrow> getRegistryProxy pm;
     with_proxy reg
       (\<lambda>px. map_option snd (doAsyncUpdateEndPoints R C (po_proxy ob) p (pm_nextMessage pm) (px\<lparr>px_now := ms, px_tid := tid\<rparr>)))
       (pm\<lparr>pm_nextMessage := Suc (pm_nextMessage pm)\<rparr>)
   }"

fun refresh_proxys ::
  "registry_codec \<Rightarrow> rpc_codec \<Rightarrow> u32 \<Rightarrow> u64 \<Rightarrow> nat list \<Rightarrow> 'c ServiceProxyManager \<Rightarrow> 'c ServiceProxyManager option" where
  "refresh_proxys R C tid ms [] pm = Some pm"
| "refresh_proxys R C tid ms (p # ps) pm = do {
     ob \<leftarrow> pm_store pm p;
     pm1 \<leftarrow> (if m_needLocator (po_proxy ob) then query_endpoints R C tid ms p pm else Some pm);
     refresh_proxys R C tid ms ps pm1
   }"

definition updateInNetLoop ::
  "registry_codec \<Rightarrow> rpc_codec \<Rightarrow> u32 \<Rightarrow> u64 \<Rightarrow> u32 \<Rightarrow> 'c ServiceProxyManager \<Rightarrow> 'c ServiceProxyManager option" where
  "updateInNetLoop R C tid ms now pm = do {
     pm1 \<leftarrow> timeout_proxys tid ms (map snd (m_proxys pm)) pm;
     if now > m_updateTime pm1 + m_lastUpdateTime pm1 then do {
       pm2 \<leftarrow> refresh_proxys R C tid ms (map snd (m_proxys pm1)) pm1;
       Some (pm2\<lparr>m_lastUpdateTime := now\<rparr>)
     } else Some pm1
   }"

section \<open>Proxies by name\<close>

text \<open>\<open>stringToProxy\<close> in the steps between which it does not hold the mutex: the lookup, which casts what
  is found to the class \<open>T\<close>; the parse, whose synchronous query goes through the registry's proxy; and, when
  the parse fails, the \<open>delete\<close> and the \<open>erase\<close>. \<open>isa\<close> is the order of the classes.\<close>

definition stp_lookup ::
  "('c \<Rightarrow> 'c \<Rightarrow> bool) \<Rightarrow> 'c \<Rightarrow> u32 \<Rightarrow> u64 \<Rightarrow> string \<Rightarrow> 'c ServiceProxyManager \<Rightarrow> ((nat option + nat) \<times> 'c ServiceProxyManager) option" where
  "stp_lookup isa T tid now service pm =
     (case sm_find (m_proxys pm) service of
        Some p \<Rightarrow> map_option (\<lambda>ob. (Inl (if isa (po_class ob) T then Some p else None), pm)) (pm_store pm p)
      | None \<Rightarrow>
          let p = pm_fresh pm in
          Some (Inr p, pm\<lparr>pm_store := (pm_store pm)(p := Some \<lparr>po_class = T, po_proxy = new_ServiceProxy tid now\<rparr>),
            pm_fresh := Suc p, m_proxys := sm_set service p (m_proxys pm)\<rparr>))"

definition asks_registry :: "string \<Rightarrow> bool" where
  "asks_registry config \<longleftrightarrow> find_char config (CHR ''@'') 0 = None \<and> length (splitString config ''.'' True) \<ge> 3"

type_synonym registry_query = "string \<Rightarrow> string \<Rightarrow> string \<Rightarrow> string \<Rightarrow> int + (string \<times> u32) list"

definition stp_parse ::
  "registry_query \<Rightarrow> string \<Rightarrow> string \<Rightarrow> nat \<Rightarrow> 'c ServiceProxyManager \<Rightarrow> (bool \<times> 'c ServiceProxyManager) option" where
  "stp_parse ask service st p pm =
     (if asks_registry service \<and> getRegistryProxy pm = None then None
      else do {
        ob \<leftarrow> pm_store pm p;
        let r = parseFromString ask service st (po_proxy ob);
        Some (fst r, pm\<lparr>pm_store := (pm_store pm)(p := Some (ob\<lparr>po_proxy := snd r\<rparr>))\<rparr>)
      })"

definition stp_delete :: "nat \<Rightarrow> 'c ServiceProxyManager \<Rightarrow> 'c ServiceProxyManager" where
  "stp_delete p pm = pm\<lparr>pm_store := (pm_store pm)(p := None)\<rparr>"

definition stp_erase :: "string \<Rightarrow> 'c ServiceProxyManager \<Rightarrow> 'c ServiceProxyManager" where
  "stp_erase service pm = pm\<lparr>m_proxys := sm_erase service (m_proxys pm)\<rparr>"

definition stringToProxy ::
  "('c \<Rightarrow> 'c \<Rightarrow> bool) \<Rightarrow> 'c \<Rightarrow> registry_query \<Rightarrow> u32 \<Rightarrow> u64 \<Rightarrow> string \<Rightarrow> string \<Rightarrow> 'c ServiceProxyManager \<Rightarrow>
     (nat option \<times> 'c ServiceProxyManager) option" where
  "stringToProxy isa T ask tid now service st pm = do {
     (found, pm1) \<leftarrow> stp_lookup isa T tid now service pm;
     (case found of
        Inl r \<Rightarrow> Some (r, pm1)
      | Inr p \<Rightarrow> do {
          (parsed, pm2) \<leftarrow> stp_parse ask service st p pm1;
          if parsed then Some (Some p, pm2) else Some (None, stp_erase service (stp_delete p pm2))
        })
   }"

section \<open>Runs\<close>

text \<open>What happens to a server's proxies: methods called on one of them by either thread, the two loops, and
  uninterrupted calls of \<open>stringToProxy\<close>.\<close>

datatype px_op =
    OpInvoke nat RequestMessage | OpPacket string | OpClosed nat u32 SocketCloseType | OpConnected nat
  | OpEndPoints "(string \<times> u32) list"

fun px_apply :: "rpc_codec \<Rightarrow> px_op \<Rightarrow> ServiceProxy \<Rightarrow> ServiceProxy option" where
  "px_apply C (OpInvoke m msg) px = map_option snd (doInvoke C m (set_msg m msg px))"
| "px_apply C (OpPacket data) px = Some (proxy_onPacket C data px)"
| "px_apply C (OpClosed e sid ct) px = ep_onClose e sid ct px"
| "px_apply C (OpConnected e) px = Some (ep_onConnect e px)"
| "px_apply C (OpEndPoints ack) px = Some (updateEndPoints ack px)"

datatype 'c pm_event =
    OnProxy u32 u64 nat px_op | MainLoop | NetLoop u32 u64 u32 | GetProxy 'c registry_query u32 u64 string string

fun pm_apply ::
  "registry_codec \<Rightarrow> rpc_codec \<Rightarrow> ('c \<Rightarrow> 'c \<Rightarrow> bool) \<Rightarrow> 'c pm_event \<Rightarrow> 'c ServiceProxyManager \<Rightarrow> 'c ServiceProxyManager option" where
  "pm_apply R C isa (OnProxy tid ms p op) pm = with_proxy p (\<lambda>px. px_apply C op (px\<lparr>px_now := ms, px_tid := tid\<rparr>)) pm"
| "pm_apply R C isa MainLoop pm = Some (updateInMainLoop pm)"
| "pm_apply R C isa (NetLoop tid ms now) pm = updateInNetLoop R C tid ms now pm"
| "pm_apply R C isa (GetProxy T ask tid now service st) pm = map_option snd (stringToProxy isa T ask tid now service st pm)"

fun pm_run ::
  "registry_codec \<Rightarrow> rpc_codec \<Rightarrow> ('c \<Rightarrow> 'c \<Rightarrow> bool) \<Rightarrow> 'c pm_event list \<Rightarrow> 'c ServiceProxyManager \<Rightarrow> 'c ServiceProxyManager option" where
  "pm_run R C isa [] pm = Some pm"
| "pm_run R C isa (e # es) pm = do { pm1 \<leftarrow> pm_apply R C isa e pm; pm_run R C isa es pm1 }"

section \<open>A proxy only adds to its effects\<close>

definition grows :: "ServiceProxy \<Rightarrow> ServiceProxy \<Rightarrow> bool" where
  "grows px px' \<longleftrightarrow> prefix (px_out px) (px_out px')"

lemma grows_refl [intro, simp]: "grows px px" by (simp add: grows_def)

lemma grows_trans [trans]: "grows px px' \<Longrightarrow> grows px' px'' \<Longrightarrow> grows px px''"
  unfolding grows_def by (rule prefix_order.trans)

lemma grows_same: "px_out px = px_out px0 \<Longrightarrow> grows px px' \<longleftrightarrow> grows px0 px'"
  by (simp add: grows_def)

lemma grows_finish [intro, simp]: "grows px (finishInvoke m px)"
  by (auto simp: grows_def finishInvoke_def Let_def emit_def set_msg_def split: InvokeType.splits)

lemma grows_finish_set: "px_out px0 = px_out px \<Longrightarrow> grows px (finishInvoke m px0)"
  using grows_finish [of px0 m] by (simp add: grows_def)

lemma out_simps [simp]:
  "px_out (set_status m st px) = px_out px" "px_out (set_msg m msg px) = px_out px" "px_out (set_ep e ep px) = px_out px"
  "px_out (saveMessage i m px) = px_out px"
  by (simp_all add: set_status_def set_msg_def set_ep_def saveMessage_def)

lemma grows_doReqTimeOut: "grows px (doReqTimeOut i px)"
  by (auto simp: doReqTimeOut_def getAndDelReqMessage_def intro!: grows_finish_set split: option.splits)

lemma grows_fold: "(\<And>x px. grows px (f x px)) \<Longrightarrow> grows px (fold f xs px)"
proof (induction xs arbitrary: px)
  case (Cons x xs)
  then show ?case using grows_trans [of px "f x px"] by simp
qed simp

lemma grows_doTimeOut: "grows px (doTimeOut px)"
proof -
  obtain ids t where t: "tl_expire (px_now px) (m_timeout px) = (ids, t)" by (cases "tl_expire (px_now px) (m_timeout px)")
  have "grows (px\<lparr>m_timeout := t\<rparr>) (fold doReqTimeOut ids (px\<lparr>m_timeout := t\<rparr>))"
    by (rule grows_fold) (rule grows_doReqTimeOut)
  then show ?thesis by (simp add: doTimeOut_def t grows_def)
qed

lemma grows_onPacket: "grows px (proxy_onPacket C data px)"
  by (auto simp: proxy_onPacket_def getAndDelReqMessage_def Let_def intro!: grows_finish_set split: option.splits)

lemma grows_close_msg: "grows px (close_msg ct m px)"
  using grows_finish_set [of "set_status m (close_status ct) px" px m] by (simp add: close_msg_def Let_def grows_def)

lemma grows_onClose: "ep_onClose e sid ct px = Some px' \<Longrightarrow> grows px px'"
proof -
  have *: "grows px0 (fold (close_msg ct) ms px1)" if "px_out px1 = px_out px0" for ms px1 px0
    using grows_fold [of "close_msg ct" px1 ms, OF grows_close_msg] that by (simp add: grows_def)
  show "ep_onClose e sid ct px = Some px' \<Longrightarrow> grows px px'"
    by (auto simp: ep_onClose_def proxy_onClose_def moveToInactive_def Let_def intro!: * split: if_splits bind_splits)
qed

lemma grows_send: "ep_send e data px = Some px' \<Longrightarrow> grows px px'"
  by (auto simp: ep_send_def Let_def emit_def grows_def split: if_splits bind_splits list.splits)

lemma grows_send_all: "send_all es data px = Some px' \<Longrightarrow> grows px px'"
proof (induction es arbitrary: px)
  case (Cons e es)
  then show ?case using grows_send grows_trans by (fastforce split: bind_splits)
qed simp

lemma selectEndPoint_out: "selectEndPoint px = (r, px') \<Longrightarrow> px_out px' = px_out px"
  by (auto simp: selectEndPoint_def Let_def split: if_splits)

lemma grows_doInvoke: 
  assumes "doInvoke C m px = Some (w, px')"
  shows "grows px px'"
proof -
  let ?id = "m_sequeue px"
  define msg1 where "msg1 = (px_msgs px m)\<lparr>rm_req := (rm_req (px_msgs px m))\<lparr>rq_request_id := ?id\<rparr>, rm_requestId := ?id\<rparr>"
  define px1 where "px1 = set_msg m msg1 (px\<lparr>m_sequeue := ?id + 1\<rparr>)"
  have out: "px_out px1 = px_out px" by (simp add: px1_def)
  let ?send = "\<lambda>data. if rm_invokeType msg1 = InvokeType_OneWay \<and> rm_broadcast msg1 then
           map_option (\<lambda>px'. (True, px')) (send_all (m_activeEndPoints px1) data px1)
         else
           (case selectEndPoint px1 of
              (None, px') \<Rightarrow> Some (False, finishInvoke m (set_status m ResponseStatus_NetError px'))
            | (Some e, px') \<Rightarrow>
                map_option (\<lambda>px''. (True, px'')) (ep_send e data (set_msg m (msg1\<lparr>rm_ep := Some e\<rparr>) px')))"
  from assms obtain data x where x: "?send data = Some x"
    and r: "(case x of (sent, px2) \<Rightarrow>
      let px3 = (if sent \<and> rm_invokeType msg1 \<noteq> InvokeType_OneWay then
                   let s = saveMessage ?id m px2 in s\<lparr>m_timeout := tl_add ?id (px_now s) (m_timeout s)\<rparr>
                 else px2) in
      Some (sent \<and> rm_invokeType msg1 = InvokeType_Sync \<and> \<not> rm_back (px_msgs px3 m), px3)) = Some (w, px')"
    unfolding doInvoke_def Let_def msg1_def [symmetric] px1_def [symmetric] bind_eq_Some_conv by blast
  obtain sent px2 where x2: "x = (sent, px2)" by (cases x)
  have px': "px_out px' = px_out px2" using r by (auto simp: x2 Let_def split: if_splits)
  note s = x [unfolded x2]
  have "grows px1 px2"
  proof (cases "rm_invokeType msg1 = InvokeType_OneWay \<and> rm_broadcast msg1")
    case True
    then show ?thesis using s grows_send_all by auto
  next
    case False
    obtain r px0 where r: "selectEndPoint px1 = (r, px0)" by (cases "selectEndPoint px1")
    note o = selectEndPoint_out [OF r]
    show ?thesis
    proof (cases r)
      case None
      then show ?thesis using s False r grows_finish_set [of "set_status m ResponseStatus_NetError px0" px1 m] o by simp
    next
      case (Some e)
      then obtain px3 where "ep_send e data (set_msg m (msg1\<lparr>rm_ep := Some e\<rparr>) px0) = Some px3" "px2 = px3"
        using s False r by auto
      then show ?thesis using grows_send [of e data "set_msg m (msg1\<lparr>rm_ep := Some e\<rparr>) px0"] o by (simp add: grows_def)
    qed
  qed
  then show ?thesis by (simp add: grows_def out px')
qed

lemma updateEndPoints_out: "px_out (updateEndPoints ack px) = px_out px"
proof -
  have *: "update_loop acks all q = (rest, q') \<Longrightarrow> px_out q' = px_out q" for acks all q rest q'
    by (induction acks all q rule: update_loop.induct) (auto simp: Let_def split: prod.splits option.splits)
  show ?thesis by (auto simp: updateEndPoints_def Let_def dest!: * split: prod.splits)
qed

lemma grows_px_apply: "px_apply C op px = Some px' \<Longrightarrow> grows px px'"
proof (cases op)
  case (OpInvoke m msg)
  moreover assume "px_apply C op px = Some px'"
  ultimately obtain w where "doInvoke C m (set_msg m msg px) = Some (w, px')" by auto
  then have "grows (set_msg m msg px) px'" by (rule grows_doInvoke)
  then show ?thesis by (simp add: grows_def)
next
  case (OpEndPoints ack)
  then show "px_apply C op px = Some px' \<Longrightarrow> grows px px'" by (auto simp: grows_def updateEndPoints_out)
next
  case (OpConnected e)
  then show "px_apply C op px = Some px' \<Longrightarrow> grows px px'"
    by (auto simp: grows_def ep_onConnect_def Let_def emit_def)
qed (auto simp: grows_onPacket grows_onClose)

section \<open>The queue between the threads\<close>

lemma pushed_of_append [simp]: "pushed_of (xs @ ys) = pushed_of xs @ pushed_of ys"
  by (induction xs rule: pushed_of.induct) simp_all

text \<open>The requests of one proxy the manager was given, dispatched or waiting.\<close>

definition passed :: "nat \<Rightarrow> 'c ServiceProxyManager \<Rightarrow> nat list" where
  "passed p pm = map snd (filter (\<lambda>x. fst x = p) (pm_dispatched pm @ m_messages pm))"

definition pm_ok :: "'c ServiceProxyManager \<Rightarrow> bool" where
  "pm_ok pm \<longleftrightarrow> sm_wf (m_proxys pm) \<and> distinct (map snd (m_proxys pm)) \<and>
     (\<forall>p \<in> set (map snd (m_proxys pm)). pm_store pm p \<noteq> None) \<and>
     (\<forall>p ob. pm_store pm p = Some ob \<longrightarrow> passed p pm = pushed_of (px_out (po_proxy ob)) \<and> p < pm_fresh pm) \<and>
     (\<forall>p \<ge> pm_fresh pm. passed p pm = [])"

lemma new_manager_ok: "pm_ok (new_ServiceProxyManager now upd)"
  by (simp add: pm_ok_def new_ServiceProxyManager_def passed_def sm_wf_def)

lemma fold_pushMessage:
  "fold (\<lambda>m. pushMessage (p, m)) ms pm = pm\<lparr>m_messages := m_messages pm @ map (Pair p) ms\<rparr>"
  by (induction ms arbitrary: pm) (simp_all add: pushMessage_def)

lemma with_proxy_ok:
  assumes "pm_ok pm" and "with_proxy p f pm = Some pm'"
    and "\<And>px px'. f px = Some px' \<Longrightarrow> grows px px'"
  shows "pm_ok pm' \<and> m_proxys pm' = m_proxys pm \<and> dom (pm_store pm') = dom (pm_store pm) \<and> m_registryProxy pm' = m_registryProxy pm \<and>
    m_updateTime pm' = m_updateTime pm \<and> m_lastUpdateTime pm' = m_lastUpdateTime pm"
proof -
  from assms(2) obtain ob px where ob: "pm_store pm p = Some ob" and px: "f (po_proxy ob) = Some px"
    and pm': "pm' = fold (\<lambda>m. pushMessage (p, m)) (pushed_of (drop (length (px_out (po_proxy ob))) (px_out px)))
      (pm\<lparr>pm_store := (pm_store pm)(p := Some (ob\<lparr>po_proxy := px\<rparr>))\<rparr>)"
    by (auto simp: with_proxy_def Let_def split: bind_splits)
  from assms(3) [OF px] obtain es where es: "px_out px = px_out (po_proxy ob) @ es" by (auto simp: grows_def prefix_def)
  have "passed q pm' = (if q = p then passed p pm @ pushed_of es else passed q pm)" for q
    by (simp add: passed_def pm' fold_pushMessage es filter_map o_def)
  note passed = this
  have "passed q pm' = []" if "pm_fresh pm \<le> q" for q
  proof -
    from assms(1) ob have "p < pm_fresh pm" by (auto simp: pm_ok_def)
    with that have "q \<noteq> p" by simp
    with passed [of q] assms(1) that show ?thesis by (simp add: pm_ok_def)
  qed
  with assms(1) ob passed show ?thesis by (auto simp: pm_ok_def pm' fold_pushMessage es)
qed

lemma timeout_proxys_ok:
  assumes "pm_ok pm" and "timeout_proxys tid ms ps pm = Some pm'"
  shows "pm_ok pm' \<and> m_proxys pm' = m_proxys pm \<and> dom (pm_store pm') = dom (pm_store pm) \<and> m_registryProxy pm' = m_registryProxy pm \<and>
    m_updateTime pm' = m_updateTime pm \<and> m_lastUpdateTime pm' = m_lastUpdateTime pm"
  using assms
proof (induction ps arbitrary: pm)
  case (Cons p ps)
  from Cons.prems obtain pm1 where 1: "with_proxy p (\<lambda>px. Some (doTimeOut (px\<lparr>px_now := ms, px_tid := tid\<rparr>))) pm = Some pm1"
    and 2: "timeout_proxys tid ms ps pm1 = Some pm'" by (auto split: bind_splits)
  have g: "grows px px'" if "Some (doTimeOut (px\<lparr>px_now := ms, px_tid := tid\<rparr>)) = Some px'" for px px'
    using that grows_doTimeOut [of "px\<lparr>px_now := ms, px_tid := tid\<rparr>"] by (simp add: grows_def)
  show ?case using with_proxy_ok [OF Cons.prems(1) 1 g] Cons.IH [OF _ 2] by simp
qed simp

lemma query_endpoints_ok:
  assumes "pm_ok pm" and "query_endpoints R C tid ms p pm = Some pm'"
  shows "pm_ok pm' \<and> m_proxys pm' = m_proxys pm \<and> dom (pm_store pm') = dom (pm_store pm)"
proof -
  from assms(2) obtain ob reg where ob: "pm_store pm p = Some ob" and 1: "with_proxy reg
      (\<lambda>px. map_option snd (doAsyncUpdateEndPoints R C (po_proxy ob) p (pm_nextMessage pm) (px\<lparr>px_now := ms, px_tid := tid\<rparr>)))
      (pm\<lparr>pm_nextMessage := Suc (pm_nextMessage pm)\<rparr>) = Some pm'"
    unfolding query_endpoints_def bind_eq_Some_conv by blast
  have g: "grows px px'"
    if "map_option snd (doAsyncUpdateEndPoints R C q p m (px\<lparr>px_now := ms, px_tid := tid\<rparr>)) = Some px'" for q m px px'
    using that by (auto simp: doAsyncUpdateEndPoints_def async_Query_def stub_async_def grows_def dest!: grows_doInvoke)
  have "pm_ok (pm\<lparr>pm_nextMessage := Suc (pm_nextMessage pm)\<rparr>)" using assms(1) by (simp add: pm_ok_def passed_def)
  from with_proxy_ok [OF this 1 g] show ?thesis by simp
qed

lemma refresh_proxys_ok:
  assumes "pm_ok pm" and "refresh_proxys R C tid ms ps pm = Some pm'"
  shows "pm_ok pm' \<and> m_proxys pm' = m_proxys pm \<and> dom (pm_store pm') = dom (pm_store pm)"
  using assms
proof (induction ps arbitrary: pm)
  case (Cons p ps)
  from Cons.prems obtain ob pm1 where ob: "pm_store pm p = Some ob" and
    1: "(if m_needLocator (po_proxy ob) then query_endpoints R C tid ms p pm else Some pm) = Some pm1"
    and 2: "refresh_proxys R C tid ms ps pm1 = Some pm'"
    unfolding refresh_proxys.simps bind_eq_Some_conv by blast
  have "pm_ok pm1 \<and> m_proxys pm1 = m_proxys pm \<and> dom (pm_store pm1) = dom (pm_store pm)"
    using 1 query_endpoints_ok [OF Cons.prems(1)] Cons.prems(1) by (cases "m_needLocator (po_proxy ob)") auto
  with Cons.IH [OF _ 2] show ?case by simp
qed simp

lemma updateInNetLoop_keeps:
  assumes "pm_ok pm" and "updateInNetLoop R C tid ms now pm = Some pm'"
  shows "pm_ok pm' \<and> m_proxys pm' = m_proxys pm \<and> dom (pm_store pm') = dom (pm_store pm)"
proof -
  from assms(2) obtain pm1 where 1: "timeout_proxys tid ms (map snd (m_proxys pm)) pm = Some pm1"
    and 2: "(if now > m_updateTime pm1 + m_lastUpdateTime pm1 then do {
         pm2 \<leftarrow> refresh_proxys R C tid ms (map snd (m_proxys pm1)) pm1;
         Some (pm2\<lparr>m_lastUpdateTime := now\<rparr>)
       } else Some pm1) = Some pm'"
    by (auto simp: updateInNetLoop_def split: bind_splits)
  note a = timeout_proxys_ok [OF assms(1) 1]
  show ?thesis
  proof (cases "now > m_updateTime pm1 + m_lastUpdateTime pm1")
    case True
    then obtain pm2 where 3: "refresh_proxys R C tid ms (map snd (m_proxys pm1)) pm1 = Some pm2" "pm' = pm2\<lparr>m_lastUpdateTime := now\<rparr>"
      using 2 by (auto split: bind_splits)
    have "pm_ok pm2 \<and> m_proxys pm2 = m_proxys pm1 \<and> dom (pm_store pm2) = dom (pm_store pm1)"
      using refresh_proxys_ok [OF _ 3(1)] a by simp
    moreover have "pm_ok pm2 \<Longrightarrow> pm_ok pm'" by (simp add: 3(2) pm_ok_def passed_def)
    ultimately show ?thesis using a by (simp add: 3(2))
  next
    case False
    then show ?thesis using a 2 by simp
  qed
qed

lemma updateInMainLoop_ok: "pm_ok pm \<Longrightarrow> pm_ok (updateInMainLoop pm)"
  by (auto simp: updateInMainLoop_def pm_ok_def passed_def)

lemma parseFromString_out: "px_out (snd (parseFromString ask config st px)) = px_out px"
proof -
  have "px_out (snd (add_endpoints ds px)) = px_out px" for ds px
    by (induction ds px rule: add_endpoints.induct) (auto simp: Let_def split: option.splits)
  then show ?thesis
    by (auto simp: parseFromString_def Let_def updateEndPoints_out split: option.splits sum.splits)
qed

text \<open>What a call of \<open>stringToProxy\<close> leaves and returns.\<close>

lemma stp_lookup_new:
  assumes "pm_ok pm" and "sm_find (m_proxys pm) service = None"
    and "stp_lookup isa T tid now service pm = Some (r, pm')"
  shows "r = Inr (pm_fresh pm)" and "pm_ok pm'" and "m_proxys pm' = sm_set service (pm_fresh pm) (m_proxys pm)"
    and "pm_store pm' (pm_fresh pm) \<noteq> None"
proof -
  let ?p = "pm_fresh pm"
  have pm': "pm' = pm\<lparr>pm_store := (pm_store pm)(?p := Some \<lparr>po_class = T, po_proxy = new_ServiceProxy tid now\<rparr>),
      pm_fresh := Suc ?p, m_proxys := sm_set service ?p (m_proxys pm)\<rparr>" and "r = Inr ?p"
    using assms(2,3) by (simp_all add: stp_lookup_def Let_def)
  then show "r = Inr (pm_fresh pm)" "m_proxys pm' = sm_set service (pm_fresh pm) (m_proxys pm)"
    "pm_store pm' (pm_fresh pm) \<noteq> None" by simp_all
  have vs: "mset (map snd (sm_set service ?p (m_proxys pm))) = add_mset ?p (mset (map snd (m_proxys pm)))"
    by (rule sm_set_mset [OF assms(2)])
  have fresh: "pm_store pm ?p = None" using assms(1) by (cases "pm_store pm ?p") (auto simp: pm_ok_def)
  then have new: "?p \<notin> set (map snd (m_proxys pm))" using assms(1) by (auto simp: pm_ok_def)
  have "distinct (map snd (sm_set service ?p (m_proxys pm)))"
    using arg_cong [OF vs, of "\<lambda>M. \<forall>a. count M a = (if a \<in># M then 1 else 0)"] new assms(1)
    by (auto simp: distinct_count_atmost_1 pm_ok_def)
  moreover have "set (map snd (sm_set service ?p (m_proxys pm))) = insert ?p (set (map snd (m_proxys pm)))"
    using arg_cong [OF vs, of set_mset] by simp
  ultimately show "pm_ok pm'"
    using assms(1) by (auto simp: pm_ok_def pm' passed_def new_ServiceProxy_def less_Suc_eq)
qed

lemma stp_parse_ok:
  assumes ok: "pm_ok pm" and r: "stp_parse ask service st p pm = Some (b, pm')"
  shows "pm_ok pm' \<and> m_proxys pm' = m_proxys pm \<and> pm_store pm p \<noteq> None"
proof -
  from r obtain ob where ob: "pm_store pm p = Some ob"
    and pm': "pm' = pm\<lparr>pm_store := (pm_store pm)(p := Some (ob\<lparr>po_proxy := snd (parseFromString ask service st (po_proxy ob))\<rparr>))\<rparr>"
    by (auto simp: stp_parse_def Let_def split: if_splits bind_splits)
  then show ?thesis using ok by (auto simp: pm_ok_def passed_def parseFromString_out)
qed

lemma stp_unwind_ok:
  assumes ok: "pm_ok pm" and p: "sm_find (m_proxys pm) service = Some p"
  shows "pm_ok (stp_erase service (stp_delete p pm))"
proof -
  have "mset (map snd (m_proxys pm)) = add_mset p (mset (map snd (sm_erase service (m_proxys pm))))"
    by (rule sm_erase_mset) (use ok p in \<open>simp_all add: pm_ok_def\<close>)
  moreover have "distinct (map snd (m_proxys pm))" using ok by (simp add: pm_ok_def)
  ultimately have "distinct (p # map snd (sm_erase service (m_proxys pm)))"
    by (metis mset.simps(2) mset_eq_imp_distinct_iff)
  then show ?thesis
    using ok sm_erase_subset [of service "m_proxys pm"] by (auto simp: pm_ok_def stp_erase_def stp_delete_def passed_def)
qed

lemma stringToProxy_ok:
  assumes ok: "pm_ok pm" and r: "stringToProxy isa T ask tid now service st pm = Some (res, pm')"
  shows "pm_ok pm'"
    and "res = Some p \<Longrightarrow> sm_find (m_proxys pm') service = Some p"
    and "res = None \<Longrightarrow> sm_find (m_proxys pm) service = None \<Longrightarrow> m_proxys pm' = m_proxys pm"
    and "sm_find (m_proxys pm) service = Some q \<Longrightarrow> pm' = pm \<and> (res = Some q \<or> res = None)"
proof -
  have "pm_ok pm' \<and> (\<forall>p. res = Some p \<longrightarrow> sm_find (m_proxys pm') service = Some p) \<and>
    (res = None \<longrightarrow> sm_find (m_proxys pm) service = None \<longrightarrow> m_proxys pm' = m_proxys pm) \<and>
    (\<forall>q. sm_find (m_proxys pm) service = Some q \<longrightarrow> pm' = pm \<and> (res = Some q \<or> res = None))"
  proof (cases "sm_find (m_proxys pm) service")
    case (Some q)
    then show ?thesis using r ok by (auto simp: stringToProxy_def stp_lookup_def split: bind_splits if_splits)
  next
    case None
    let ?p = "pm_fresh pm"
    from r obtain found pm1 where 1: "stp_lookup isa T tid now service pm = Some (found, pm1)"
      by (auto simp: stringToProxy_def split: bind_splits)
    note look = stp_lookup_new [OF ok None 1]
    from r 1 look(1) obtain b pm2 where 2: "stp_parse ask service st ?p pm1 = Some (b, pm2)"
      and 3: "(if b then Some (Some ?p, pm2) else Some (None, stp_erase service (stp_delete ?p pm2))) = Some (res, pm')"
      by (auto simp: stringToProxy_def split: bind_splits)
    note parse = stp_parse_ok [OF look(2) 2]
    have at: "sm_find (m_proxys pm2) service = Some ?p" using parse look(3) by simp
    have "sm_erase service (m_proxys pm2) = m_proxys pm"
      by (rule sm_ext) (use parse look(3) ok None in \<open>auto simp: pm_ok_def fun_eq_iff\<close>)
    then show ?thesis
      using 3 parse at stp_unwind_ok [OF _ at] None
      by (cases b) (auto simp: stp_erase_def stp_delete_def)
  qed
  then show "pm_ok pm'" "res = Some p \<Longrightarrow> sm_find (m_proxys pm') service = Some p"
    "res = None \<Longrightarrow> sm_find (m_proxys pm) service = None \<Longrightarrow> m_proxys pm' = m_proxys pm"
    "sm_find (m_proxys pm) service = Some q \<Longrightarrow> pm' = pm \<and> (res = Some q \<or> res = None)"
    by blast+
qed

section \<open>Every run\<close>

lemma pm_apply_ok: "pm_ok pm \<Longrightarrow> pm_apply R C isa e pm = Some pm' \<Longrightarrow> pm_ok pm'"
proof (cases e)
  case (OnProxy tid ms p op)
  assume ok: "pm_ok pm" and r: "pm_apply R C isa e pm = Some pm'"
  have g: "grows px px'" if "px_apply C op (px\<lparr>px_now := ms, px_tid := tid\<rparr>) = Some px'" for px px'
    using grows_px_apply [OF that] by (simp add: grows_def)
  show "pm_ok pm'" using with_proxy_ok [OF ok _ g] r by (simp add: OnProxy)
next
  case (GetProxy T ask tid now service st)
  assume ok: "pm_ok pm" and r: "pm_apply R C isa e pm = Some pm'"
  then show "pm_ok pm'" using stringToProxy_ok(1) [OF ok] by (auto simp: GetProxy)
next
  case (NetLoop tid ms now)
  assume "pm_ok pm" and "pm_apply R C isa e pm = Some pm'"
  then show "pm_ok pm'" using updateInNetLoop_keeps [of pm R C tid ms now pm'] by (simp add: NetLoop)
qed (use updateInMainLoop_ok in auto)

lemma pm_run_ok: "pm_ok pm \<Longrightarrow> pm_run R C isa es pm = Some pm' \<Longrightarrow> pm_ok pm'"
proof (induction es arbitrary: pm)
  case (Cons e es)
  then obtain pm1 where 1: "pm_apply R C isa e pm = Some pm1" "pm_run R C isa es pm1 = Some pm'"
    by (auto split: bind_splits)
  show ?case by (rule Cons.IH [OF pm_apply_ok [OF Cons.prems(1) 1(1)] 1(2)])
qed simp

text \<open>What a proxy passed was dispatched or waits, in order; a round of the main loop leaves none waiting.\<close>

lemma pm_queue_ok:
  assumes "pm_ok pm" and "pm_store pm p = Some ob"
  shows "map snd (filter (\<lambda>x. fst x = p) (pm_dispatched (updateInMainLoop pm))) = pushed_of (px_out (po_proxy ob))"
    and "m_messages (updateInMainLoop pm) = []" and "pm_store (updateInMainLoop pm) = pm_store pm"
  using assms by (auto simp: updateInMainLoop_def pm_ok_def passed_def)

lemma timeout_proxys_total:
  "pm_ok pm \<Longrightarrow> \<forall>p \<in> set ps. pm_store pm p \<noteq> None \<Longrightarrow> \<exists>pm'. timeout_proxys tid ms ps pm = Some pm'"
proof (induction ps arbitrary: pm)
  case (Cons p ps)
  then obtain pm1 where 1: "with_proxy p (\<lambda>px. Some (doTimeOut (px\<lparr>px_now := ms, px_tid := tid\<rparr>))) pm = Some pm1"
    by (auto simp: with_proxy_def Let_def)
  have "timeout_proxys tid ms [p] pm = Some pm1" by (simp add: 1)
  from timeout_proxys_ok [OF Cons.prems(1) this] Cons.prems(2)
  have "pm_ok pm1" "\<forall>q \<in> set ps. pm_store pm1 q \<noteq> None" by (auto simp: dom_def set_eq_iff)
  from Cons.IH [OF this] 1 show ?case by simp
qed simp

lemma updateInNetLoop_ok:
  assumes "pm_ok pm" and "now \<le> m_updateTime pm + m_lastUpdateTime pm"
  shows "\<exists>pm'. updateInNetLoop R C tid ms now pm = Some pm' \<and> pm_ok pm'"
proof -
  have "\<forall>p \<in> set (map snd (m_proxys pm)). pm_store pm p \<noteq> None" using assms(1) by (simp add: pm_ok_def)
  from timeout_proxys_total [OF assms(1) this] obtain pm1
    where 1: "timeout_proxys tid ms (map snd (m_proxys pm)) pm = Some pm1" by blast
  from timeout_proxys_ok [OF assms(1) 1] assms(2) 1 show ?thesis by (auto simp: updateInNetLoop_def)
qed

lemma with_proxy_dom: "with_proxy p f pm = Some pm' \<Longrightarrow> pm_store pm' q = None \<longleftrightarrow> pm_store pm q = None"
  by (auto simp: with_proxy_def Let_def fold_pushMessage split: bind_splits if_splits)

text \<open>A call that fails, interrupted by the network thread between its \<open>delete\<close> and its \<open>erase\<close>: the map
  still holds the proxy that was deleted.\<close>

lemma stringToProxy_race:
  assumes "pm_ok pm" and "sm_find (m_proxys pm) service = None"
    and "stp_lookup isa T tid0 now0 service pm = Some (Inr p, pm1)" and "stp_parse ask service st p pm1 = Some (False, pm2)"
  shows "updateInNetLoop R C tid ms now (stp_delete p pm2) = None"
proof -
  note look = stp_lookup_new [OF assms(1,2,3)]
  have at: "p \<in> set (map snd (m_proxys pm2))"
    using stp_parse_ok [OF look(2) assms(4)] look(1,3) sm_find_entry [of "m_proxys pm1" service p] by force
  have "timeout_proxys tid ms ps q = None" if "p \<in> set ps" "pm_store q p = None" for ps and q :: "'a ServiceProxyManager"
    using that
  proof (induction ps arbitrary: q)
    case (Cons x ps)
    show ?case
    proof (cases "with_proxy x (\<lambda>px. Some (doTimeOut (px\<lparr>px_now := ms, px_tid := tid\<rparr>))) q")
      case (Some q1)
      then have "pm_store q1 p = None" "x \<noteq> p" using with_proxy_dom [OF Some] Cons.prems(2)
        by (auto simp: with_proxy_def domIff)
      then show ?thesis using Cons.IH [of q1] Cons.prems(1) Some by simp
    qed simp
  qed simp
  from this [OF at, of "stp_delete p pm2"] show ?thesis by (simp add: updateInNetLoop_def stp_delete_def)
qed

end
