(* ===== verification/Storm_Server.thy ===== *)
theory Storm_Server
  imports Storm_Manager Util_Config Util_Log Util_Timer
begin

text \<open>
  \<open>framework/storm_server.cpp\<close> with \<open>framework/server_config.h\<close> and \<open>util/util_option.cpp\<close>: a server reads
  its options and its configuration, stops the server that ran before it, and starts and stops its log, its
  network thread, its listeners and its services. \<open>None\<close> as a result stands for undefined behaviour or
  for code that does not return. Log entries and what is only printed are left out, except \<open>displayServer\<close>
  and \<open>status\<close>.

  Main results: what the configuration yields for every service (\<open>parseServerConfig_ok\<close>); the listener and
  the services that \<open>addService\<close> makes (\<open>addService_ok\<close>); the order in which \<open>run\<close> brings a server up and
  down (\<open>run_ok\<close>) and what it leaves when it fails (\<open>run_init_fails\<close>); when the threads can be joined
  (\<open>netEntry_returns\<close>, \<open>netEntry_hangs\<close>).
\<close>

section \<open>Options\<close>

record COption =
  m_stop :: bool
  m_daemon :: bool
  m_configFile :: string

definition new_COption :: COption where
  "new_COption = \<lparr>m_stop = False, m_daemon = False, m_configFile = []\<rparr>"

text \<open>What \<open>getopt_long\<close> returns for \<open>opts\<close> and \<open>option_str\<close>, in turn.\<close>

datatype getopt_result = Opt_h | Opt_s | Opt_f string | Opt_d | Opt_unknown | Opt_other

fun option_parse :: "getopt_result list \<Rightarrow> COption \<Rightarrow> int + COption" where
  "option_parse [] o0 = Inr o0"
| "option_parse (Opt_h # os) o0 = Inl 0"
| "option_parse (Opt_s # os) o0 = option_parse os (o0\<lparr>m_stop := True\<rparr>)"
| "option_parse (Opt_f optarg # os) o0 = option_parse os (o0\<lparr>m_configFile := optarg\<rparr>)"
| "option_parse (Opt_d # os) o0 = option_parse os (o0\<lparr>m_daemon := True\<rparr>)"
| "option_parse (Opt_unknown # os) o0 = option_parse os o0"
| "option_parse (Opt_other # os) o0 = Inl 0"

section \<open>Configuration\<close>

record ServerConfig =
  cf_appName :: string
  cf_serverName :: string
  cf_setName :: string
  pidFileName :: string
  logPath :: string
  logNum :: u32
  logSize :: u64
  logLevel :: LogLevel
  logSync :: bool
  services :: "(string, ServiceConfig) std_map"

record ClientConfig =
  connectTimeOut :: u32
  asyncThreadNum :: u32

definition kDefaultThreadNum :: u32 where "kDefaultThreadNum = 1"
definition kDefaultConnections :: u32 where "kDefaultConnections = 65535"
definition kDefaultQueueLen :: u32 where "kDefaultQueueLen = 100000"
definition kEmptyTimeOut :: u32 where "kEmptyTimeOut = 10"
definition kDefaultKeepAliveTime :: u32 where "kDefaultKeepAliveTime = 60"
definition kDefaultTimeOut :: u32 where "kDefaultTimeOut = 60"

definition parserRunThread :: "string \<Rightarrow> RunThread" where
  "parserRunThread str =
     (let s = tolower (trim str) in
      if s = ''main_thread'' then RunThread_Main
      else if s = ''extra_thread'' then RunThread_Extra
      else if s = ''net_thread'' then RunThread_Net
      else RunThread_Net)"

text \<open>The settings of one service, after its name.\<close>

definition parse_service :: "string \<Rightarrow> CConfig \<Rightarrow> ServiceConfig throws" where
  "parse_service name cfg =
     (let runThread = getCfg_def_str ''run_thread'' ''net_thread'' cfg in
      case getCfg ''host'' cfg of
        Inl e \<Rightarrow> Inl e
      | Inr host \<Rightarrow>
          (case getCfg_u32 ''port'' cfg of
             Inl e \<Rightarrow> Inl e
           | Inr port \<Rightarrow>
               Inr \<lparr>sc_runThread = parserRunThread runThread, sc_name = name, sc_host = host, sc_port = port,
                 threadNum = getCfg_def_u32 ''thread'' kDefaultThreadNum cfg,
                 maxConnections = getCfg_def_u32 ''maxConnections'' kDefaultConnections cfg,
                 maxQueueLen = getCfg_def_u32 ''maxQueueLen'' kDefaultQueueLen cfg,
                 keepAliveTime = getCfg_def_u32 ''keepAliveTime'' kDefaultKeepAliveTime cfg,
                 emptyConnTimeOut = getCfg_def_u32 ''emptyConnTimeOut'' kEmptyTimeOut cfg,
                 queueTimeout = getCfg_def_u32 ''queueTimeout'' kDefaultTimeOut cfg\<rparr>))"

fun parse_services :: "(string \<times> CConfig) list \<Rightarrow> (string, ServiceConfig) std_map \<Rightarrow> (string, ServiceConfig) std_map throws" where
  "parse_services [] allService = Inr allService"
| "parse_services ((sec, cfg) # cfgs) allService =
     (case getCfg ''service'' cfg of
        Inl e \<Rightarrow> Inl e
      | Inr name \<Rightarrow>
          if sm_find allService name \<noteq> None then Inl (''duplicate service: '' @ name)
          else
            (case parse_service name cfg of
               Inl e \<Rightarrow> Inl e
             | Inr service \<Rightarrow> parse_services cfgs (sm_set name service allService)))"

text \<open>A configuration that throws ends \<open>run\<close>; what was read before is then of no use.\<close>

definition parseServerConfig :: "CConfig \<Rightarrow> ServerConfig \<Rightarrow> ServerConfig throws" where
  "parseServerConfig cfg sc =
     (case getCfg ''app'' cfg of
        Inl e \<Rightarrow> Inl e
      | Inr app \<Rightarrow>
          (case getCfg ''server'' cfg of
             Inl e \<Rightarrow> Inl e
           | Inr server \<Rightarrow>
               (case parse_services (m_mSubConfig cfg) (services sc) of
                  Inl e \<Rightarrow> Inl e
                | Inr allService \<Rightarrow>
                    Inr \<lparr>cf_appName = app, cf_serverName = server, cf_setName = getCfg_def_str ''set'' [] cfg,
                      pidFileName = server @ ''.pid'',
                      logPath = getCfg_def_str ''log_path'' ''./log/'' cfg,
                      logNum = getCfg_def_u32 ''log_num'' 10 cfg,
                      logSize = parseHumanReadableSize (getCfg_def_str ''log_size'' ''50M'' cfg),
                      logLevel = parseLevel (getCfg_def_str ''log_level'' ''DEBUG'' cfg),
                      logSync = (getCfg_def_u32 ''log_sync'' 0 cfg \<noteq> 0),
                      services = allService\<rparr>)))"

section \<open>The server\<close>

text \<open>Services are objects of the program: a service is known by its identity, and a listener by its name.
  \<open>sv_service\<close> is the listener's pointer to its service, \<open>sv_listener\<close> the service's to its listener, and
  \<open>sv_parser\<close> the listener's packet parser.\<close>

record 'c StormServer =
  m_loopInterval :: u64
  m_option :: COption
  m_serverCfg :: ServerConfig
  m_clientCfg :: ClientConfig
  m_proxyMgr :: "'c ServiceProxyManager"
  m_listeners :: "(string, StormListener) std_map"
  m_mainThreadServices :: "nat list"
  m_extraThreadServices :: "nat list"
  m_netTimer :: Timer
  sv_service :: "string \<Rightarrow> nat option"
  sv_listener :: "nat \<Rightarrow> string"
  sv_parser :: "string \<Rightarrow> nat option"
  sv_fresh :: nat
  sv_log :: LogManager

definition new_StormServer :: "u32 \<Rightarrow> u32 \<Rightarrow> ServerConfig \<Rightarrow> ClientConfig \<Rightarrow> LogManager \<Rightarrow> 'c StormServer" where
  "new_StormServer now updateTime sc cc g =
     \<lparr>m_loopInterval = 20000, m_option = new_COption, m_serverCfg = sc, m_clientCfg = cc,
      m_proxyMgr = new_ServiceProxyManager now updateTime, m_listeners = [], m_mainThreadServices = [],
      m_extraThreadServices = [], m_netTimer = new_Timer, sv_service = \<lambda>_. None, sv_listener = \<lambda>_. [],
      sv_parser = \<lambda>_. None, sv_fresh = 0, sv_log = g\<rparr>"

definition setLoopInterval :: "u64 \<Rightarrow> 'c StormServer \<Rightarrow> 'c StormServer" where
  "setLoopInterval us s = s\<lparr>m_loopInterval := us\<rparr>"

definition new_StormListener :: "ServiceConfig \<Rightarrow> StormListener" where
  "new_StormListener cfg =
     \<lparr>sl_inLoop = False, sl_name = sc_name cfg, sl_ip = sc_host cfg, sl_port = sc_port cfg, sl_config = cfg,
      sl_queue = [], sl_conList = tl_new 0, sl_timelist = tl_new 0, sl_lastHeartBeatSec = 0\<rparr>"

text \<open>The constructor of a service makes it the service of its listener.\<close>

definition new_service :: "string \<Rightarrow> ServiceConfig \<Rightarrow> 'c StormServer \<Rightarrow> 'c StormServer" where
  "new_service key cfg s =
     (let service = sv_fresh s;
          s1 = s\<lparr>sv_fresh := Suc service, sv_service := (sv_service s)(key := Some service),
            sv_listener := (sv_listener s)(service := key)\<rparr> in
      if sc_runThread cfg = RunThread_Main then s1\<lparr>m_mainThreadServices := m_mainThreadServices s1 @ [service]\<rparr>
      else if sc_runThread cfg = RunThread_Extra then s1\<lparr>m_extraThreadServices := m_extraThreadServices s1 @ [service]\<rparr>
      else s1)"

definition update_listener :: "string \<Rightarrow> (StormListener \<Rightarrow> StormListener) \<Rightarrow> 'c StormServer \<Rightarrow> 'c StormServer" where
  "update_listener key f s =
     (case sm_find (m_listeners s) key of
        None \<Rightarrow> s
      | Some l \<Rightarrow> s\<lparr>m_listeners := sm_set key (f l) (m_listeners s)\<rparr>)"

definition setPacketParser :: "string \<Rightarrow> nat option \<Rightarrow> 'c StormServer \<Rightarrow> 'c StormServer" where
  "setPacketParser name parser s =
     (if sm_find (m_listeners s) name \<noteq> None then s\<lparr>sv_parser := (sv_parser s)(name := parser)\<rparr> else s)"

text \<open>The number of services is read as an \<open>int32_t\<close>.\<close>

definition service_num :: "ServiceConfig \<Rightarrow> nat" where
  "service_num cfg = (if sc_runThread cfg = RunThread_Extra then nat (sint (threadNum cfg)) else 1)"

definition addService_cfg :: "ServiceConfig \<Rightarrow> nat option \<Rightarrow> 'c StormServer \<Rightarrow> 'c StormServer" where
  "addService_cfg cfg parser s =
     (let key = sc_name cfg;
          s1 = (if sm_find (m_listeners s) key = None
                then s\<lparr>m_listeners := sm_set key (new_StormListener cfg) (m_listeners s)\<rparr> else s);
          s2 = (new_service key cfg ^^ service_num cfg) s1;
          s3 = update_listener key (\<lambda>l. l\<lparr>sl_inLoop := (sc_runThread cfg = RunThread_Net)\<rparr>) s2 in
      if parser \<noteq> None then setPacketParser key parser s3 else s3)"

definition addService :: "string \<Rightarrow> nat option \<Rightarrow> 'c StormServer \<Rightarrow> 'c StormServer throws" where
  "addService name parser s =
     (case sm_find (services (m_serverCfg s)) name of
        None \<Rightarrow> Inl (''cannot find service config, service: '' @ name)
      | Some cfg \<Rightarrow> Inr (addService_cfg cfg parser s))"

text \<open>The client's part of the configuration; the first result of \<open>stringToProxy\<close> becomes the registry.\<close>

definition parseClientConfig ::
  "('c \<Rightarrow> 'c \<Rightarrow> bool) \<Rightarrow> 'c \<Rightarrow> registry_query \<Rightarrow> u32 \<Rightarrow> u64 \<Rightarrow> CConfig \<Rightarrow> 'c StormServer \<Rightarrow> 'c StormServer option" where
  "parseClientConfig isa RegistryServiceProxy ask tid now cfg s =
     (let s1 = s\<lparr>m_clientCfg := \<lparr>connectTimeOut = getCfg_def_u32 ''connectTimeOut'' 3000 cfg,
                asyncThreadNum = getCfg_def_u32 ''asyncThread'' 1 cfg\<rparr>,
              m_proxyMgr := setUpdateTime (getCfg_def_u32 ''update_time'' 60 cfg) (m_proxyMgr s)\<rparr> in
      if hasConfigKey ''registry'' cfg then do {
        (registryProxy, pm) \<leftarrow> stringToProxy isa RegistryServiceProxy ask tid now (getCfg_def_str ''registry'' [] cfg) [] (m_proxyMgr s1);
        Some (s1\<lparr>m_proxyMgr := setRegistryProxy registryProxy pm\<rparr>)
      } else Some s1)"

section \<open>Waiting\<close>

text \<open>How often a loop \<open>while (!P)\<close> is repeated when its condition is read at the moments \<open>i\<close>, \<open>i + 1\<close>, ...
  \<open>None\<close>: the loop does not end.\<close>

partial_function (option) until :: "(nat \<Rightarrow> bool) \<Rightarrow> nat \<Rightarrow> nat option" where
  "until P i = (if P i then Some i else until P (Suc i))"

section \<open>The process file\<close>

abbreviation sv_disk :: "'c StormServer \<Rightarrow> Disk" where
  "sv_disk s \<equiv> g_disk (sv_log s)"

definition set_disk :: "Disk \<Rightarrow> 'c StormServer \<Rightarrow> 'c StormServer" where
  "set_disk d s = s\<lparr>sv_log := (sv_log s)\<lparr>g_disk := d\<rparr>\<rparr>"

definition savePidFile :: "int \<Rightarrow> 'c StormServer \<Rightarrow> 'c StormServer" where
  "savePidFile pid s =
     set_disk (saveToFile disk_os (pidFileName (m_serverCfg s)) (tostr_int pid @ [CHR 0x0A]) (sv_disk s)) s"

definition removePidFile :: "'c StormServer \<Rightarrow> 'c StormServer" where
  "removePidFile s = set_disk (snd (removeFile disk_os (pidFileName (m_serverCfg s)) (sv_disk s))) s"

definition EPERM :: int where "EPERM = 1"
definition ESRCH :: int where "ESRCH = 3"

text \<open>\<open>kill\<close> returns its result and \<open>errno\<close>; \<open>gone i\<close>: at the \<open>i\<close>-th look the old server has removed its file.\<close>

definition killOldProcess :: "(int \<Rightarrow> int \<times> int) \<Rightarrow> (nat \<Rightarrow> bool) \<Rightarrow> 'c StormServer \<Rightarrow> (string list \<times> 'c StormServer) option" where
  "killOldProcess kill gone s =
     (let pidStr = loadFromFile disk_os (pidFileName (m_serverCfg s)) (sv_disk s) in
      if pidStr = [] then Some ([], s)
      else
        let pid = strto_i32 pidStr;
            out = [''stoping old server, pid '' @ tostr_int pid] in
        case kill pid of
          (ret, errno) \<Rightarrow>
            if ret = 0 \<or> errno = 0 then do {
              _ \<leftarrow> until gone 0;
              Some (out @ [''old server exiting ...'', ''old server exited''], removePidFile s)
            }
            else if errno = ESRCH then Some (out @ [''permission not enough''], s)
            else if errno = EPERM then Some (out @ [''server not running''], removePidFile s)
            else Some (out @ [''old server exited''], s))"

section \<open>Parts of a run\<close>

definition startLog :: "'c StormServer \<Rightarrow> 'c StormServer" where
  "startLog s =
     (let cfg = m_serverCfg s;
          path = logPath cfg @ ''/'' @ cf_appName cfg @ ''/'' @ cf_serverName cfg @ ''/'';
          g1 = initLog path (cf_appName cfg @ ''.'' @ cf_serverName cfg) (sv_log s);
          g2 = setLogLevel (logLevel cfg) g1;
          g3 = setRollLogInfo [] (logNum cfg) (logSize cfg) g2 in
      s\<lparr>sv_log := g3\<rparr>)"

fun start_listeners :: "(string \<Rightarrow> u32 \<Rightarrow> int) \<Rightarrow> string list \<Rightarrow> 'c StormServer \<Rightarrow> bool \<times> 'c StormServer" where
  "start_listeners listen [] s = (True, s)"
| "start_listeners listen (key # keys) s =
     (case sm_find (m_listeners s) key of
        None \<Rightarrow> start_listeners listen keys s
      | Some l \<Rightarrow>
          (case startListen (listen (sl_ip l) (sl_port l)) l of
             (ret, l1) \<Rightarrow>
               let s1 = s\<lparr>m_listeners := sm_set key l1 (m_listeners s)\<rparr> in
               if ret < 0 then (False, s1) else start_listeners listen keys s1))"

definition startListener :: "(string \<Rightarrow> u32 \<Rightarrow> int) \<Rightarrow> 'c StormServer \<Rightarrow> bool \<times> 'c StormServer" where
  "startListener listen s = start_listeners listen (map fst (m_listeners s)) s"

text \<open>What the server does to its services and threads.\<close>

datatype server_event =
    ServiceInit nat | ServiceThread nat | ServiceDestroy nat | ServiceJoin nat
  | PidSaved | PidRemoved | NetStarted | NetJoined | LogThreadStarted | LogFinished | Daemon
  | MainEvents "svc_effect list" | MainLoopDestory

definition startService :: "'c StormServer \<Rightarrow> server_event list" where
  "startService s = map ServiceInit (m_mainThreadServices s) @ map ServiceThread (m_extraThreadServices s)"

text \<open>\<open>terminateThread\<close> joins the service's thread and then destroys the service.\<close>

definition terminateService :: "'c StormServer \<Rightarrow> server_event list" where
  "terminateService s =
     map ServiceDestroy (m_mainThreadServices s) @
     concat (map (\<lambda>i. [ServiceJoin i, ServiceDestroy i]) (m_extraThreadServices s))"

definition updateNet_listeners :: "u32 \<Rightarrow> 'c StormServer \<Rightarrow> (string \<times> svc_effect list) list \<times> 'c StormServer" where
  "updateNet_listeners now s =
     (let cfg = m_serverCfg s;
          proxy = (getRegistryProxy (m_proxyMgr s) \<noteq> None);
          r = map (\<lambda>(key, l). (key, updateNet proxy (cf_appName cfg) (cf_serverName cfg) (cf_setName cfg) now l)) (m_listeners s) in
      (map (\<lambda>(key, l, e). (key, e)) r, s\<lparr>m_listeners := map (\<lambda>(key, l, e). (key, l)) r\<rparr>))"

definition main_service :: "nat \<Rightarrow> svc_effect list \<times> 'c StormServer \<Rightarrow> svc_effect list \<times> 'c StormServer" where
  "main_service i r =
     (case r of (es, s) \<Rightarrow>
        (case sm_find (m_listeners s) (sv_listener s i) of
           None \<Rightarrow> (es, s)
         | Some l \<Rightarrow>
             (case svc_update l of
                (e, l1) \<Rightarrow> (es @ e, s\<lparr>m_listeners := sm_set (sv_listener s i) l1 (m_listeners s)\<rparr>))))"

text \<open>One round of the main loop; \<open>mainLoop\<close> is the program's own.\<close>

definition main_round :: "('c StormServer \<Rightarrow> 'c StormServer) \<Rightarrow> 'c StormServer \<Rightarrow> svc_effect list \<times> 'c StormServer" where
  "main_round mainLoop s =
     (case fold main_service (m_mainThreadServices s) ([], mainLoop s) of
        (es, s1) \<Rightarrow> (es, s1\<lparr>m_proxyMgr := updateInMainLoop (m_proxyMgr s1)\<rparr>))"

text \<open>The main loop, until \<open>stopped i\<close> when it looks for the \<open>i\<close>-th time.\<close>

fun main_rounds :: "('c StormServer \<Rightarrow> 'c StormServer) \<Rightarrow> nat \<Rightarrow> 'c StormServer \<Rightarrow> server_event list \<times> 'c StormServer" where
  "main_rounds mainLoop 0 s = ([MainLoopDestory], s)"
| "main_rounds mainLoop (Suc n) s =
     (case main_round mainLoop s of
        (es, s1) \<Rightarrow> (case main_rounds mainLoop n s1 of (evs, s2) \<Rightarrow> (MainEvents es # evs, s2)))"

definition mainEntry ::
  "('c StormServer \<Rightarrow> 'c StormServer) \<Rightarrow> (nat \<Rightarrow> bool) \<Rightarrow> 'c StormServer \<Rightarrow> (server_event list \<times> 'c StormServer) option" where
  "mainEntry mainLoop stopped s = map_option (\<lambda>n. main_rounds mainLoop n s) (until stopped 0)"

text \<open>The network thread's loops; \<open>flag i\<close> is \<open>g_netRunning\<close> when the thread reads it for the \<open>i\<close>-th time.
  The read that ends the first loop is not the one that starts the second.\<close>

datatype net_event = RunOnce int | UserNetLoop | NetTimerUpdate | ProxysInNetLoop | UserNetLoopDestory

definition net_round1 :: "net_event list" where
  "net_round1 = [RunOnce 1000, NetTimerUpdate, RunOnce 0, ProxysInNetLoop]"

definition net_round2 :: "net_event list" where
  "net_round2 = [RunOnce 1000, UserNetLoop, NetTimerUpdate, RunOnce 0, ProxysInNetLoop]"

definition netEntry :: "(nat \<Rightarrow> bool) \<Rightarrow> net_event list option" where
  "netEntry flag = do {
     i \<leftarrow> until flag 0;
     j \<leftarrow> until (\<lambda>k. \<not> flag k) (Suc i);
     Some (concat (replicate i net_round1) @ concat (replicate (j - Suc i) net_round2) @ [UserNetLoopDestory, RunOnce 0])
   }"

definition status :: "'c StormServer \<Rightarrow> string" where
  "status s =
     concat (map (\<lambda>(key, l).
       ''Listener: '' @ sl_name l @ [CHR 0x0A] @
       [CHR 0x09] @ ''ip        : '' @ sl_ip l @ [CHR 0x0A] @
       [CHR 0x09] @ ''port      : '' @ tostr_int (sint (sl_port l)) @ [CHR 0x0A] @
       [CHR 0x09] @ ''online num: '' @ tostr_u32 (getOnlinNum l) @ [CHR 0x0A]) (m_listeners s))"

fun run_thread_num :: "RunThread \<Rightarrow> u32" where
  "run_thread_num RunThread_Main = 1"
| "run_thread_num RunThread_Net = 2"
| "run_thread_num RunThread_Extra = 3"

text \<open>The entries \<open>displayServer\<close> writes to the log.\<close>

definition displayServer :: "'c StormServer \<Rightarrow> string list" where
  "displayServer s =
     ([CHR 0x0A] @ [CHR 0x09] @ '' AppName '' @ cf_appName (m_serverCfg s) @ [CHR 0x0A] @
      [CHR 0x09] @ '' ServerName '' @ cf_serverName (m_serverCfg s)) #
     map (\<lambda>(key, cfg).
       [CHR 0x0A] @ ''Service: '' @ sc_name cfg @ [CHR 0x0A] @
       [CHR 0x09] @ '' RunThread: '' @ tostr_u32 (run_thread_num (sc_runThread cfg)) @ [CHR 0x0A] @
       [CHR 0x09] @ '' Host: '' @ sc_host cfg @ [CHR 0x0A] @
       [CHR 0x09] @ '' Port: '' @ tostr_u32 (sc_port cfg) @ [CHR 0x0A] @
       [CHR 0x09] @ '' ThreadNum: '' @ tostr_u32 (threadNum cfg) @ [CHR 0x0A] @
       [CHR 0x09] @ '' MaxConnections: '' @ tostr_u32 (maxConnections cfg) @ [CHR 0x0A] @
       [CHR 0x09] @ '' MaxQueueLen: '' @ tostr_u32 (maxQueueLen cfg) @ [CHR 0x0A] @
       [CHR 0x09] @ '' QueueTimeOut: '' @ tostr_u32 (queueTimeout cfg)) (services (m_serverCfg s))"

section \<open>A run\<close>

text \<open>What a run depends on: the command line as \<open>getopt\<close> reads it, the operating system, the program's own
  methods, and the moments at which the flags change. \<open>init\<close> may throw, as \<open>addService\<close> does.\<close>

record 'c environment =
  en_argv0 :: string
  en_options :: "getopt_result list"
  en_pid :: int
  en_kill :: "int \<Rightarrow> int \<times> int"
  en_gone :: "nat \<Rightarrow> bool"
  en_isa :: "'c \<Rightarrow> 'c \<Rightarrow> bool"
  en_registryClass :: 'c
  en_query :: registry_query
  en_tid :: u32
  en_now :: u64
  en_init :: "'c StormServer \<Rightarrow> (bool \<times> 'c StormServer) throws"
  en_listen :: "string \<Rightarrow> u32 \<Rightarrow> int"
  en_mainLoop :: "'c StormServer \<Rightarrow> 'c StormServer"
  en_stopped :: "nat \<Rightarrow> bool"
  en_netRunning :: "nat \<Rightarrow> bool"

text \<open>An error or an early exit of the configuration: \<open>Inl (Inl code)\<close> is a call of \<open>exit\<close>, \<open>Inl (Inr e)\<close>
  an exception.\<close>

definition parseConfig :: "'c environment \<Rightarrow> 'c StormServer \<Rightarrow> ((int + string) + 'c StormServer) option" where
  "parseConfig E s =
     (case option_parse (en_options E) (m_option s) of
        Inl code \<Rightarrow> Some (Inl (Inl code))
      | Inr opt \<Rightarrow>
          let configFile = (if m_configFile opt = [] then briefLogFileName (en_argv0 E) @ ''.storm.conf'' else m_configFile opt) in
          case parseFile (\<lambda>f. loadFromFile disk_os f (sv_disk s)) configFile (new_CConfig []) of
            (Inl e, _) \<Rightarrow> Some (Inl (Inr e))
          | (Inr _, config) \<Rightarrow>
              (case getSubConfig ''server'' config of
                 Inl e \<Rightarrow> Some (Inl (Inr e))
               | Inr svrCfg \<Rightarrow>
                   (case parseServerConfig svrCfg (m_serverCfg s) of
                      Inl e \<Rightarrow> Some (Inl (Inr e))
                    | Inr sc \<Rightarrow>
                        let s1 = s\<lparr>m_option := opt, m_serverCfg := sc\<rparr> in
                        (case getSubConfig ''client'' config of
                           Inl e \<Rightarrow> Some (Inl (Inr e))
                         | Inr clientCfg \<Rightarrow>
                             map_option Inr
                               (parseClientConfig (en_isa E) (en_registryClass E) (en_query E) (en_tid E) (en_now E) clientCfg s1)))))"

datatype run_result = RunExited int | RunReturned int

text \<open>From the start of the network thread to the end. The exception of \<open>init\<close> is caught as those of the
  configuration are.\<close>

definition run_started :: "'c environment \<Rightarrow> 'c StormServer \<Rightarrow> (run_result \<times> server_event list \<times> 'c StormServer) option" where
  "run_started E s =
     (case en_init E s of
        Inl e \<Rightarrow> Some (RunReturned (-1), [], s)
      | Inr (False, s1) \<Rightarrow> Some (RunReturned (-1), [], s1)
      | Inr (True, s1) \<Rightarrow>
          let async = \<not> logSync (m_serverCfg s1);
              ev_log = (if async then [LogThreadStarted] else []);
              s2 = (if async then s1\<lparr>sv_log := setLogSync False (sv_log s1)\<rparr> else s1) in
          case startListener (en_listen E) s2 of
            (False, s3) \<Rightarrow> Some (RunReturned (-1), ev_log, s3)
          | (True, s3) \<Rightarrow> do {
              let ev_up = ev_log @ startService s3 @ (if m_daemon (m_option s3) then [Daemon] else []);
              (ev_main, s4) \<leftarrow> mainEntry (en_mainLoop E) (en_stopped E) s3;
              _ \<leftarrow> netEntry (en_netRunning E);
              Some (RunReturned 0, ev_up @ ev_main @ terminateService s4 @ [NetJoined, LogFinished, PidRemoved],
                removePidFile (s4\<lparr>sv_log := log_finish (sv_log s4)\<rparr>))
            })"

text \<open>The timer that calls \<open>updateNet\<close> has the callback \<open>0\<close>.\<close>

definition run_server :: "'c environment \<Rightarrow> 'c StormServer \<Rightarrow> (run_result \<times> server_event list \<times> 'c StormServer) option" where
  "run_server E s = do {
     let s0 = s\<lparr>m_netTimer := snd (addTimer (en_now E) 500 0 True (m_netTimer s))\<rparr>;
     parsed \<leftarrow> parseConfig E s0;
     (case parsed of
        Inl (Inl code) \<Rightarrow> Some (RunExited code, [], s0)
      | Inl (Inr e) \<Rightarrow> Some (RunReturned (-1), [], s0)
      | Inr s1 \<Rightarrow> do {
          let s2 = (if m_daemon (m_option s1) then s1 else s1\<lparr>sv_log := setLogStdOut True (sv_log s1)\<rparr>);
          (_, s3) \<leftarrow> killOldProcess (en_kill E) (en_gone E) s2;
          let s4 = startLog s3;
          if m_stop (m_option s4) then Some (RunExited 0, [], s4)
          else do {
            (res, evs, s5) \<leftarrow> run_started E (savePidFile (en_pid E) s4);
            Some (res, PidSaved # NetStarted # evs, s5)
          }
        })
   }"

section \<open>Loops that wait\<close>

lemma until_sound:
  assumes "until P i = Some k"
  shows "i \<le> k \<and> P k \<and> (\<forall>j. i \<le> j \<and> j < k \<longrightarrow> \<not> P j)"
proof -
  let ?Q = "\<lambda>(P, i) k. i \<le> k \<and> P k \<and> (\<forall>j. i \<le> j \<and> j < k \<longrightarrow> \<not> P j)"
  have "?Q (P, i) k"
  proof (rule until.raw_induct [OF _ assms, of ?Q])
    fix u :: "(nat \<Rightarrow> bool) \<Rightarrow> nat \<Rightarrow> nat option" and P :: "nat \<Rightarrow> bool" and i k :: nat
    assume IH: "\<And>P i k. u P i = Some k \<Longrightarrow> ?Q (P, i) k" and r: "(if P i then Some i else u P (Suc i)) = Some k"
    show "?Q (P, i) k"
    proof (cases "P i")
      case True
      then show ?thesis using r by auto
    next
      case False
      then have "Suc i \<le> k \<and> P k \<and> (\<forall>j. Suc i \<le> j \<and> j < k \<longrightarrow> \<not> P j)" using IH [of P "Suc i" k] r by simp
      then show ?thesis using False by (auto simp: Suc_le_eq) (metis le_neq_implies_less)
    qed
  qed
  then show ?thesis by simp
qed

lemma until_complete: "i \<le> k \<Longrightarrow> P k \<Longrightarrow> \<exists>m. until P i = Some m"
proof (induction "k - i" arbitrary: i)
  case 0
  then show ?case by (subst until.simps) simp
next
  case (Suc n)
  then show ?case by (subst until.simps) auto
qed

lemma until_None: "until P i = None \<longleftrightarrow> (\<forall>k \<ge> i. \<not> P k)"
  using until_sound [of P i] until_complete [of i _ P] by (cases "until P i") fastforce+

text \<open>The network thread ends if and only if it reads the flag once as set, and later as cleared: a flag that
  is set and cleared between two reads is missed.\<close>

lemma netEntry_returns: "netEntry flag \<noteq> None \<longleftrightarrow> (\<exists>i j. i < j \<and> flag i \<and> \<not> flag j)"
proof
  assume "netEntry flag \<noteq> None"
  then obtain i j where "until flag 0 = Some i" "until (\<lambda>k. \<not> flag k) (Suc i) = Some j"
    by (auto simp: netEntry_def split: bind_splits)
  then have "i < j \<and> flag i \<and> \<not> flag j" using until_sound by fastforce
  then show "\<exists>i j. i < j \<and> flag i \<and> \<not> flag j" by blast
next
  assume "\<exists>i j. i < j \<and> flag i \<and> \<not> flag j"
  then obtain i0 j0 where ij: "i0 < j0" "flag i0" "\<not> flag j0" by blast
  then obtain i where i: "until flag 0 = Some i" using until_complete [of 0 i0 flag] by auto
  have "i \<le> i0" using until_sound [OF i] ij(2) by (meson le0 not_less)
  then obtain j where "until (\<lambda>k. \<not> flag k) (Suc i) = Some j"
    using until_complete [of "Suc i" j0 "\<lambda>k. \<not> flag k"] ij by auto
  with i show "netEntry flag \<noteq> None" by (simp add: netEntry_def)
qed

lemma netEntry_hangs: "\<forall>i. \<not> flag i \<Longrightarrow> netEntry flag = None"
  using netEntry_returns [of flag] by auto

section \<open>The configuration\<close>

text \<open>Every section of the configuration is a service of its own, under its name.\<close>

lemma parse_services_ok:
  assumes "parse_services cfgs all = Inr all'" and "sm_wf all"
  shows "sm_wf all' \<and> (\<forall>name sv. sm_find all name = Some sv \<longrightarrow> sm_find all' name = Some sv) \<and>
    (\<forall>(sec, cfg) \<in> set cfgs. \<exists>name sv. getCfg ''service'' cfg = Inr name \<and> parse_service name cfg = Inr sv \<and>
      sm_find all name = None \<and> sm_find all' name = Some sv) \<and>
    distinct (map (\<lambda>(sec, cfg). getCfg ''service'' cfg) cfgs) \<and>
    dom (sm_find all') = dom (sm_find all) \<union> {name. \<exists>(sec, cfg) \<in> set cfgs. getCfg ''service'' cfg = Inr name}"
  using assms
proof (induction cfgs arbitrary: all)
  case (Cons c cfgs)
  obtain sec cfg where c: "c = (sec, cfg)" by (cases c)
  from Cons.prems obtain name sv where
    n: "getCfg ''service'' cfg = Inr name" "sm_find all name = None" "parse_service name cfg = Inr sv"
    and r: "parse_services cfgs (sm_set name sv all) = Inr all'"
    by (auto simp: c split: sum.splits if_splits)
  note IH = Cons.IH [OF r sm_wf_set [OF Cons.prems(2)]]
  have new: "\<forall>(sec, cfg) \<in> set cfgs. getCfg ''service'' cfg \<noteq> Inr name"
    using IH by fastforce
  from IH have at: "sm_find all' name = Some sv" by simp
  have keep: "\<forall>k v. sm_find all k = Some v \<longrightarrow> sm_find all' k = Some v"
    using IH n(2) by (metis (no_types, lifting) fun_upd_other option.distinct(1) sm_find_set)
  have each: "\<forall>(sec, cfg) \<in> set cfgs. \<exists>name sv. getCfg ''service'' cfg = Inr name \<and> parse_service name cfg = Inr sv \<and>
      sm_find all name = None \<and> sm_find all' name = Some sv"
    using IH by (fastforce split: if_splits)
  show ?case
    using IH n new at keep each by (auto simp: c)
qed auto

lemma parse_service_ok:
  "parse_service name cfg = Inr sv \<Longrightarrow> sc_name sv = name \<and> getCfg ''host'' cfg = Inr (sc_host sv) \<and>
     sc_runThread sv = parserRunThread (getCfg_def_str ''run_thread'' ''net_thread'' cfg)"
  by (auto simp: parse_service_def Let_def split: sum.splits)

lemma parseServerConfig_ok:
  assumes "parseServerConfig cfg sc = Inr sc'" and "services sc = []"
  shows "sm_wf (services sc')"
    and "\<forall>(sec, c) \<in> set (m_mSubConfig cfg). \<exists>name sv. getCfg ''service'' c = Inr name \<and> parse_service name c = Inr sv \<and>
      sm_find (services sc') name = Some sv"
    and "dom (sm_find (services sc')) = {name. \<exists>(sec, c) \<in> set (m_mSubConfig cfg). getCfg ''service'' c = Inr name}"
    and "distinct (map (\<lambda>(sec, c). getCfg ''service'' c) (m_mSubConfig cfg))"
proof -
  from assms have "parse_services (m_mSubConfig cfg) [] = Inr (services sc')"
    by (auto simp: parseServerConfig_def split: sum.splits)
  from parse_services_ok [OF this] show "sm_wf (services sc')"
    "\<forall>(sec, c) \<in> set (m_mSubConfig cfg). \<exists>name sv. getCfg ''service'' c = Inr name \<and> parse_service name c = Inr sv \<and>
      sm_find (services sc') name = Some sv"
    "dom (sm_find (services sc')) = {name. \<exists>(sec, c) \<in> set (m_mSubConfig cfg). getCfg ''service'' c = Inr name}"
    "distinct (map (\<lambda>(sec, c). getCfg ''service'' c) (m_mSubConfig cfg))"
    by (auto simp: sm_find_def)
qed

section \<open>Services\<close>

lemma new_services:
  fixes s :: "'c StormServer"
  defines "ids n \<equiv> [sv_fresh s..<sv_fresh s + n]"
  shows "(new_service key cfg ^^ n) s =
    s\<lparr>sv_fresh := sv_fresh s + n,
      m_mainThreadServices := m_mainThreadServices s @ (if sc_runThread cfg = RunThread_Main then ids n else []),
      m_extraThreadServices := m_extraThreadServices s @ (if sc_runThread cfg = RunThread_Extra then ids n else []),
      sv_service := (if n = 0 then sv_service s else (sv_service s)(key := Some (sv_fresh s + n - 1))),
      sv_listener := (\<lambda>i. if i \<in> set (ids n) then key else sv_listener s i)\<rparr>"
proof (induction n)
  case 0
  then show ?case by (simp add: ids_def)
next
  case (Suc n)
  then show ?case by (auto simp: ids_def new_service_def Let_def fun_eq_iff)
qed

lemma addService_ok:
  assumes cfg: "sm_find (services (m_serverCfg s)) name = Some cfg" and name: "sc_name cfg = name"
    and r: "addService name parser s = Inr s'"
  defines "ids \<equiv> [sv_fresh s..<sv_fresh s + service_num cfg]"
  shows "\<exists>l. sm_find (m_listeners s') name = Some l \<and> sl_inLoop l = (sc_runThread cfg = RunThread_Net) \<and>
      (sm_find (m_listeners s) name = None \<longrightarrow> sl_config l = cfg \<and> sl_ip l = sc_host cfg \<and> sl_port l = sc_port cfg)"
    and "m_mainThreadServices s' = m_mainThreadServices s @ (if sc_runThread cfg = RunThread_Main then ids else [])"
    and "m_extraThreadServices s' = m_extraThreadServices s @ (if sc_runThread cfg = RunThread_Extra then ids else [])"
    and "i \<in> set ids \<Longrightarrow> sv_listener s' i = name"
    and "sv_service s' name = (if service_num cfg = 0 then sv_service s name else Some (last ids))"
    and "parser \<noteq> None \<Longrightarrow> sv_parser s' name = parser"
    and "k \<noteq> name \<Longrightarrow> sm_find (m_listeners s') k = sm_find (m_listeners s) k"
proof -
  have s': "s' = addService_cfg cfg parser s" using r cfg by (simp add: addService_def)
  note defs = s' addService_cfg_def new_services Let_def name update_listener_def setPacketParser_def ids_def new_StormListener_def
  show "\<exists>l. sm_find (m_listeners s') name = Some l \<and> sl_inLoop l = (sc_runThread cfg = RunThread_Net) \<and>
      (sm_find (m_listeners s) name = None \<longrightarrow> sl_config l = cfg \<and> sl_ip l = sc_host cfg \<and> sl_port l = sc_port cfg)"
    by (auto simp: defs split: option.splits)
  show "m_mainThreadServices s' = m_mainThreadServices s @ (if sc_runThread cfg = RunThread_Main then ids else [])"
    "m_extraThreadServices s' = m_extraThreadServices s @ (if sc_runThread cfg = RunThread_Extra then ids else [])"
    by (auto simp: defs split: option.splits)
  show "i \<in> set ids \<Longrightarrow> sv_listener s' i = name"
    "sv_service s' name = (if service_num cfg = 0 then sv_service s name else Some (last ids))"
    by (auto simp: defs split: option.splits)
  show "parser \<noteq> None \<Longrightarrow> sv_parser s' name = parser" "k \<noteq> name \<Longrightarrow> sm_find (m_listeners s') k = sm_find (m_listeners s) k"
    by (auto simp: defs split: option.splits)
qed

text \<open>A service of the network thread is in neither vector, so it is neither initialised nor destroyed.\<close>

lemma net_service_unstarted:
  assumes "addService_cfg cfg parser s = s'" and "sc_runThread cfg = RunThread_Net"
  shows "startService s' = startService s" and "terminateService s' = terminateService s"
    and "sv_service s' (sc_name cfg) = Some (sv_fresh s)"
  using assms by (auto simp: addService_cfg_def Let_def new_service_def service_num_def startService_def terminateService_def
      update_listener_def setPacketParser_def split: option.splits)

section \<open>The order of a run\<close>

fun started :: "server_event list \<Rightarrow> nat list" where
  "started [] = []"
| "started (ServiceInit i # es) = i # started es"
| "started (ServiceThread i # es) = i # started es"
| "started (_ # es) = started es"

fun destroyed :: "server_event list \<Rightarrow> nat list" where
  "destroyed [] = []"
| "destroyed (ServiceDestroy i # es) = i # destroyed es"
| "destroyed (_ # es) = destroyed es"

lemma started_append [simp]: "started (xs @ ys) = started xs @ started ys"
  by (induction xs rule: started.induct) simp_all

lemma destroyed_append [simp]: "destroyed (xs @ ys) = destroyed xs @ destroyed ys"
  by (induction xs rule: destroyed.induct) simp_all

lemma started_startService: "started (startService s) = m_mainThreadServices s @ m_extraThreadServices s"
proof -
  have "started (map ServiceInit xs) = xs" "started (map ServiceThread xs) = xs" for xs by (induction xs) auto
  then show ?thesis by (simp add: startService_def)
qed

lemma destroyed_terminateService: "destroyed (terminateService s) = m_mainThreadServices s @ m_extraThreadServices s"
proof -
  have "destroyed (map ServiceDestroy xs) = xs" "destroyed (concat (map (\<lambda>i. [ServiceJoin i, ServiceDestroy i]) xs)) = xs" for xs
    by (induction xs) auto
  then show ?thesis by (simp add: terminateService_def)
qed

lemma no_events: "destroyed (startService s) = []" "started (terminateService s) = []"
proof -
  have "destroyed (map ServiceInit xs) = []" "destroyed (map ServiceThread xs) = []" "started (map ServiceDestroy xs) = []"
    "started (concat (map (\<lambda>i. [ServiceJoin i, ServiceDestroy i]) xs)) = []" for xs by (induction xs) auto
  then show "destroyed (startService s) = []" "started (terminateService s) = []"
    by (simp_all add: startService_def terminateService_def)
qed

text \<open>The vectors of services and the configuration, which only the program's own \<open>mainLoop\<close> could change.\<close>

definition same_services :: "'c StormServer \<Rightarrow> 'c StormServer \<Rightarrow> bool" where
  "same_services s s' \<longleftrightarrow> m_mainThreadServices s' = m_mainThreadServices s \<and> m_extraThreadServices s' = m_extraThreadServices s \<and>
     m_serverCfg s' = m_serverCfg s"

lemma main_service_same: "same_services s (snd (main_service i (es, s)))"
  by (auto simp: main_service_def same_services_def split: option.splits prod.splits)

lemma main_round_same:
  assumes "\<And>s. same_services s (mainLoop s)"
  shows "same_services s (snd (main_round mainLoop s))"
proof -
  have "same_services t (snd (fold main_service is (es, t)))" for "is" es and t :: "'a StormServer"
  proof (induction "is" arbitrary: es t)
    case (Cons i "is")
    obtain es1 t1 where 1: "main_service i (es, t) = (es1, t1)" by (cases "main_service i (es, t)")
    with main_service_same [of t i es] Cons.IH [of t1 es1] show ?case by (simp add: same_services_def)
  qed (simp add: same_services_def)
  from this [of "mainLoop s" "m_mainThreadServices s" "[]"] assms [of s] show ?thesis
    by (auto simp: main_round_def same_services_def split: prod.splits)
qed

lemma main_rounds_same:
  assumes "\<And>s. same_services s (mainLoop s)"
  shows "main_rounds mainLoop n s = (evs, s') \<Longrightarrow> same_services s s' \<and> started evs = [] \<and> destroyed evs = []"
proof (induction n arbitrary: s evs s')
  case (Suc n)
  obtain es s1 where 1: "main_round mainLoop s = (es, s1)" by (cases "main_round mainLoop s")
  obtain evs1 s2 where 2: "main_rounds mainLoop n s1 = (evs1, s2)" by (cases "main_rounds mainLoop n s1")
  show ?case
    using Suc.prems Suc.IH [OF 2] main_round_same [OF assms, of s] by (auto simp: 1 2 same_services_def)
qed (simp add: same_services_def)

text \<open>A run that ends normally: the services were started in the order of the vectors, and are destroyed in
  it; the network thread was joined after them, and the process file is gone.\<close>

lemma run_started_ok:
  assumes hook: "\<And>s. same_services s (en_mainLoop E s)"
    and r: "run_started E s = Some (RunReturned 0, evs, s')"
  shows "\<exists>up down. evs = up @ down @ [NetJoined, LogFinished, PidRemoved] \<and> started up = destroyed down \<and>
    destroyed up = [] \<and> started down = []" (is ?A)
    and "\<not> isFileExists disk_os (pidFileName (m_serverCfg s')) (sv_disk s')" (is ?B)
proof -
  obtain s1 where 1: "en_init E s = Inr (True, s1)"
    using r by (auto simp: run_started_def split: sum.splits bool.splits)
  define async where "async = (\<not> logSync (m_serverCfg s1))"
  define ev_log where "ev_log = (if async then [LogThreadStarted] else [])"
  define s2 where "s2 = (if async then s1\<lparr>sv_log := setLogSync False (sv_log s1)\<rparr> else s1)"
  obtain b s3 where 3: "startListener (en_listen E) s2 = (b, s3)" by (cases "startListener (en_listen E) s2")
  note r = r [unfolded run_started_def 1 Let_def sum.case prod.case bool.case, folded async_def, folded ev_log_def s2_def, unfolded 3]
  have b: "b" using r by (cases b) simp_all
  have bT: "b = True" using b by simp
  note r = r [unfolded bT prod.case bool.case]
  obtain ev_main s4 net where 4: "mainEntry (en_mainLoop E) (en_stopped E) s3 = Some (ev_main, s4)"
    and evs: "evs = (ev_log @ startService s3 @ (if m_daemon (m_option s3) then [Daemon] else [])) @ ev_main @
      terminateService s4 @ [NetJoined, LogFinished, PidRemoved]"
    and s': "s' = removePidFile (s4\<lparr>sv_log := log_finish (sv_log s4)\<rparr>)"
    using r by (auto simp: bind_eq_Some_conv)
  have same: "same_services s3 s4" "started ev_main = []" "destroyed ev_main = []"
    using 4 main_rounds_same [OF hook] by (auto simp: mainEntry_def)
  have "started ev_log = []" "destroyed ev_log = []" by (simp_all add: ev_log_def)
  then show ?A
    using same
    by (intro exI [of _ "ev_log @ startService s3 @ (if m_daemon (m_option s3) then [Daemon] else [])"]
        exI [of _ "ev_main @ terminateService s4"])
      (simp add: evs started_startService destroyed_terminateService no_events same_services_def)
  show ?B by (simp add: s' removePidFile_def set_disk_def isFileExists_def removeFile_def disk_os_def d_remove_def)
qed

lemma run_cases:
  assumes "run_server E s = Some (res, evs, s')"
  obtains "evs = []" and "res \<noteq> RunReturned 0"
    | s4 evs1 where "run_started E (savePidFile (en_pid E) s4) = Some (res, evs1, s')" and "evs = PidSaved # NetStarted # evs1"
proof -
  define s0 where "s0 = s\<lparr>m_netTimer := snd (addTimer (en_now E) 500 0 True (m_netTimer s))\<rparr>"
  note r = assms [unfolded run_server_def Let_def, folded s0_def]
  obtain parsed where p: "parseConfig E s0 = Some parsed" using r by (cases "parseConfig E s0") simp_all
  show thesis
  proof (cases parsed)
    case (Inl x)
    with r p that(1) show thesis by (cases x) auto
  next
    case (Inr s1)
    let ?s2 = "if m_daemon (m_option s1) then s1 else s1\<lparr>sv_log := setLogStdOut True (sv_log s1)\<rparr>"
    obtain out s3 where k: "killOldProcess (en_kill E) (en_gone E) ?s2 = Some (out, s3)"
      using r p Inr by (cases "killOldProcess (en_kill E) (en_gone E) ?s2") auto
    let ?s4 = "startLog s3"
    show thesis
    proof (cases "m_stop (m_option ?s4)")
      case True
      then show thesis using r p Inr k that(1) by auto
    next
      case False
      then show thesis using r p Inr k that(2) [of ?s4] by (auto simp: bind_eq_Some_conv)
    qed
  qed
qed

lemma run_ok:
  assumes "\<And>s. same_services s (en_mainLoop E s)" and "run_server E s = Some (RunReturned 0, evs, s')"
  shows "\<exists>up down. evs = PidSaved # NetStarted # up @ down @ [NetJoined, LogFinished, PidRemoved] \<and> started up = destroyed down \<and>
    destroyed up = [] \<and> started down = []"
    and "\<not> isFileExists disk_os (pidFileName (m_serverCfg s')) (sv_disk s')"
proof -
  from assms(2) obtain s4 evs1 where r: "run_started E (savePidFile (en_pid E) s4) = Some (RunReturned 0, evs1, s')"
    and evs: "evs = PidSaved # NetStarted # evs1" by (rule run_cases) auto
  from run_started_ok [OF assms(1) r] evs
  show "\<exists>up down. evs = PidSaved # NetStarted # up @ down @ [NetJoined, LogFinished, PidRemoved] \<and> started up = destroyed down \<and>
    destroyed up = [] \<and> started down = []" "\<not> isFileExists disk_os (pidFileName (m_serverCfg s')) (sv_disk s')"
    by auto
qed

text \<open>A run that fails after the network thread was started neither joins it nor removes the process file.\<close>

lemma run_fails:
  assumes "run_server E s = Some (RunReturned (-1), evs, s')"
  shows "NetJoined \<notin> set evs \<and> PidRemoved \<notin> set evs \<and> (evs = [] \<or> {PidSaved, NetStarted} \<subseteq> set evs)"
proof (use assms in \<open>cases rule: run_cases\<close>)
  case (2 s4 evs1)
  have "NetJoined \<notin> set evs1 \<and> PidRemoved \<notin> set evs1"
    using 2(1) by (auto simp: run_started_def Let_def bind_eq_Some_conv split: sum.splits bool.splits prod.splits if_splits)
  then show ?thesis by (simp add: 2(2))
qed simp

lemma run_init_fails:
  assumes "\<And>s. \<exists>s1. en_init E s = Inr (False, s1) \<and> m_serverCfg s1 = m_serverCfg s \<and> sv_log s1 = sv_log s"
    and "run_server E s = Some (res, evs, s')" and "evs \<noteq> []"
  shows "res = RunReturned (-1)" and "isFileExists disk_os (pidFileName (m_serverCfg s')) (sv_disk s') \<or> d_denied (sv_disk s') (pidFileName (m_serverCfg s'))"
proof -
  from assms(2,3) obtain s4 evs1 where r: "run_started E (savePidFile (en_pid E) s4) = Some (res, evs1, s')"
    by (cases rule: run_cases) auto
  obtain s1 where 1: "en_init E (savePidFile (en_pid E) s4) = Inr (False, s1)"
    "m_serverCfg s1 = m_serverCfg s4" "sv_log s1 = sv_log (savePidFile (en_pid E) s4)"
    using assms(1) [of "savePidFile (en_pid E) s4"] by (auto simp: savePidFile_def set_disk_def)
  with r have s': "res = RunReturned (-1)" "s' = s1" by (simp_all add: run_started_def)
  then show "res = RunReturned (-1)" by simp
  show "isFileExists disk_os (pidFileName (m_serverCfg s')) (sv_disk s') \<or> d_denied (sv_disk s') (pidFileName (m_serverCfg s'))"
    using 1 by (simp add: s' savePidFile_def set_disk_def isFileExists_def saveToFile_def disk_os_def)
qed

text \<open>A server that should end normally does not return when its network thread misses the flag.\<close>

lemma run_misses_flag:
  assumes "\<forall>i. \<not> en_netRunning E i"
  shows "run_server E s \<noteq> Some (RunReturned 0, evs, s')"
proof
  assume r: "run_server E s = Some (RunReturned 0, evs, s')"
  from r obtain s4 evs1 where "run_started E (savePidFile (en_pid E) s4) = Some (RunReturned 0, evs1, s')"
    by (rule run_cases) auto
  then show False
    by (auto simp: run_started_def Let_def netEntry_hangs [OF assms] bind_eq_Some_conv split: sum.splits bool.splits prod.splits if_splits)
qed

text \<open>The codes of \<open>kill\<close> are taken for each other: the file of a process that does not exist is kept, and the
  file of a server that may not be signalled is removed.\<close>

lemma killOld_swapped:
  assumes "loadFromFile disk_os (pidFileName (m_serverCfg s)) (sv_disk s) \<noteq> []"
  shows "\<forall>pid. kill pid = (-1, ESRCH) \<Longrightarrow> \<exists>out. killOldProcess kill gone s = Some (out @ [''permission not enough''], s)"
    and "\<forall>pid. kill pid = (-1, EPERM) \<Longrightarrow> \<exists>out. killOldProcess kill gone s = Some (out @ [''server not running''], removePidFile s)"
  using assms by (auto simp: killOldProcess_def Let_def ESRCH_def EPERM_def split: prod.splits)

end
