(* ===== verification/Rpc_Generator.thy ===== *)
theory Rpc_Generator
  imports Util_File "HOL-Library.Sublist"
begin

text \<open>
  \<open>source/rpc_generator/parser.cpp\<close>: the program that prints the stubs of a service. The parser's actions
  collect includes, name spaces, services and functions (the grammar \<open>syntax.y\<close> and the lexer call them in
  the order of the file); the generator prints a header and a source. What the code streams with
  \<open>endl\<close> is a list of lines here.

  Main results: for its input \<open>proto/registry.rpc\<close> it prints exactly the checked-in
  \<open>proto/registry.cpp\<close> and \<open>proto/registry.h\<close> (\<open>registry_source\<close>, \<open>registry_head\<close>), and every
  function of a service gets its case and its stubs (\<open>source_complete\<close>).
\<close>

section \<open>The parser\<close>

record Function =
  fn_name :: string
  fn_inputClass :: string
  fn_inputParam :: string
  fn_outputClass :: string
  fn_outputParam :: string
  fn_protoId :: u32

record Service =
  sv_name :: string
  sv_functions :: "Function list"

record Parser =
  ps_fileName :: string
  ps_nameSpace :: string
  ps_includes :: "string list"
  ps_usingNameSpace :: "string list"
  ps_services :: "Service list"
  ps_curService :: "nat option"

definition new_Parser :: Parser where
  "new_Parser = \<lparr>ps_fileName = [], ps_nameSpace = [], ps_includes = [], ps_usingNameSpace = [], ps_services = [], ps_curService = None\<rparr>"

definition addInclude :: "string \<Rightarrow> Parser \<Rightarrow> Parser" where
  "addInclude file p = p\<lparr>ps_includes := ps_includes p @ [file]\<rparr>"

definition addUsingNS :: "string \<Rightarrow> Parser \<Rightarrow> Parser" where
  "addUsingNS ns p = p\<lparr>ps_usingNameSpace := ps_usingNameSpace p @ [ns]\<rparr>"

definition setNS :: "string \<Rightarrow> Parser \<Rightarrow> Parser" where
  "setNS ns p = p\<lparr>ps_nameSpace := ns\<rparr>"

definition addNewService_rpc :: "string \<Rightarrow> Parser \<Rightarrow> Parser" where
  "addNewService_rpc service p =
     p\<lparr>ps_services := ps_services p @ [\<lparr>sv_name = service, sv_functions = []\<rparr>], ps_curService := Some (length (ps_services p))\<rparr>"

text \<open>The program exits with an error outside a service.\<close>

definition addNewFunction :: "Function \<Rightarrow> Parser \<Rightarrow> Parser throws" where
  "addNewFunction f p =
     (case ps_curService p of
        None \<Rightarrow> Inl ''curService null''
      | Some i \<Rightarrow>
          let s = ps_services p ! i in
          Inr (p\<lparr>ps_services := (ps_services p)[i := s\<lparr>sv_functions := sv_functions s @ [f]\<rparr>]\<rparr>))"

text \<open>The action at the closing brace, and the file name \<open>run\<close> derives from its argument.\<close>

definition end_service :: "Parser \<Rightarrow> Parser" where
  "end_service p = p\<lparr>ps_curService := None\<rparr>"

definition run_fileName :: "string \<Rightarrow> Parser \<Rightarrow> Parser" where
  "run_fileName fileName p = p\<lparr>ps_fileName := replaceFileExt (getFileBasename fileName) [] True\<rparr>"

section \<open>The text\<close>

abbreviation dquote :: string where
  "dquote \<equiv> [CHR 0x22]"

definition tab :: "nat \<Rightarrow> string" where
  "tab n = replicate n (CHR 0x09)"

definition unlines :: "string list \<Rightarrow> string" where
  "unlines ls = concat (map (\<lambda>l. l @ [CHR 0x0A]) ls)"

definition notice :: string where
  "notice = ''/*'' @ [CHR 0xE4, CHR 0xBB, CHR 0xA3, CHR 0xE7, CHR 0xA0, CHR 0x81, CHR 0xE7, CHR 0x94, CHR 0x9F, CHR 0xE6, CHR 0x88, CHR 0x90, CHR 0xE5, CHR 0x99, CHR 0xA8, 
     CHR 0xE8, CHR 0x87, CHR 0xAA, CHR 0xE5, CHR 0x8A, CHR 0xA8, CHR 0xE7, CHR 0x94, CHR 0x9F, CHR 0xE6, CHR 0x88, CHR 0x90, CHR 0xEF, CHR 0xBC, CHR 0x8C, 
     CHR 0xE8, CHR 0xAF, CHR 0xB7, CHR 0xE4, CHR 0xB8, CHR 0x8D, CHR 0xE8, CHR 0xA6, CHR 0x81, CHR 0xE6, CHR 0x89, CHR 0x8B, CHR 0xE5, CHR 0x8A, CHR 0xA8, 
     CHR 0xE4, CHR 0xBF, CHR 0xAE, CHR 0xE6, CHR 0x94, CHR 0xB9] @ ''!*/''"

definition printHead :: "Parser \<Rightarrow> string list" where
  "printHead p =
     [''#ifndef _STORM_RPC_'' @ toupper (ps_fileName p) @ ''_H_'',
      ''#define _STORM_RPC_'' @ toupper (ps_fileName p) @ ''_H_'',
      [],
      ''#include '' @ dquote @ ''framework/storm_service.h'' @ dquote,
      ''#include '' @ dquote @ ''framework/storm_service_proxy.h'' @ dquote,
      []] @
     map (\<lambda>s. ''#include '' @ dquote @ replaceFileExt s ''.pb.h'' True @ dquote) (ps_includes p) @
     map (\<lambda>s. ''using namespace '' @ s @ '';'') (ps_usingNameSpace p) @
     [[]] @
     (if ps_nameSpace p \<noteq> [] then [''namespace '' @ ps_nameSpace p @ '' {''] else [])"

definition printTail :: "Parser \<Rightarrow> string list" where
  "printTail p =
     (if ps_nameSpace p \<noteq> [] then [''}''] else []) @ [[], ''#endif'']"

definition head_method :: "Function \<Rightarrow> string" where
  "head_method f =
     tab 1 @ ''virtual int32_t '' @ fn_name f @ ''(const storm::Connection& conn, const '' @ fn_inputClass f @ ''& '' @ fn_inputParam f @ '', '' @ fn_outputClass f @ ''& '' @ fn_outputParam f @ '') {return 0;}''"

definition head_callback :: "Function \<Rightarrow> string list" where
  "head_callback f =
     [tab 1 @ ''virtual void callback_'' @ fn_name f @ ''(int32_t ret, const '' @ fn_outputClass f @ ''& '' @ fn_outputParam f @ '') {'',
      tab 2 @ ''throw std::runtime_error('' @ dquote @ ''no implement callback_'' @ fn_name f @ dquote @ '');'',
      tab 1 @ ''};'']"

definition head_stub :: "Service \<Rightarrow> Function \<Rightarrow> string list" where
  "head_stub s f =
     [[],
      tab 1 @ ''int32_t '' @ fn_name f @ ''(const '' @ fn_inputClass f @ ''& '' @ fn_inputParam f @ '', '' @ fn_outputClass f @ ''& '' @ fn_outputParam f @ '');'',
      tab 1 @ ''void '' @ ''async_'' @ fn_name f @ ''('' @ sv_name s @ ''ProxyCallBack* cb, const '' @ fn_inputClass f @ ''& '' @ fn_inputParam f @ '', bool broadcast = false);'']"

definition printServiceHead :: "Service \<Rightarrow> string list" where
  "printServiceHead s =
     [[],
      ''class '' @ sv_name s @ '' : public storm::StormService {'',
      ''public:'',
      tab 1 @ sv_name s @ ''(storm::SocketLoop* loop, storm::StormListener* listener)'',
      tab 2 @ '':storm::StormService(loop, listener) {'',
      tab 1 @ ''}'',
      tab 1 @ ''virtual ~'' @ sv_name s @ ''(){}'',
      [],
      tab 1 @ ''virtual int32_t onRpcRequest(const storm::Connection& conn, const storm::RpcRequest& req, storm::RpcResponse& resp);'',
      []] @
     map head_method (sv_functions s) @
     [''};'',
      [],
      ''class '' @ sv_name s @ ''ProxyCallBack : public storm::ServiceProxyCallBack {'',
      ''public:'',
      tab 1 @ ''virtual ~'' @ sv_name s @ ''ProxyCallBack(){}'',
      [],
      tab 1 @ ''virtual void dispatch(storm::RequestMessage* req);'',
      []] @
     concat (map head_callback (sv_functions s)) @
     [''};'',
      [],
      ''class '' @ sv_name s @ ''Proxy : public storm::ServiceProxy {'',
      ''public:'',
      tab 1 @ ''virtual ~'' @ sv_name s @ ''Proxy(){}'',
      [],
      tab 1 @ sv_name s @ ''Proxy* hash(uint64_t code) {'',
      tab 2 @ ''storm::ServiceProxy::hash(code);'',
      tab 2 @ ''return this;'',
      tab 1 @ ''}''] @
     concat (map (head_stub s) (sv_functions s)) @
     [''};'']"

definition source_case :: "Function \<Rightarrow> string list" where
  "source_case f =
     [tab 2 @ ''case '' @ tostr_u32 (fn_protoId f) @ '':'',
      tab 2 @ ''{'',
      tab 3 @ fn_inputClass f @ '' __request;'',
      tab 3 @ fn_outputClass f @ '' __response;'',
      tab 3 @ ''if (!__request.ParseFromString(req.request())) {'',
      tab 4 @ ''STORM_ERROR << '' @ dquote @ ''error'' @ dquote @ '';'',
      tab 4 @ ''return ResponseStatus_CoderError;'',
      tab 3 @ ''}'',
      tab 3 @ ''ret = '' @ fn_name f @ ''(conn, __request, __response);'',
      tab 3 @ ''if (req.invoke_type() != InvokeType_OneWay) {'',
      tab 4 @ ''if (!__response.SerializeToString(resp.mutable_response())) {'',
      tab 5 @ ''STORM_ERROR << '' @ dquote @ ''error'' @ dquote @ ''; '',
      tab 5 @ ''return ResponseStatus_CoderError;'',
      tab 4 @ ''}'',
      tab 3 @ ''}'',
      tab 3 @ ''break;'',
      tab 2 @ ''}'']"

definition source_dispatch :: "Function \<Rightarrow> string list" where
  "source_dispatch f =
     [tab 2 @ ''case '' @ tostr_u32 (fn_protoId f) @ '':'',
      tab 2 @ ''{'',
      tab 3 @ fn_outputClass f @ '' __response;'',
      tab 3 @ ''int32_t ret = decodeResponse(req, __response);'',
      tab 3 @ ''callback_'' @ fn_name f @ ''(ret, __response);'',
      tab 3 @ ''break;'',
      tab 2 @ ''}'']"

definition source_stubs :: "Service \<Rightarrow> Function \<Rightarrow> string list" where
  "source_stubs s f =
     [[],
      ''int32_t '' @ sv_name s @ ''Proxy::'' @ fn_name f @ ''(const '' @ fn_inputClass f @ ''& request'' @ '', '' @ fn_outputClass f @ ''& response) {'',
      tab 1 @ ''storm::RequestMessage* message = newRequest(InvokeType_Sync);'',
      tab 1 @ ''message->req.set_proto_id('' @ tostr_u32 (fn_protoId f) @ '');'',
      tab 1 @ ''request.SerializeToString(message->req.mutable_request());'',
      [],
      tab 1 @ ''doInvoke(message);'',
      tab 1 @ ''int32_t ret = decodeResponse(message, response);'',
      [],
      tab 1 @ ''delRequest(message);'',
      tab 1 @ ''return ret;'',
      ''}'',
      [],
      ''void '' @ sv_name s @ ''Proxy::'' @ ''async_'' @ fn_name f @ ''('' @ sv_name s @ ''ProxyCallBack* cb, const '' @ fn_inputClass f @ ''& request, bool broadcast) {'',
      tab 1 @ ''storm::RequestMessage* message = newRequest(InvokeType_Async, cb, broadcast);'',
      tab 1 @ ''uint32_t invokeType = message->invokeType;'',
      tab 1 @ ''message->req.set_proto_id('' @ tostr_u32 (fn_protoId f) @ '');'',
      tab 1 @ ''request.SerializeToString(message->req.mutable_request());'',
      [],
      tab 1 @ ''doInvoke(message);'',
      [],
      tab 1 @ ''if (invokeType == InvokeType_OneWay) {'',
      tab 2 @ ''delRequest(message);'',
      tab 1 @ ''}'',
      ''}'']"

definition printServiceSource :: "Service \<Rightarrow> string list" where
  "printServiceSource s =
     [''int32_t '' @ sv_name s @ ''::onRpcRequest(const storm::Connection& conn, const storm::RpcRequest& req, storm::RpcResponse& resp) {'',
      tab 1 @ ''int32_t ret = 0;'',
      tab 1 @ ''switch (req.proto_id()) {''] @
     concat (map source_case (sv_functions s)) @
     [tab 2 @ ''default:'',
      tab 3 @ ''return ResponseStatus_NoProtoId;'',
      tab 1 @ ''}'',
      [],
      tab 1 @ ''return ret;'',
      ''}'',
      [],
      ''void '' @ sv_name s @ ''ProxyCallBack::'' @ ''dispatch(storm::RequestMessage* req) {'',
      tab 1 @ ''uint32_t protoId = req->req.proto_id();'',
      tab 1 @ ''switch (protoId) {''] @
     concat (map source_dispatch (sv_functions s)) @
     [tab 2 @ ''default:'',
      tab 2 @ ''{'',
      tab 3 @ ''STORM_ERROR << '' @ dquote @ ''unkown protoId '' @ dquote @ '' << protoId;'',
      tab 2 @ ''}'',
      tab 1 @ ''}'',
      tab 1 @ ''storm::ServiceProxy::delRequest(req);'',
      ''}''] @
     concat (map (source_stubs s) (sv_functions s))"

definition generatorHead :: "Parser \<Rightarrow> string" where
  "generatorHead p = unlines (notice # printHead p @ concat (map printServiceHead (ps_services p)) @ printTail p)"

definition generatorSource :: "Parser \<Rightarrow> string" where
  "generatorSource p =
     unlines
       (notice #
        [''#include '' @ dquote @ ps_fileName p @ ''.h'' @ dquote,
      [],
      [],
      ''using namespace storm;'',
      []] @
        (if ps_nameSpace p \<noteq> [] then [''namespace '' @ ps_nameSpace p @ '' {''] else []) @
        concat (map printServiceSource (ps_services p)) @
        (if ps_nameSpace p \<noteq> [] then [[], ''}''] else []))"

definition generator :: "'fs os \<Rightarrow> Parser \<Rightarrow> 'fs \<Rightarrow> 'fs" where
  "generator K p fs =
     saveToFile K (ps_fileName p @ ''.cpp'') (generatorSource p) (saveToFile K (ps_fileName p @ ''.h'') (generatorHead p) fs)"

text \<open>\<open>run\<close>: \<open>yyparse\<close> is generated by bison from the grammar; it is given the text of the file and returns its
  code and the parser its actions have filled. The program exits with 1 on an error.\<close>

datatype exit_code = Exit nat

definition run_Parser :: "'fs os \<Rightarrow> (string \<Rightarrow> 'fs \<Rightarrow> string option) \<Rightarrow> (string \<Rightarrow> Parser \<Rightarrow> int \<times> Parser) \<Rightarrow> string list \<Rightarrow> 'fs \<Rightarrow> exit_code + 'fs" where
  "run_Parser K fopen yyparse argv fs =
     (if length argv < 2 then Inl (Exit 1)
      else
        let fileName = argv ! 1 in
        case fopen fileName fs of
          None \<Rightarrow> Inl (Exit 1)
        | Some text \<Rightarrow>
            (case yyparse text new_Parser of
               (ret, p) \<Rightarrow>
                 if ret \<noteq> 0 then Inl (Exit 1)
                 else Inr (generator K (run_fileName fileName p) fs)))"

definition show_function :: "Function \<Rightarrow> string list" where
  "show_function f =
     [tab 1 @ fn_name f,
      tab 2 @ fn_inputClass f @ tab 1 @ fn_inputParam f @ tab 1 @ fn_outputClass f @ tab 1 @ fn_outputParam f @ tab 1 @ tostr_u32 (fn_protoId f)]"

definition show_Parser :: "Parser \<Rightarrow> string list" where
  "show_Parser p = concat (map (\<lambda>s. (''Service: '' @ sv_name s) # concat (map show_function (sv_functions s))) (ps_services p))"

section \<open>The registry\<close>

text \<open>The lines of the two checked-in files.\<close>

definition registry_cpp :: "string list" where
  "registry_cpp =
     [notice,
      ''#include '' @ dquote @ ''registry.h'' @ dquote,
      [],
      [],
      ''using namespace storm;'',
      [],
      ''int32_t RegistryService::onRpcRequest(const storm::Connection& conn, const storm::RpcRequest& req, storm::RpcResponse& resp) {'',
      tab 1 @ ''int32_t ret = 0;'',
      tab 1 @ ''switch (req.proto_id()) {'',
      tab 2 @ ''case 1:'',
      tab 2 @ ''{'',
      tab 3 @ ''QueryServiceReq __request;'',
      tab 3 @ ''QueryServiceAck __response;'',
      tab 3 @ ''if (!__request.ParseFromString(req.request())) {'',
      tab 4 @ ''STORM_ERROR << '' @ dquote @ ''error'' @ dquote @ '';'',
      tab 4 @ ''return ResponseStatus_CoderError;'',
      tab 3 @ ''}'',
      tab 3 @ ''ret = Query(conn, __request, __response);'',
      tab 3 @ ''if (req.invoke_type() != InvokeType_OneWay) {'',
      tab 4 @ ''if (!__response.SerializeToString(resp.mutable_response())) {'',
      tab 5 @ ''STORM_ERROR << '' @ dquote @ ''error'' @ dquote @ ''; '',
      tab 5 @ ''return ResponseStatus_CoderError;'',
      tab 4 @ ''}'',
      tab 3 @ ''}'',
      tab 3 @ ''break;'',
      tab 2 @ ''}'',
      tab 2 @ ''case 2:'',
      tab 2 @ ''{'',
      tab 3 @ ''ServiceHeartBeatReq __request;'',
      tab 3 @ ''ServiceHeartBeatAck __response;'',
      tab 3 @ ''if (!__request.ParseFromString(req.request())) {'',
      tab 4 @ ''STORM_ERROR << '' @ dquote @ ''error'' @ dquote @ '';'',
      tab 4 @ ''return ResponseStatus_CoderError;'',
      tab 3 @ ''}'',
      tab 3 @ ''ret = HeartBeat(conn, __request, __response);'',
      tab 3 @ ''if (req.invoke_type() != InvokeType_OneWay) {'',
      tab 4 @ ''if (!__response.SerializeToString(resp.mutable_response())) {'',
      tab 5 @ ''STORM_ERROR << '' @ dquote @ ''error'' @ dquote @ ''; '',
      tab 5 @ ''return ResponseStatus_CoderError;'',
      tab 4 @ ''}'',
      tab 3 @ ''}'',
      tab 3 @ ''break;'',
      tab 2 @ ''}'',
      tab 2 @ ''case 3:'',
      tab 2 @ ''{'',
      tab 3 @ ''ServiceStopReq __request;'',
      tab 3 @ ''ServiceStopAck __response;'',
      tab 3 @ ''if (!__request.ParseFromString(req.request())) {'',
      tab 4 @ ''STORM_ERROR << '' @ dquote @ ''error'' @ dquote @ '';'',
      tab 4 @ ''return ResponseStatus_CoderError;'',
      tab 3 @ ''}'',
      tab 3 @ ''ret = Stop(conn, __request, __response);'',
      tab 3 @ ''if (req.invoke_type() != InvokeType_OneWay) {'',
      tab 4 @ ''if (!__response.SerializeToString(resp.mutable_response())) {'',
      tab 5 @ ''STORM_ERROR << '' @ dquote @ ''error'' @ dquote @ ''; '',
      tab 5 @ ''return ResponseStatus_CoderError;'',
      tab 4 @ ''}'',
      tab 3 @ ''}'',
      tab 3 @ ''break;'',
      tab 2 @ ''}'',
      tab 2 @ ''default:'',
      tab 3 @ ''return ResponseStatus_NoProtoId;'',
      tab 1 @ ''}'',
      [],
      tab 1 @ ''return ret;'',
      ''}'',
      [],
      ''void RegistryServiceProxyCallBack::dispatch(storm::RequestMessage* req) {'',
      tab 1 @ ''uint32_t protoId = req->req.proto_id();'',
      tab 1 @ ''switch (protoId) {'',
      tab 2 @ ''case 1:'',
      tab 2 @ ''{'',
      tab 3 @ ''QueryServiceAck __response;'',
      tab 3 @ ''int32_t ret = decodeResponse(req, __response);'',
      tab 3 @ ''callback_Query(ret, __response);'',
      tab 3 @ ''break;'',
      tab 2 @ ''}'',
      tab 2 @ ''case 2:'',
      tab 2 @ ''{'',
      tab 3 @ ''ServiceHeartBeatAck __response;'',
      tab 3 @ ''int32_t ret = decodeResponse(req, __response);'',
      tab 3 @ ''callback_HeartBeat(ret, __response);'',
      tab 3 @ ''break;'',
      tab 2 @ ''}'',
      tab 2 @ ''case 3:'',
      tab 2 @ ''{'',
      tab 3 @ ''ServiceStopAck __response;'',
      tab 3 @ ''int32_t ret = decodeResponse(req, __response);'',
      tab 3 @ ''callback_Stop(ret, __response);'',
      tab 3 @ ''break;'',
      tab 2 @ ''}'',
      tab 2 @ ''default:'',
      tab 2 @ ''{'',
      tab 3 @ ''STORM_ERROR << '' @ dquote @ ''unkown protoId '' @ dquote @ '' << protoId;'',
      tab 2 @ ''}'',
      tab 1 @ ''}'',
      tab 1 @ ''storm::ServiceProxy::delRequest(req);'',
      ''}'',
      [],
      ''int32_t RegistryServiceProxy::Query(const QueryServiceReq& request, QueryServiceAck& response) {'',
      tab 1 @ ''storm::RequestMessage* message = newRequest(InvokeType_Sync);'',
      tab 1 @ ''message->req.set_proto_id(1);'',
      tab 1 @ ''request.SerializeToString(message->req.mutable_request());'',
      [],
      tab 1 @ ''doInvoke(message);'',
      tab 1 @ ''int32_t ret = decodeResponse(message, response);'',
      [],
      tab 1 @ ''delRequest(message);'',
      tab 1 @ ''return ret;'',
      ''}'',
      [],
      ''void RegistryServiceProxy::async_Query(RegistryServiceProxyCallBack* cb, const QueryServiceReq& request, bool broadcast) {'',
      tab 1 @ ''storm::RequestMessage* message = newRequest(InvokeType_Async, cb, broadcast);'',
      tab 1 @ ''uint32_t invokeType = message->invokeType;'',
      tab 1 @ ''message->req.set_proto_id(1);'',
      tab 1 @ ''request.SerializeToString(message->req.mutable_request());'',
      [],
      tab 1 @ ''doInvoke(message);'',
      [],
      tab 1 @ ''if (invokeType == InvokeType_OneWay) {'',
      tab 2 @ ''delRequest(message);'',
      tab 1 @ ''}'',
      ''}'',
      [],
      ''int32_t RegistryServiceProxy::HeartBeat(const ServiceHeartBeatReq& request, ServiceHeartBeatAck& response) {'',
      tab 1 @ ''storm::RequestMessage* message = newRequest(InvokeType_Sync);'',
      tab 1 @ ''message->req.set_proto_id(2);'',
      tab 1 @ ''request.SerializeToString(message->req.mutable_request());'',
      [],
      tab 1 @ ''doInvoke(message);'',
      tab 1 @ ''int32_t ret = decodeResponse(message, response);'',
      [],
      tab 1 @ ''delRequest(message);'',
      tab 1 @ ''return ret;'',
      ''}'',
      [],
      ''void RegistryServiceProxy::async_HeartBeat(RegistryServiceProxyCallBack* cb, const ServiceHeartBeatReq& request, bool broadcast) {'',
      tab 1 @ ''storm::RequestMessage* message = newRequest(InvokeType_Async, cb, broadcast);'',
      tab 1 @ ''uint32_t invokeType = message->invokeType;'',
      tab 1 @ ''message->req.set_proto_id(2);'',
      tab 1 @ ''request.SerializeToString(message->req.mutable_request());'',
      [],
      tab 1 @ ''doInvoke(message);'',
      [],
      tab 1 @ ''if (invokeType == InvokeType_OneWay) {'',
      tab 2 @ ''delRequest(message);'',
      tab 1 @ ''}'',
      ''}'',
      [],
      ''int32_t RegistryServiceProxy::Stop(const ServiceStopReq& request, ServiceStopAck& response) {'',
      tab 1 @ ''storm::RequestMessage* message = newRequest(InvokeType_Sync);'',
      tab 1 @ ''message->req.set_proto_id(3);'',
      tab 1 @ ''request.SerializeToString(message->req.mutable_request());'',
      [],
      tab 1 @ ''doInvoke(message);'',
      tab 1 @ ''int32_t ret = decodeResponse(message, response);'',
      [],
      tab 1 @ ''delRequest(message);'',
      tab 1 @ ''return ret;'',
      ''}'',
      [],
      ''void RegistryServiceProxy::async_Stop(RegistryServiceProxyCallBack* cb, const ServiceStopReq& request, bool broadcast) {'',
      tab 1 @ ''storm::RequestMessage* message = newRequest(InvokeType_Async, cb, broadcast);'',
      tab 1 @ ''uint32_t invokeType = message->invokeType;'',
      tab 1 @ ''message->req.set_proto_id(3);'',
      tab 1 @ ''request.SerializeToString(message->req.mutable_request());'',
      [],
      tab 1 @ ''doInvoke(message);'',
      [],
      tab 1 @ ''if (invokeType == InvokeType_OneWay) {'',
      tab 2 @ ''delRequest(message);'',
      tab 1 @ ''}'',
      ''}'']"

definition registry_h :: "string list" where
  "registry_h =
     [notice,
      ''#ifndef _STORM_RPC_REGISTRY_H_'',
      ''#define _STORM_RPC_REGISTRY_H_'',
      [],
      ''#include '' @ dquote @ ''framework/storm_service.h'' @ dquote,
      ''#include '' @ dquote @ ''framework/storm_service_proxy.h'' @ dquote,
      [],
      ''#include '' @ dquote @ ''registry.pb.h'' @ dquote,
      ''using namespace storm;'',
      [],
      [],
      ''class RegistryService : public storm::StormService {'',
      ''public:'',
      tab 1 @ ''RegistryService(storm::SocketLoop* loop, storm::StormListener* listener)'',
      tab 2 @ '':storm::StormService(loop, listener) {'',
      tab 1 @ ''}'',
      tab 1 @ ''virtual ~RegistryService(){}'',
      [],
      tab 1 @ ''virtual int32_t onRpcRequest(const storm::Connection& conn, const storm::RpcRequest& req, storm::RpcResponse& resp);'',
      [],
      tab 1 @ ''virtual int32_t Query(const storm::Connection& conn, const QueryServiceReq& req, QueryServiceAck& ack) {return 0;}'',
      tab 1 @ ''virtual int32_t HeartBeat(const storm::Connection& conn, const ServiceHeartBeatReq& req, ServiceHeartBeatAck& ack) {return 0;}'',
      tab 1 @ ''virtual int32_t Stop(const storm::Connection& conn, const ServiceStopReq& req, ServiceStopAck& ack) {return 0;}'',
      ''};'',
      [],
      ''class RegistryServiceProxyCallBack : public storm::ServiceProxyCallBack {'',
      ''public:'',
      tab 1 @ ''virtual ~RegistryServiceProxyCallBack(){}'',
      [],
      tab 1 @ ''virtual void dispatch(storm::RequestMessage* req);'',
      [],
      tab 1 @ ''virtual void callback_Query(int32_t ret, const QueryServiceAck& ack) {'',
      tab 2 @ ''throw std::runtime_error('' @ dquote @ ''no implement callback_Query'' @ dquote @ '');'',
      tab 1 @ ''};'',
      tab 1 @ ''virtual void callback_HeartBeat(int32_t ret, const ServiceHeartBeatAck& ack) {'',
      tab 2 @ ''throw std::runtime_error('' @ dquote @ ''no implement callback_HeartBeat'' @ dquote @ '');'',
      tab 1 @ ''};'',
      tab 1 @ ''virtual void callback_Stop(int32_t ret, const ServiceStopAck& ack) {'',
      tab 2 @ ''throw std::runtime_error('' @ dquote @ ''no implement callback_Stop'' @ dquote @ '');'',
      tab 1 @ ''};'',
      ''};'',
      [],
      ''class RegistryServiceProxy : public storm::ServiceProxy {'',
      ''public:'',
      tab 1 @ ''virtual ~RegistryServiceProxy(){}'',
      [],
      tab 1 @ ''RegistryServiceProxy* hash(uint64_t code) {'',
      tab 2 @ ''storm::ServiceProxy::hash(code);'',
      tab 2 @ ''return this;'',
      tab 1 @ ''}'',
      [],
      tab 1 @ ''int32_t Query(const QueryServiceReq& req, QueryServiceAck& ack);'',
      tab 1 @ ''void async_Query(RegistryServiceProxyCallBack* cb, const QueryServiceReq& req, bool broadcast = false);'',
      [],
      tab 1 @ ''int32_t HeartBeat(const ServiceHeartBeatReq& req, ServiceHeartBeatAck& ack);'',
      tab 1 @ ''void async_HeartBeat(RegistryServiceProxyCallBack* cb, const ServiceHeartBeatReq& req, bool broadcast = false);'',
      [],
      tab 1 @ ''int32_t Stop(const ServiceStopReq& req, ServiceStopAck& ack);'',
      tab 1 @ ''void async_Stop(RegistryServiceProxyCallBack* cb, const ServiceStopReq& req, bool broadcast = false);'',
      ''};'',
      [],
      ''#endif'']"

text \<open>\<open>proto/registry.rpc\<close>, as the actions the parser calls for it.\<close>

definition rpc_function :: "string \<Rightarrow> string \<Rightarrow> string \<Rightarrow> u32 \<Rightarrow> Function" where
  "rpc_function name inClass outClass protoId =
     \<lparr>fn_name = name, fn_inputClass = inClass, fn_inputParam = ''req'', fn_outputClass = outClass, fn_outputParam = ''ack'', fn_protoId = protoId\<rparr>"

definition registry_rpc :: "Parser throws" where
  "registry_rpc =
     (let p = addNewService_rpc ''RegistryService'' (addUsingNS ''storm'' (addInclude ''registry.proto'' new_Parser)) in
      case addNewFunction (rpc_function ''Query'' ''QueryServiceReq'' ''QueryServiceAck'' 1) p of
        Inl e \<Rightarrow> Inl e
      | Inr p1 \<Rightarrow>
          (case addNewFunction (rpc_function ''HeartBeat'' ''ServiceHeartBeatReq'' ''ServiceHeartBeatAck'' 2) p1 of
             Inl e \<Rightarrow> Inl e
           | Inr p2 \<Rightarrow>
               (case addNewFunction (rpc_function ''Stop'' ''ServiceStopReq'' ''ServiceStopAck'' 3) p2 of
                  Inl e \<Rightarrow> Inl e
                | Inr p3 \<Rightarrow> Inr (run_fileName ''proto/registry.rpc'' (end_service p3)))))"

section \<open>What is printed\<close>


lemma tostr_3: "tostr_u32 1 = ''1''" "tostr_u32 2 = ''2''" "tostr_u32 3 = ''3''"
  by code_simp+

lemma registry_rpc_parser:
  "registry_rpc = Inr \<lparr>ps_fileName = ''registry'', ps_nameSpace = [], ps_includes = [''registry.proto''], ps_usingNameSpace = [''storm''],
     ps_services = [\<lparr>sv_name = ''RegistryService'', sv_functions =
       [rpc_function ''Query'' ''QueryServiceReq'' ''QueryServiceAck'' 1, rpc_function ''HeartBeat'' ''ServiceHeartBeatReq'' ''ServiceHeartBeatAck'' 2, rpc_function ''Stop'' ''ServiceStopReq'' ''ServiceStopAck'' 3]\<rparr>],
     ps_curService = None\<rparr>"
  by code_simp


theorem registry_source: "\<exists>p. registry_rpc = Inr p \<and> generatorSource p = unlines registry_cpp"
  by (simp add: registry_rpc_parser generatorSource_def printServiceSource_def registry_cpp_def source_case_def source_dispatch_def source_stubs_def rpc_function_def tostr_3)


theorem registry_head: "\<exists>p. registry_rpc = Inr p \<and> generatorHead p = unlines registry_h"
proof -
  have "replaceFileExt ''registry.proto'' ''.pb.h'' True = ''registry.pb.h''" by code_simp
  moreover have "toupper ''registry'' = ''REGISTRY''" by code_simp
  ultimately show ?thesis
    by (simp add: registry_rpc_parser generatorHead_def printHead_def printTail_def printServiceHead_def registry_h_def head_method_def
        head_callback_def head_stub_def rpc_function_def)
qed

lemma sublist_concat_map: "x \<in> set xs \<Longrightarrow> sublist (g x) (concat (map g xs))"
  by (metis concat.simps(2) concat_append list.simps(9) map_append split_list sublist_appendI)

lemma sublist_infix: "sublist x y \<Longrightarrow> sublist x (pre @ y @ post)"
  by (meson sublist_appendI sublist_order.order.trans)

lemma sublist_end: "sublist x y \<Longrightarrow> sublist x (pre @ y)"
  using sublist_infix [of x y pre "[]"] by simp

lemma source_complete:
  assumes f: "f \<in> set (sv_functions s)"
  shows "sublist (source_case f) (printServiceSource s) \<and> sublist (source_dispatch f) (printServiceSource s) \<and> sublist (source_stubs s f) (printServiceSource s)"
proof (intro conjI)
  show "sublist (source_case f) (printServiceSource s)"
    unfolding printServiceSource_def by (rule sublist_infix, rule sublist_concat_map, rule f)
  show "sublist (source_dispatch f) (printServiceSource s)"
    unfolding printServiceSource_def by (rule sublist_end, rule sublist_end, rule sublist_infix, rule sublist_concat_map, rule f)
  show "sublist (source_stubs s f) (printServiceSource s)"
    unfolding printServiceSource_def by (intro sublist_end, rule sublist_concat_map, rule f)
qed

lemma registry_printed:
  "\<exists>p. registry_rpc = Inr p \<and>
    generator K p fs = saveToFile K ''registry.cpp'' (unlines registry_cpp) (saveToFile K ''registry.h'' (unlines registry_h) fs)"
proof -
  obtain p where p: "registry_rpc = Inr p" "ps_fileName p = ''registry''"
    by (rule that [OF registry_rpc_parser]) simp
  have "generatorSource p = unlines registry_cpp" "generatorHead p = unlines registry_h"
    using registry_source registry_head p(1) by (metis sum.inject(2))+
  then show ?thesis using p by (intro exI [of _ p]) (simp add: generator_def)
qed

end
