(* ===== verification/Util_Template.thy ===== *)
theory Util_Template
  imports Util_String
begin

text \<open>
  The templates of \<open>source/util/util_string.h\<close>: the remaining instances of \<open>tostr\<close> and of
  \<open>lexical_castor\<close> for integers, and the functions that split a string into values of any type
  or join values of any type into a string. A template over \<open>T\<close> is a function that has the
  instance of \<open>tostr\<close> or \<open>strto\<close> as its first argument.

  The locale \<open>lexical\<close> is what a type needs for its lists to be read back from what was printed:
  a cast that undoes \<open>tostr\<close> on the values the type has, and a printed form of digits and a minus
  sign. Every integer instance but those of 8 bits has it; \<open>tostr\<close> prints an 8-bit integer
  as a character, which no cast reads back.
\<close>

section \<open>Instances\<close>

definition strto_i64 :: "string \<Rightarrow> int" where
  "strto_i64 s = sint (strtoull s)"

definition strto_u16 :: "string \<Rightarrow> 16 word" where
  "strto_u16 s = ucast (strtoull s)"

definition strto_i16 :: "string \<Rightarrow> int" where
  "strto_i16 s = sint (ucast (strtoull s) :: 16 word)"

definition strto_u8 :: "string \<Rightarrow> 8 word" where
  "strto_u8 s = ucast (strtoull s)"

definition strto_i8 :: "string \<Rightarrow> int" where
  "strto_i8 s = sint (ucast (strtoull s) :: 8 word)"

definition strto_string :: "string \<Rightarrow> string" where
  "strto_string s = s"

text \<open>\<open>ostringstream << t\<close>: an unsigned 16-bit integer, a \<open>bool\<close> (as 0 or 1), an 8-bit integer
  (as the character with its code).\<close>

definition tostr_u16 :: "16 word \<Rightarrow> string" where
  "tostr_u16 n = dec_digits (unat n)"

definition tostr_bool :: "bool \<Rightarrow> string" where
  "tostr_bool b = (if b then ''1'' else ''0'')"

definition tostr_u8 :: "8 word \<Rightarrow> string" where
  "tostr_u8 n = [char_of (unat n)]"

text \<open>\<open>strto\<close> with a default for the empty string.\<close>

definition strto_def :: "(string \<Rightarrow> 'a) \<Rightarrow> string \<Rightarrow> 'a \<Rightarrow> 'a" where
  "strto_def cast s d = (if s = [] then d else cast s)"

section \<open>Splitting into values and joining values\<close>

fun splitString_T_loop :: "(string \<Rightarrow> 'a) \<Rightarrow> string list \<Rightarrow> 'a list \<Rightarrow> 'a list" where
  "splitString_T_loop cast [] vResult = vResult"
| "splitString_T_loop cast (s # vStrResult) vResult = splitString_T_loop cast vStrResult (vResult @ [cast s])"

definition splitString_T :: "(string \<Rightarrow> 'a) \<Rightarrow> string \<Rightarrow> string \<Rightarrow> bool \<Rightarrow> 'a list" where
  "splitString_T cast str sep bStrip = splitString_T_loop cast (splitString str sep bStrip) []"

fun splitString2_T_loop ::
  "(string \<Rightarrow> 'a) \<Rightarrow> (string \<Rightarrow> 'b) \<Rightarrow> (string \<times> string) list \<Rightarrow> ('a \<times> 'b) list \<Rightarrow> ('a \<times> 'b) list" where
  "splitString2_T_loop cast1 cast2 [] vResult = vResult"
| "splitString2_T_loop cast1 cast2 (kv # vStrResult) vResult =
     splitString2_T_loop cast1 cast2 vStrResult (vResult @ [(cast1 (fst kv), cast2 (snd kv))])"

definition splitString2_T ::
  "(string \<Rightarrow> 'a) \<Rightarrow> (string \<Rightarrow> 'b) \<Rightarrow> string \<Rightarrow> string \<Rightarrow> string \<Rightarrow> ('a \<times> 'b) list" where
  "splitString2_T cast1 cast2 str sep1 sep2 = splitString2_T_loop cast1 cast2 (splitString2 str sep1 sep2) []"

fun splitString2_T_map_loop ::
  "(string \<Rightarrow> 'a::linorder) \<Rightarrow> (string \<Rightarrow> 'b) \<Rightarrow> (string \<times> string) list \<Rightarrow> ('a, 'b) std_map \<Rightarrow> ('a, 'b) std_map" where
  "splitString2_T_map_loop cast1 cast2 [] mResult = mResult"
| "splitString2_T_map_loop cast1 cast2 (kv # vStrResult) mResult =
     splitString2_T_map_loop cast1 cast2 vStrResult (sm_set (cast1 (fst kv)) (cast2 (snd kv)) mResult)"

definition splitString2_T_map ::
  "(string \<Rightarrow> 'a::linorder) \<Rightarrow> (string \<Rightarrow> 'b) \<Rightarrow> string \<Rightarrow> string \<Rightarrow> string \<Rightarrow> ('a, 'b) std_map" where
  "splitString2_T_map cast1 cast2 str sep1 sep2 =
     splitString2_T_map_loop cast1 cast2 (splitString2 str sep1 sep2) []"

fun joinString_T_loop :: "('a \<Rightarrow> string) \<Rightarrow> 'a list \<Rightarrow> string \<Rightarrow> string \<Rightarrow> string" where
  "joinString_T_loop tostr [] sep sResult = sResult"
| "joinString_T_loop tostr (x # v) sep sResult =
     joinString_T_loop tostr v sep ((if sResult \<noteq> [] then sResult @ sep else sResult) @ tostr x)"

definition joinString_T :: "('a \<Rightarrow> string) \<Rightarrow> 'a list \<Rightarrow> string \<Rightarrow> string" where
  "joinString_T tostr v sep = joinString_T_loop tostr v sep []"

text \<open>The loops over a vector of pairs and over a map are the same text; a map is the vector of its
  entries in the order of the keys.\<close>

fun joinString2_T_loop ::
  "('a \<Rightarrow> string) \<Rightarrow> ('b \<Rightarrow> string) \<Rightarrow> ('a \<times> 'b) list \<Rightarrow> string \<Rightarrow> string \<Rightarrow> string \<Rightarrow> string" where
  "joinString2_T_loop tostr1 tostr2 [] sep1 sep2 sResult = sResult"
| "joinString2_T_loop tostr1 tostr2 (kv # v) sep1 sep2 sResult =
     joinString2_T_loop tostr1 tostr2 v sep1 sep2
       ((if sResult \<noteq> [] then sResult @ sep1 else sResult) @ tostr1 (fst kv) @ sep2 @ tostr2 (snd kv))"

definition joinString2_T ::
  "('a \<Rightarrow> string) \<Rightarrow> ('b \<Rightarrow> string) \<Rightarrow> ('a \<times> 'b) list \<Rightarrow> string \<Rightarrow> string \<Rightarrow> string" where
  "joinString2_T tostr1 tostr2 v sep1 sep2 = joinString2_T_loop tostr1 tostr2 v sep1 sep2 []"

definition joinString2_T_map ::
  "('a \<Rightarrow> string) \<Rightarrow> ('b \<Rightarrow> string) \<Rightarrow> ('a, 'b) std_map \<Rightarrow> string \<Rightarrow> string \<Rightarrow> string" where
  "joinString2_T_map tostr1 tostr2 v sep1 sep2 = joinString2_T_loop tostr1 tostr2 v sep1 sep2 []"

section \<open>The loops over values are the loops over strings\<close>

lemma splitString_T_loop_eq: "splitString_T_loop cast v r = r @ map cast v"
  by (induction v arbitrary: r) auto

lemma splitString_T_eq: "splitString_T cast str sep b = map cast (splitString str sep b)"
  by (simp add: splitString_T_def splitString_T_loop_eq)

lemma splitString2_T_loop_eq: "splitString2_T_loop cast1 cast2 v r = r @ map (map_prod cast1 cast2) v"
  by (induction v arbitrary: r) (auto simp: map_prod_def split: prod.split)

lemma splitString2_T_eq:
  "splitString2_T cast1 cast2 str sep1 sep2 = map (map_prod cast1 cast2) (splitString2 str sep1 sep2)"
  by (simp add: splitString2_T_def splitString2_T_loop_eq)

lemma splitString2_T_map_loop_eq:
  "splitString2_T_map_loop cast1 cast2 v m = fold (\<lambda>(k, x). sm_set k x) (map (map_prod cast1 cast2) v) m"
  by (induction v arbitrary: m) (auto simp: map_prod_def split: prod.split)

lemma splitString2_T_map_eq:
  "splitString2_T_map cast1 cast2 str sep1 sep2 =
     fold (\<lambda>(k, x). sm_set k x) (splitString2_T cast1 cast2 str sep1 sep2) []"
  by (simp add: splitString2_T_map_def splitString2_T_map_loop_eq splitString2_T_eq)

lemma joinString_T_loop_eq: "joinString_T_loop tostr v sep r = joinString_loop (map tostr v) sep r"
  by (induction v arbitrary: r) auto

lemma joinString_T_eq: "joinString_T tostr v sep = joinString (map tostr v) sep"
  by (simp add: joinString_T_def joinString_def joinString_T_loop_eq)

lemma joinString2_T_loop_eq:
  "joinString2_T_loop tostr1 tostr2 v sep1 sep2 r =
     joinString2_loop (map (map_prod tostr1 tostr2) v) sep1 sep2 r"
  by (induction v arbitrary: r) (auto simp: map_prod_def split: prod.split)

section \<open>Numbers are printed with digits and a sign\<close>

definition is_number_char :: "char \<Rightarrow> bool" where
  "is_number_char c \<longleftrightarrow> is_digit_of 10 c \<or> c = CHR ''-''"

lemma dec_digits_number: "c \<in> set (dec_digits n) \<Longrightarrow> is_number_char c"
  by (simp add: is_number_char_def dec_digits_digits)

lemma tostr_int_number: "tostr_int i \<noteq> [] \<and> (\<forall>c \<in> set (tostr_int i). is_number_char c)"
  using dec_digits_number by (auto simp: tostr_int_def is_number_char_def)

text \<open>The cast reads a printed integer back modulo \<open>2 ^ 64\<close>.\<close>

lemma strtoull_tostr_int:
  assumes "- (2 ^ 64) < i" and "i < 2 ^ 64"
  shows "strtoull (tostr_int i) = word_of_int i"
proof (cases "i < 0")
  case True
  then have n: "nat (- i) < 2 ^ 64" using assms by simp
  have "strtoull (tostr_int i) = - word_of_nat (nat (- i))"
    using True n by (simp add: tostr_int_def strtoull_def isspace_def strtoull_base_dec)
  also have "\<dots> = word_of_int i" using True by (simp add: of_nat_nat)
  finally show ?thesis .
next
  case False
  then have "nat i < 2 ^ 64" using assms by simp
  with False show ?thesis by (simp add: tostr_int_def strtoull_dec)
qed

section \<open>Types whose printed values are read back\<close>

locale lexical =
  fixes tostr :: "'a \<Rightarrow> string"
    and cast :: "string \<Rightarrow> 'a"
    and valid :: "'a \<Rightarrow> bool"
  assumes cast_tostr: "valid x \<Longrightarrow> cast (tostr x) = x"
    and printed: "valid x \<Longrightarrow> tostr x \<noteq> [] \<and> (\<forall>c \<in> set (tostr x). is_number_char c)"
begin

lemma map_cast_tostr: "\<forall>x \<in> set v. valid x \<Longrightarrow> map cast (map tostr v) = v"
  by (induction v) (auto simp: cast_tostr)

lemma split_joined:
  assumes "c \<in> set sep" and "\<forall>d \<in> set sep. \<not> is_number_char d" and "\<forall>x \<in> set v. valid x"
  shows "splitString_T cast (joinString_T tostr v [c]) sep True = v"
proof -
  have "splitString (joinString (map tostr v) [c]) sep True = map tostr v"
    by (rule splitString_joinString [OF assms(1)]) (use assms(2,3) printed in fastforce)
  then show ?thesis
    using map_cast_tostr [OF assms(3)] by (simp add: splitString_T_eq joinString_T_eq)
qed

end

locale lexical_pair = k: lexical tostr1 cast1 valid1 + v: lexical tostr2 cast2 valid2
  for tostr1 :: "'a::linorder \<Rightarrow> string" and cast1 valid1 and tostr2 :: "'b \<Rightarrow> string" and cast2 valid2
begin

definition valid_pair :: "'a \<times> 'b \<Rightarrow> bool" where
  "valid_pair kv \<longleftrightarrow> valid1 (fst kv) \<and> valid2 (snd kv)"

lemma map_pair_cast_tostr:
  "\<forall>kv \<in> set v. valid_pair kv \<Longrightarrow> map (map_prod cast1 cast2) (map (map_prod tostr1 tostr2) v) = v"
  by (induction v) (auto simp: valid_pair_def k.cast_tostr v.cast_tostr)

lemma split2_joined:
  assumes "\<not> is_number_char c1" and "\<not> is_number_char c2" and "c1 \<noteq> c2" and "\<forall>kv \<in> set v. valid_pair kv"
  shows "splitString2_T cast1 cast2 (joinString2_T tostr1 tostr2 v [c1] [c2]) [c1] [c2] = v"
proof -
  let ?kvs = "map (map_prod tostr1 tostr2) v"
  have "splitString2 (joinString2_loop ?kvs [c1] [c2] []) [c1] [c2] = ?kvs"
  proof (rule splitString2_joined)
    show "\<forall>(x, y) \<in> set ?kvs. c1 \<notin> set x \<and> c2 \<notin> set x \<and> c1 \<notin> set y"
      using assms k.printed v.printed by (fastforce simp: valid_pair_def)
  qed (use assms in auto)
  then show ?thesis
    using map_pair_cast_tostr [OF assms(4)]
    by (simp add: splitString2_T_eq joinString2_T_def joinString2_T_loop_eq)
qed

lemma split2_map_joined:
  assumes "\<not> is_number_char c1" and "\<not> is_number_char c2" and "c1 \<noteq> c2" and "\<forall>kv \<in> set m. valid_pair kv"
    and "sm_wf m"
  shows "splitString2_T_map cast1 cast2 (joinString2_T_map tostr1 tostr2 m [c1] [c2]) [c1] [c2] = m"
  using split2_joined [OF assms(1-4)] fold_sm_set_id [OF assms(5)]
  by (simp add: splitString2_T_map_eq joinString2_T_map_def joinString2_T_def)

end

section \<open>Which types are\<close>

lemma ucast_number:
  "LENGTH('w::len) \<le> 64 \<Longrightarrow> (ucast (word_of_int i :: u64) :: 'w word) = word_of_int i"
  by transfer (simp add: min_def)

lemma sint_number:
  "- (2 ^ (LENGTH('w::len) - 1)) \<le> i \<Longrightarrow> i < 2 ^ (LENGTH('w) - 1) \<Longrightarrow> sint (word_of_int i :: 'w word) = i"
  by (simp add: signed_of_int signed_take_bit_int_eq_self)

lemma dec_digits_tostr_int: "dec_digits n = tostr_int (int n)"
  by (simp add: tostr_int_def)

lemma strtoull_tostr_word:
  assumes "LENGTH('w::len) \<le> 64"
  shows "strtoull (dec_digits (unat (n :: 'w word))) = word_of_int (uint n)"
proof -
  have "uint n < 2 ^ LENGTH('w)" by (rule uint_lt2p)
  also have "(2 :: int) ^ LENGTH('w) \<le> 2 ^ 64" using assms by (simp only: power_increasing)
  finally have "uint n < 2 ^ 64" .
  moreover have "- (2 ^ 64) < uint n" by (rule less_le_trans [OF _ uint_ge_0]) simp
  ultimately show ?thesis
    unfolding dec_digits_tostr_int by (simp add: strtoull_tostr_int)
qed

interpretation lexical_u64: lexical tostr_u64 strto_u64 "\<lambda>_. True"
  by unfold_locales (auto simp: tostr_u64_def strto_u64_def strtoull_tostr_word intro: dec_digits_number)

interpretation lexical_u32: lexical tostr_u32 strto_u32 "\<lambda>_. True"
  by unfold_locales (simp_all add: strto_u32_tostr, auto simp: tostr_u32_def intro: dec_digits_number)

lemma ucast_u16_back: "(ucast (ucast n :: u64) :: 16 word) = n"
  by transfer (simp add: min_def)

interpretation lexical_u16: lexical tostr_u16 strto_u16 "\<lambda>_. True"
  by unfold_locales
    (auto simp: tostr_u16_def strto_u16_def strtoull_tostr_word ucast_u16_back intro: dec_digits_number)

interpretation lexical_i64: lexical tostr_int strto_i64 "\<lambda>i. - (2 ^ 63) \<le> i \<and> i < 2 ^ 63"
  using tostr_int_number by unfold_locales (simp_all add: strto_i64_def strtoull_tostr_int sint_number)

interpretation lexical_i32: lexical tostr_int strto_i32 "\<lambda>i. - (2 ^ 31) \<le> i \<and> i < 2 ^ 31"
  using tostr_int_number
  by unfold_locales (simp_all add: strto_i32_def strtoull_tostr_int ucast_number sint_number)

interpretation lexical_i16: lexical tostr_int strto_i16 "\<lambda>i. - (2 ^ 15) \<le> i \<and> i < 2 ^ 15"
  using tostr_int_number
  by unfold_locales (simp_all add: strto_i16_def strtoull_tostr_int ucast_number sint_number)

lemma digit_01: "is_number_char (CHR ''0'')" "is_number_char (CHR ''1'')"
  by (simp_all add: is_number_char_def is_digit_of_def digit_val_def)

interpretation lexical_bool: lexical tostr_bool strto_bool "\<lambda>_. True"
  by unfold_locales
    (auto simp: tostr_bool_def strto_bool_def digit_01 strtoull_def isspace_def saturate_u64_def is_digit_of_def digit_val_def)

interpretation lexical_u32_i32: lexical_pair
  tostr_u32 strto_u32 "\<lambda>_. True" tostr_int strto_i32 "\<lambda>i. - (2 ^ 31) \<le> i \<and> i < 2 ^ 31"
  by unfold_locales

text \<open>An 8-bit integer is printed as a character, so it is not read back: 65 is printed as the letter
  A, which is read as 0.\<close>

lemma tostr_u8_letter: "tostr_u8 65 = ''A''"
  by (simp add: tostr_u8_def char_of_def bit_0)

lemma tostr_u8_not_read_back: "strto_u8 (tostr_u8 65) = 0"
  unfolding tostr_u8_letter
  by (simp add: strto_u8_def strtoull_def isspace_def is_digit_of_def digit_val_def saturate_u64_def)

text \<open>The default is used for the empty string only; a text that is no number is 0.\<close>

lemma strto_def_number: "lexical tostr cast valid \<Longrightarrow> valid x \<Longrightarrow> strto_def cast (tostr x) d = x"
  by (simp add: strto_def_def lexical.cast_tostr lexical.printed)

lemma splitString_T_u32: "splitString_T strto_u32 = splitString_u32"
  by (simp add: fun_eq_iff splitString_T_eq splitString_u32_def)

text \<open>\<open>joinString\<close> adds a separator only when the result so far is not empty, so leading empty
  values are lost: with strings for values the round trip needs them to be non-empty.\<close>

lemma joinString_T_loses_empty: "joinString_T strto_string [[], [], ''a''] '','' = ''a''"
  by (simp add: joinString_T_def strto_string_def)

end
