(* ===== verification/Util_Pthread.thy ===== *)
theory Util_Pthread
  imports Util_Thread Util_String
begin

text \<open>
  \<open>source/util/util_thread.cpp\<close> and the monitor inside \<open>LockQueue\<close> (\<open>util_thread.h\<close>), at the grain
  of its pthread calls. A thread enters a method by taking the mutex, and waiting on the condition
  variable gives the mutex up, so the calls of several threads interleave: \<open>lq_exec\<close> is one step
  of one thread, and the state keeps the mutex's holder, the threads asleep on the condition
  variable and where each thread is. What POSIX promises is in the steps: a signal wakes at least
  one sleeper when there is one, a sleeper may also wake by itself or by its time-out, and a woken
  thread goes on only when it has the mutex again.

  \<open>lq_run_fifo\<close>: no interleaving loses, duplicates or reorders an element.
  \<open>lq_run_no_lost_wakeup\<close>: an element never stays in the queue with everybody asleep.
  The class \<open>Thread\<close>, the cached thread id and the deadline of \<open>timedwait\<close> follow.
\<close>

section \<open>The queue as a monitor\<close>

datatype 't lq_call = C_pop_front int | C_push_back 't | C_swap "'t list" | C_wakeup

text \<open>Where a thread is: outside, holding the mutex at the start of a method, asleep, woken but
  without the mutex, or back in \<open>pop_front\<close> after the wait, holding the mutex.\<close>

datatype 't lq_pc = Outside | Inside "'t lq_call" | Asleep | Woken | Back

record ('i, 't) lq_state =
  lq_list :: "'t list"
  lq_holder :: "'i option"
  lq_asleep :: "'i list"
  lq_pc :: "'i \<Rightarrow> 't lq_pc"
  lq_pushed :: "'t list"
  lq_taken :: "'t list"

definition lq_start :: "('i, 't) lq_state" where
  "lq_start = \<lparr>lq_list = [], lq_holder = None, lq_asleep = [], lq_pc = \<lambda>_. Outside, lq_pushed = [], lq_taken = []\<rparr>"

definition lq_at :: "'i \<Rightarrow> 't lq_pc \<Rightarrow> ('i, 't) lq_state \<Rightarrow> ('i, 't) lq_state" where
  "lq_at i p s = s\<lparr>lq_pc := (lq_pc s)(i := p)\<rparr>"

text \<open>The end of a method: the destructor of \<open>ScopeMutex\<close> gives the mutex back.\<close>

definition lq_leave :: "'i \<Rightarrow> ('i, 't) lq_state \<Rightarrow> ('i, 't) lq_state" where
  "lq_leave i s = lq_at i Outside (s\<lparr>lq_holder := None\<rparr>)"

definition lq_wake :: "'i \<Rightarrow> ('i, 't) lq_state \<Rightarrow> ('i, 't) lq_state" where
  "lq_wake j s = lq_at j Woken (s\<lparr>lq_asleep := remove1 j (lq_asleep s)\<rparr>)"

text \<open>\<open>pthread_cond_signal\<close> wakes one of the sleepers, the \<open>k\<close>-th; \<open>pthread_cond_broadcast\<close> all.\<close>

definition lq_signal :: "nat \<Rightarrow> ('i, 't) lq_state \<Rightarrow> ('i, 't) lq_state" where
  "lq_signal k s =
     (case lq_asleep s of [] \<Rightarrow> s | _ \<Rightarrow> lq_wake (lq_asleep s ! (k mod length (lq_asleep s))) s)"

definition lq_broadcast :: "('i, 't) lq_state \<Rightarrow> ('i, 't) lq_state" where
  "lq_broadcast s = fold lq_wake (lq_asleep s) s"

text \<open>\<open>pop_front\<close> after its wait: it looks again, once.\<close>

definition lq_take :: "'i \<Rightarrow> ('i, 't) lq_state \<Rightarrow> ('i, 't) lq_state" where
  "lq_take i s =
     (case lq_list s of
        [] \<Rightarrow> lq_leave i s
      | t # l \<Rightarrow> lq_leave i (s\<lparr>lq_list := l, lq_taken := lq_taken s @ [t]\<rparr>))"

fun lq_body :: "'i \<Rightarrow> nat \<Rightarrow> 't lq_call \<Rightarrow> ('i, 't) lq_state \<Rightarrow> ('i, 't) lq_state" where
  "lq_body i k (C_pop_front ms) s =
     (if lq_list s = [] then
        (if ms = 0 then lq_leave i s
         else lq_at i Asleep (s\<lparr>lq_holder := None, lq_asleep := lq_asleep s @ [i]\<rparr>))
      else lq_take i s)"
| "lq_body i k (C_push_back t) s =
     lq_leave i (lq_signal k (s\<lparr>lq_list := lq_list s @ [t], lq_pushed := lq_pushed s @ [t]\<rparr>))"
| "lq_body i k (C_swap l) s =
     lq_leave i (s\<lparr>lq_list := l, lq_taken := lq_taken s @ lq_list s, lq_pushed := lq_pushed s @ l\<rparr>)"
| "lq_body i k C_wakeup s = lq_leave i (lq_broadcast s)"

datatype ('i, 't) lq_event =
    Enter 'i "'t lq_call"   \<comment> \<open>call a method: lock\<close>
  | Go 'i nat              \<comment> \<open>run it to its end or to its wait; the number says whom a signal wakes\<close>
  | WakeUp 'i               \<comment> \<open>time-out or spurious wake-up\<close>
  | Relock 'i              \<comment> \<open>a woken thread takes the mutex\<close>

text \<open>\<open>None\<close>: the step is not possible in this state.\<close>

fun lq_exec :: "('i, 't) lq_event \<Rightarrow> ('i, 't) lq_state \<Rightarrow> ('i, 't) lq_state option" where
  "lq_exec (Enter i c) s =
     (case (lq_pc s i, lq_holder s) of
        (Outside, None) \<Rightarrow> Some (lq_at i (Inside c) (s\<lparr>lq_holder := Some i\<rparr>))
      | _ \<Rightarrow> None)"
| "lq_exec (Go i k) s =
     (case lq_pc s i of
        Inside c \<Rightarrow> Some (lq_body i k c s)
      | Back \<Rightarrow> Some (lq_take i s)
      | _ \<Rightarrow> None)"
| "lq_exec (WakeUp i) s = (case lq_pc s i of Asleep \<Rightarrow> Some (lq_wake i s) | _ \<Rightarrow> None)"
| "lq_exec (Relock i) s =
     (case (lq_pc s i, lq_holder s) of
        (Woken, None) \<Rightarrow> Some (lq_at i Back (s\<lparr>lq_holder := Some i\<rparr>))
      | _ \<Rightarrow> None)"

fun lq_run :: "('i, 't) lq_event list \<Rightarrow> ('i, 't) lq_state \<Rightarrow> ('i, 't) lq_state option" where
  "lq_run [] s = Some s"
| "lq_run (e # es) s = (case lq_exec e s of None \<Rightarrow> None | Some s' \<Rightarrow> lq_run es s')"

section \<open>The monitor's invariant\<close>

lemma lq_at_simps [simp]:
  "lq_list (lq_at i p s) = lq_list s" "lq_holder (lq_at i p s) = lq_holder s"
  "lq_asleep (lq_at i p s) = lq_asleep s" "lq_pc (lq_at i p s) = (lq_pc s)(i := p)"
  "lq_pushed (lq_at i p s) = lq_pushed s" "lq_taken (lq_at i p s) = lq_taken s"
  by (simp_all add: lq_at_def)

lemma lq_leave_simps [simp]:
  "lq_list (lq_leave i s) = lq_list s" "lq_holder (lq_leave i s) = None"
  "lq_asleep (lq_leave i s) = lq_asleep s" "lq_pc (lq_leave i s) = (lq_pc s)(i := Outside)"
  "lq_pushed (lq_leave i s) = lq_pushed s" "lq_taken (lq_leave i s) = lq_taken s"
  by (simp_all add: lq_leave_def)

lemma lq_wake_simps [simp]:
  "lq_list (lq_wake i s) = lq_list s" "lq_holder (lq_wake i s) = lq_holder s"
  "lq_asleep (lq_wake i s) = remove1 i (lq_asleep s)" "lq_pc (lq_wake i s) = (lq_pc s)(i := Woken)"
  "lq_pushed (lq_wake i s) = lq_pushed s" "lq_taken (lq_wake i s) = lq_taken s"
  by (simp_all add: lq_wake_def)

definition lq_awake :: "('i, 't) lq_state \<Rightarrow> 'i set" where
  "lq_awake s = {i. lq_pc s i = Woken \<or> lq_pc s i = Back}"

fun lq_inside :: "'t lq_pc \<Rightarrow> bool" where
  "lq_inside (Inside c) = True"
| "lq_inside Back = True"
| "lq_inside p = False"

text \<open>The sleepers are those of the condition variable, and a thread is inside exactly when it holds
  the mutex.\<close>

definition lq_ok :: "('i, 't) lq_state \<Rightarrow> bool" where
  "lq_ok s \<longleftrightarrow>
     distinct (lq_asleep s) \<and> (\<forall>i. lq_pc s i = Asleep \<longleftrightarrow> i \<in> set (lq_asleep s)) \<and>
     (\<forall>i. lq_inside (lq_pc s i) \<longleftrightarrow> lq_holder s = Some i) \<and>
     finite (lq_awake s)"

definition lq_fifo :: "('i, 't) lq_state \<Rightarrow> bool" where
  "lq_fifo s \<longleftrightarrow> lq_taken s @ lq_list s = lq_pushed s"

text \<open>While somebody sleeps, every element of the queue has a woken thread on its way to it.\<close>

definition lq_live :: "('i, 't) lq_state \<Rightarrow> bool" where
  "lq_live s \<longleftrightarrow> (lq_asleep s \<noteq> [] \<longrightarrow> length (lq_list s) \<le> card (lq_awake s))"

lemma lq_start_ok: "lq_ok lq_start \<and> lq_fifo lq_start \<and> lq_live lq_start"
  by (simp add: lq_start_def lq_ok_def lq_fifo_def lq_live_def lq_awake_def)

lemma lq_ok_asleep: "lq_ok s \<Longrightarrow> lq_pc s i = Asleep \<longleftrightarrow> i \<in> set (lq_asleep s)"
  by (simp add: lq_ok_def)

lemma lq_ok_distinct: "lq_ok s \<Longrightarrow> distinct (lq_asleep s)"
  by (simp add: lq_ok_def)

lemma lq_ok_inside: "lq_ok s \<Longrightarrow> lq_inside (lq_pc s i) \<longleftrightarrow> lq_holder s = Some i"
  by (simp add: lq_ok_def)

lemma lq_ok_one_holder:
  "lq_ok s \<Longrightarrow> lq_inside (lq_pc s i) \<Longrightarrow> lq_inside (lq_pc s j) \<Longrightarrow> i = j"
  by (simp add: lq_ok_inside)

lemma lq_okI:
  assumes "distinct (lq_asleep s)" and "\<And>i. lq_pc s i = Asleep \<longleftrightarrow> i \<in> set (lq_asleep s)"
    and "\<And>i. lq_inside (lq_pc s i) \<longleftrightarrow> lq_holder s = Some i" and "finite (lq_awake s)"
  shows "lq_ok s"
  using assms by (simp add: lq_ok_def)

text \<open>Where the awake are after each step.\<close>

lemma lq_awake_wake: "lq_awake (lq_wake i s) = insert i (lq_awake s)"
  by (auto simp: lq_awake_def)

lemma lq_awake_leave: "lq_awake (lq_leave i s) = lq_awake s - {i}"
  by (auto simp: lq_awake_def)

lemma lq_awake_update [simp]:
  "lq_awake (s\<lparr>lq_list := l\<rparr>) = lq_awake s" "lq_awake (s\<lparr>lq_taken := l\<rparr>) = lq_awake s"
  "lq_awake (s\<lparr>lq_pushed := l\<rparr>) = lq_awake s" "lq_awake (s\<lparr>lq_holder := h\<rparr>) = lq_awake s"
  "lq_awake (s\<lparr>lq_asleep := w\<rparr>) = lq_awake s"
  by (simp_all add: lq_awake_def)

lemma lq_ok_update [simp]:
  "lq_ok (s\<lparr>lq_list := l\<rparr>) = lq_ok s" "lq_ok (s\<lparr>lq_taken := l\<rparr>) = lq_ok s" "lq_ok (s\<lparr>lq_pushed := l\<rparr>) = lq_ok s"
  by (simp_all add: lq_ok_def)

lemma lq_ok_wake:
  assumes "lq_ok s" and "lq_pc s i = Asleep"
  shows "lq_ok (lq_wake i s)"
proof (rule lq_okI)
  have "lq_holder s \<noteq> Some i" using lq_ok_inside [OF assms(1), of i] assms(2) by simp
  then show "lq_inside (lq_pc (lq_wake i s) j) \<longleftrightarrow> lq_holder (lq_wake i s) = Some j" for j
    using lq_ok_inside [OF assms(1), of j] by auto
qed (use assms in \<open>auto simp: lq_ok_def lq_awake_wake\<close>)

lemma lq_ok_leave:
  assumes "lq_ok s" and "lq_inside (lq_pc s i)"
  shows "lq_ok (lq_leave i s)"
proof (rule lq_okI)
  have h: "lq_holder s = Some i" using lq_ok_inside [OF assms(1), of i] assms(2) by simp
  then show "lq_inside (lq_pc (lq_leave i s) j) \<longleftrightarrow> lq_holder (lq_leave i s) = Some j" for j
    using lq_ok_inside [OF assms(1), of j] by auto
  have "i \<notin> set (lq_asleep s)" using lq_ok_asleep [OF assms(1), of i] assms(2) by auto
  then show "lq_pc (lq_leave i s) j = Asleep \<longleftrightarrow> j \<in> set (lq_asleep (lq_leave i s))" for j
    using lq_ok_asleep [OF assms(1), of j] by auto
qed (use assms in \<open>auto simp: lq_ok_def lq_awake_leave\<close>)

lemma lq_ok_sleep:
  assumes "lq_ok s" and "lq_pc s i = Inside c"
  shows "lq_ok (lq_at i Asleep (s\<lparr>lq_holder := None, lq_asleep := lq_asleep s @ [i]\<rparr>))" (is "lq_ok ?s")
proof (rule lq_okI)
  have h: "lq_holder s = Some i" using lq_ok_inside [OF assms(1), of i] assms(2) by simp
  then show "lq_inside (lq_pc ?s j) \<longleftrightarrow> lq_holder ?s = Some j" for j
    using lq_ok_inside [OF assms(1), of j] by auto
  show "lq_pc ?s j = Asleep \<longleftrightarrow> j \<in> set (lq_asleep ?s)" for j
    using lq_ok_asleep [OF assms(1), of j] by auto
  show "distinct (lq_asleep ?s)"
    using assms lq_ok_asleep [OF assms(1), of i] by (simp add: lq_ok_def)
  have "lq_awake ?s \<subseteq> lq_awake s" by (auto simp: lq_awake_def)
  then show "finite (lq_awake ?s)" using assms(1) by (auto simp: lq_ok_def dest: finite_subset)
qed

lemma lq_signal_sleeper:
  assumes "lq_ok s" and "lq_asleep s \<noteq> []"
  obtains j where "lq_signal k s = lq_wake j s" "lq_pc s j = Asleep"
proof (rule that)
  let ?j = "lq_asleep s ! (k mod length (lq_asleep s))"
  show "lq_signal k s = lq_wake ?j s" using assms(2) by (simp add: lq_signal_def split: list.split)
  have "?j \<in> set (lq_asleep s)" using assms(2) by simp
  with assms(1) show "lq_pc s ?j = Asleep" by (simp add: lq_ok_def)
qed

lemma lq_ok_signal: "lq_ok s \<Longrightarrow> lq_ok (lq_signal k s)"
proof (cases "lq_asleep s = []")
  case False
  assume ok: "lq_ok s"
  from lq_signal_sleeper [OF ok False, of k] show ?thesis by (metis lq_ok_wake ok)
qed (simp add: lq_signal_def)

lemma lq_ok_wakes:
  "lq_ok s \<Longrightarrow> distinct w \<Longrightarrow> \<forall>i \<in> set w. lq_pc s i = Asleep \<Longrightarrow> lq_ok (fold lq_wake w s)"
proof (induction w arbitrary: s)
  case (Cons a w)
  have "\<forall>i \<in> set w. lq_pc (lq_wake a s) i = Asleep" using Cons.prems by auto
  moreover have "lq_ok (lq_wake a s)" using Cons.prems by (simp add: lq_ok_wake)
  ultimately show ?case using Cons by simp
qed simp

lemma lq_ok_broadcast: "lq_ok s \<Longrightarrow> lq_ok (lq_broadcast s)"
  by (auto simp: lq_broadcast_def lq_ok_asleep lq_ok_distinct intro!: lq_ok_wakes)

text \<open>What signals leave alone.\<close>

lemma lq_signal_simps [simp]:
  "lq_list (lq_signal k s) = lq_list s" "lq_holder (lq_signal k s) = lq_holder s"
  "lq_pushed (lq_signal k s) = lq_pushed s" "lq_taken (lq_signal k s) = lq_taken s"
  by (simp_all add: lq_signal_def split: list.split)

lemma lq_wakes_simps:
  "lq_list (fold lq_wake w s) = lq_list s \<and> lq_holder (fold lq_wake w s) = lq_holder s \<and>
   lq_pushed (fold lq_wake w s) = lq_pushed s \<and> lq_taken (fold lq_wake w s) = lq_taken s"
  by (induction w arbitrary: s) auto

lemma lq_wakes_all: "lq_asleep (fold lq_wake w s) = fold remove1 w (lq_asleep s)"
  by (induction w arbitrary: s) auto

lemma fold_remove1_self: "fold remove1 w w = []"
  by (induction w) auto

lemma lq_broadcast_simps [simp]:
  "lq_list (lq_broadcast s) = lq_list s" "lq_holder (lq_broadcast s) = lq_holder s"
  "lq_pushed (lq_broadcast s) = lq_pushed s" "lq_taken (lq_broadcast s) = lq_taken s"
  "lq_asleep (lq_broadcast s) = []"
  by (simp_all add: lq_broadcast_def lq_wakes_simps lq_wakes_all fold_remove1_self)

text \<open>The holder stays inside while it wakes others.\<close>

lemma lq_inside_signal:
  "lq_ok s \<Longrightarrow> lq_inside (lq_pc s i) \<Longrightarrow> lq_inside (lq_pc (lq_signal k s) i)"
  using lq_ok_inside [OF lq_ok_signal [of s k], of i] lq_ok_inside [of s i] by simp

lemma lq_inside_broadcast:
  "lq_ok s \<Longrightarrow> lq_inside (lq_pc s i) \<Longrightarrow> lq_inside (lq_pc (lq_broadcast s) i)"
  using lq_ok_inside [OF lq_ok_broadcast [of s], of i] lq_ok_inside [of s i] by simp

lemma lq_take_ok: "lq_ok s \<Longrightarrow> lq_inside (lq_pc s i) \<Longrightarrow> lq_ok (lq_take i s)"
  by (auto simp: lq_take_def intro!: lq_ok_leave split: list.split)

lemma lq_body_ok: "lq_ok s \<Longrightarrow> lq_pc s i = Inside c \<Longrightarrow> lq_ok (lq_body i k c s)"
  by (cases c) (auto intro!: lq_ok_leave lq_ok_sleep lq_take_ok lq_ok_signal lq_ok_broadcast
      lq_inside_signal lq_inside_broadcast)

lemma lq_ok_acquire:
  assumes "lq_ok s" and "lq_holder s = None" and "lq_inside p" and "lq_pc s i = Woken \<or> p \<noteq> Back"
    and "lq_pc s i \<noteq> Asleep"
  shows "lq_ok (lq_at i p (s\<lparr>lq_holder := Some i\<rparr>))" (is "lq_ok ?s")
proof (rule lq_okI)
  show "lq_inside (lq_pc ?s j) \<longleftrightarrow> lq_holder ?s = Some j" for j
    using lq_ok_inside [OF assms(1), of j] assms(2,3) by auto
  have "p \<noteq> Asleep" using assms(3) by auto
  then show "lq_pc ?s j = Asleep \<longleftrightarrow> j \<in> set (lq_asleep ?s)" for j
    using lq_ok_asleep [OF assms(1), of j] assms(5) by auto
  have "lq_awake ?s \<subseteq> insert i (lq_awake s)" by (auto simp: lq_awake_def)
  then show "finite (lq_awake ?s)" using assms(1) by (auto simp: lq_ok_def dest: finite_subset)
qed (use assms in \<open>simp add: lq_ok_def\<close>)

lemma lq_exec_ok: "lq_ok s \<Longrightarrow> lq_exec e s = Some s' \<Longrightarrow> lq_ok s'"
  by (cases e) (auto split: lq_pc.splits option.splits intro!: lq_body_ok lq_take_ok lq_ok_wake lq_ok_acquire)

section \<open>First in, first out\<close>

lemma lq_fifo_update [simp]: "lq_fifo (lq_leave i s) = lq_fifo s" "lq_fifo (lq_wake i s) = lq_fifo s"
    "lq_fifo (lq_at i p s) = lq_fifo s" "lq_fifo (lq_signal k s) = lq_fifo s" "lq_fifo (lq_broadcast s) = lq_fifo s"
    "lq_fifo (s\<lparr>lq_holder := h\<rparr>) = lq_fifo s" "lq_fifo (s\<lparr>lq_asleep := w\<rparr>) = lq_fifo s"
  by (simp_all add: lq_fifo_def)

lemma lq_take_fifo: "lq_fifo s \<Longrightarrow> lq_fifo (lq_take i s)"
  by (auto simp: lq_take_def lq_fifo_def split: list.split)

lemma lq_body_fifo: "lq_fifo s \<Longrightarrow> lq_fifo (lq_body i k c s)"
proof (cases c)
  case (C_pop_front ms)
  moreover assume "lq_fifo s"
  ultimately show ?thesis using lq_take_fifo [of s] by (auto simp: lq_fifo_def)
qed (auto simp: lq_fifo_def)

lemma lq_exec_fifo: "lq_fifo s \<Longrightarrow> lq_exec e s = Some s' \<Longrightarrow> lq_fifo s'"
  by (cases e) (auto split: lq_pc.splits option.splits intro!: lq_body_fifo lq_take_fifo)

text \<open>Each step of the monitor does to the list what one of the atomic methods of \<open>Util_Thread\<close> does,
  or leaves it alone: the clients may take a method for one step.\<close>

definition lq_atomic :: "'t list \<Rightarrow> 't list \<Rightarrow> bool" where
  "lq_atomic l l' \<longleftrightarrow> l' = l \<or> (\<exists>t. l' = lq_push_back t l) \<or> (\<exists>ms. l' = snd (lq_pop_front ms [] l)) \<or>
     (\<exists>x. l' = snd (lq_swap x l))"

lemma lq_take_list: "lq_list (lq_take i s) = snd (lq_pop_front 0 [] (lq_list s))"
  by (cases "lq_list s") (simp_all add: lq_take_def lq_pop_front_def)

lemma lq_body_atomic: "lq_atomic (lq_list s) (lq_list (lq_body i k c s))"
  by (cases c) (auto simp: lq_atomic_def lq_push_back_def lq_swap_def lq_take_list)

lemma lq_exec_atomic: "lq_exec e s = Some s' \<Longrightarrow> lq_atomic (lq_list s) (lq_list s')"
  using lq_body_atomic [of s] lq_take_list [of _ s]
  by (cases e) (auto simp: lq_atomic_def split: lq_pc.splits option.splits)

section \<open>No wake-up is lost\<close>

text \<open>A swap that puts elements in signals nobody; the callers of \<open>swap\<close> pass an empty list.\<close>

fun lq_empties :: "('i, 't) lq_event \<Rightarrow> bool" where
  "lq_empties (Enter i (C_swap l)) = (l = [])"
| "lq_empties e = True"

definition lq_swaps_empty :: "('i, 't) lq_state \<Rightarrow> bool" where
  "lq_swaps_empty s \<longleftrightarrow> (\<forall>i l. lq_pc s i = Inside (C_swap l) \<longrightarrow> l = [])"

lemma lq_live_leave_inside:
  assumes "lq_live s" and "lq_pc s i = Inside c"
  shows "lq_live (lq_leave i s)"
proof -
  have "i \<notin> lq_awake s" using assms(2) by (simp add: lq_awake_def)
  with assms(1) show ?thesis by (simp add: lq_live_def lq_awake_leave)
qed

lemma lq_live_take:
  assumes ok: "lq_ok s" and live: "lq_live s" and inside: "lq_inside (lq_pc s i)"
  shows "lq_live (lq_take i s)"
proof (cases "lq_list s")
  case Nil
  then show ?thesis by (simp add: lq_take_def lq_live_def)
next
  case (Cons t l)
  have "finite (lq_awake s)" using ok by (simp add: lq_ok_def)
  then have "card (lq_awake s) \<le> Suc (card (lq_awake s - {i}))" by (simp add: card_Diff_singleton_if) linarith
  with live Cons show ?thesis by (auto simp: lq_take_def lq_live_def lq_awake_leave)
qed

lemma card_awake_wake:
  assumes "lq_ok s" and "lq_pc s j = Asleep"
  shows "card (lq_awake (lq_wake j s)) = Suc (card (lq_awake s))"
proof -
  have "j \<notin> lq_awake s" using assms(2) by (simp add: lq_awake_def)
  moreover have "finite (lq_awake s)" using assms(1) by (simp add: lq_ok_def)
  ultimately show ?thesis by (simp add: lq_awake_wake)
qed

lemma lq_live_wake: "lq_ok s \<Longrightarrow> lq_live s \<Longrightarrow> lq_pc s j = Asleep \<Longrightarrow> lq_live (lq_wake j s)"
  by (cases "lq_asleep s = []") (auto simp: lq_live_def card_awake_wake lq_ok_asleep)

lemma lq_live_push:
  assumes ok: "lq_ok s" and live: "lq_live s" and i: "lq_pc s i = Inside c"
  shows "lq_live (lq_body i k (C_push_back t) s)"
proof (cases "lq_asleep s = []")
  case True
  then show ?thesis by (simp add: lq_live_def lq_signal_def)
next
  case False
  let ?s = "s\<lparr>lq_list := lq_list s @ [t], lq_pushed := lq_pushed s @ [t]\<rparr>"
  have ok': "lq_ok ?s" using ok by simp
  obtain j where j: "lq_signal k ?s = lq_wake j ?s" "lq_pc ?s j = Asleep"
    by (rule lq_signal_sleeper [OF ok', of k]) (use False in auto)
  have "j \<noteq> i" and "i \<notin> lq_awake ?s" using i j by (auto simp: lq_awake_def)
  then have "i \<notin> lq_awake (lq_wake j ?s)" by (auto simp: lq_awake_wake)
  moreover have "card (lq_awake (lq_wake j ?s)) = Suc (card (lq_awake s))"
    using card_awake_wake [OF ok' j(2)] by simp
  ultimately show ?thesis
    using live False by (simp add: lq_live_def lq_awake_leave j(1))
qed

lemma lq_body_live:
  assumes "lq_ok s" and "lq_live s" and "lq_pc s i = Inside c" and "lq_swaps_empty s"
  shows "lq_live (lq_body i k c s)"
proof (cases c)
  case (C_pop_front ms)
  show ?thesis
  proof (cases "lq_list s = [] \<and> ms \<noteq> 0")
    case True
    then show ?thesis by (simp add: C_pop_front lq_live_def)
  next
    case False
    then show ?thesis
      using assms lq_live_leave_inside [OF assms(2,3)] lq_live_take [OF assms(1,2), of i] by (auto simp: C_pop_front)
  qed
next
  case (C_push_back t)
  with lq_live_push [OF assms(1-3)] show ?thesis by simp
next
  case (C_swap l)
  then have "l = []" using assms(3,4) unfolding lq_swaps_empty_def by blast
  with C_swap show ?thesis by (simp add: lq_live_def)
next
  case C_wakeup
  then show ?thesis by (simp add: lq_live_def)
qed

lemma lq_exec_live:
  assumes "lq_ok s" and "lq_live s" and "lq_swaps_empty s" and "lq_exec e s = Some s'"
  shows "lq_live s'"
proof (cases e)
  case (Enter i c)
  have "lq_awake (lq_at i (Inside c) (s\<lparr>lq_holder := Some i\<rparr>)) = lq_awake s" if "lq_pc s i = Outside"
    using that by (auto simp: lq_awake_def)
  with Enter assms show ?thesis by (auto simp: lq_live_def split: lq_pc.splits option.splits)
next
  case (Go i k)
  with assms show ?thesis by (auto intro!: lq_body_live lq_live_take split: lq_pc.splits)
next
  case (WakeUp i)
  with assms show ?thesis by (auto intro!: lq_live_wake split: lq_pc.splits)
next
  case (Relock i)
  have "lq_awake (lq_at i Back (s\<lparr>lq_holder := Some i\<rparr>)) = lq_awake s" if "lq_pc s i = Woken"
    using that by (auto simp: lq_awake_def)
  with Relock assms show ?thesis by (auto simp: lq_live_def split: lq_pc.splits option.splits)
qed

lemma lq_exec_swaps:
  assumes "lq_swaps_empty s" and "lq_empties e" and "lq_exec e s = Some s'" and ok: "lq_ok s"
  shows "lq_swaps_empty s'"
proof -
  have call: "lq_pc s' i = Inside c \<Longrightarrow> lq_pc s i = Inside c \<or> e = Enter i c" for i c
  proof (cases e)
    case (Go j k)
    have took: "lq_pc (lq_take j s) i = Inside c \<Longrightarrow> lq_pc s i = Inside c"
      by (auto simp: lq_take_def split: list.splits if_splits)
    have woken: "lq_pc (fold lq_wake w u) i = Inside c \<Longrightarrow> lq_pc u i = Inside c" for w u
    proof (induction w arbitrary: u)
      case (Cons a w)
      have "lq_pc (lq_wake a u) i = Inside c"
        by (rule Cons.IH) (use Cons.prems in \<open>simp only: fold_simps\<close>)
      then show ?case by (auto split: if_splits)
    qed simp
    have signal: "lq_pc (lq_signal k u) i = Inside c \<Longrightarrow> lq_pc u i = Inside c" for u
      by (auto simp: lq_signal_def split: list.splits if_splits)
    have body: "lq_pc (lq_body j k c' s) i = Inside c \<Longrightarrow> lq_pc s i = Inside c" for c'
      by (cases c') (auto split: if_splits dest!: signal woken took simp: lq_broadcast_def)
    assume "lq_pc s' i = Inside c"
    with Go assms(3) show ?thesis by (auto split: lq_pc.splits dest: body took)
  qed (use assms(3) in \<open>auto split: lq_pc.splits option.splits if_splits\<close>)
  show ?thesis
    using call assms(1,2) unfolding lq_swaps_empty_def by (metis lq_empties.simps(1))
qed

section \<open>Runs\<close>

lemma lq_run_fifo: "lq_fifo s \<Longrightarrow> lq_run es s = Some s' \<Longrightarrow> lq_fifo s'"
  by (induction es arbitrary: s) (auto split: option.splits dest: lq_exec_fifo)

lemma lq_run_ok: "lq_ok s \<Longrightarrow> lq_run es s = Some s' \<Longrightarrow> lq_ok s'"
  by (induction es arbitrary: s) (auto split: option.splits dest: lq_exec_ok)

lemma lq_run_live:
  "lq_ok s \<Longrightarrow> lq_live s \<Longrightarrow> lq_swaps_empty s \<Longrightarrow> list_all lq_empties es \<Longrightarrow> lq_run es s = Some s' \<Longrightarrow> lq_live s'"
proof (induction es arbitrary: s)
  case (Cons e es)
  then obtain s1 where s1: "lq_exec e s = Some s1" "lq_run es s1 = Some s'" by (auto split: option.splits)
  have "lq_ok s1" "lq_live s1" "lq_swaps_empty s1"
    using Cons.prems s1 lq_exec_ok lq_exec_live lq_exec_swaps by (metis list.pred_inject(2))+
  with Cons s1 show ?case by simp
qed simp

lemma lq_swaps_start: "lq_swaps_empty lq_start"
  by (simp add: lq_swaps_empty_def lq_start_def)

text \<open>Every interleaving from the empty queue: what was taken, followed by what is left, is what was
  put in; and if anybody sleeps, each element left has a woken thread coming for it.\<close>

lemma lq_run_queue:
  assumes "lq_run es lq_start = Some s"
  shows "lq_taken s @ lq_list s = lq_pushed s"
    and "lq_inside (lq_pc s i) \<Longrightarrow> lq_inside (lq_pc s j) \<Longrightarrow> i = j"
    and "list_all lq_empties es \<Longrightarrow> lq_asleep s \<noteq> [] \<Longrightarrow> length (lq_list s) \<le> card (lq_awake s)"
proof -
  show "lq_taken s @ lq_list s = lq_pushed s"
    using lq_run_fifo [OF _ assms] lq_start_ok unfolding lq_fifo_def by blast
  show "lq_inside (lq_pc s i) \<Longrightarrow> lq_inside (lq_pc s j) \<Longrightarrow> i = j"
    using lq_ok_one_holder [OF lq_run_ok [OF conjunct1 [OF lq_start_ok] assms]] by simp
  assume "list_all lq_empties es" and "lq_asleep s \<noteq> []"
  moreover from this(1) have "lq_live s"
    using lq_run_live [OF _ _ lq_swaps_start _ assms] lq_start_ok by blast
  ultimately show "length (lq_list s) \<le> card (lq_awake s)" by (simp add: lq_live_def)
qed

text \<open>A woken thread can find nothing: another one was faster, and \<open>pop_front\<close> looks only once more.\<close>

lemma lq_pop_can_miss:
  "map_option (\<lambda>s. (lq_taken s, lq_pc s 1, lq_list s)) (lq_run
     [Enter (1 :: nat) (C_pop_front (- 1)), Go 1 0, Enter 2 (C_push_back x), Go 2 0,
      Enter 3 (C_pop_front 0), Go 3 0, Relock 1, Go 1 0] lq_start) = Some ([x], Outside, [])"
  by (simp add: lq_start_def lq_at_def lq_leave_def lq_signal_def lq_wake_def lq_take_def)

section \<open>The deadline of a timed wait\<close>

text \<open>\<open>Notifier::timedwait\<close>: the time to wait in milliseconds and the clock's milliseconds make the
  \<open>timespec\<close>, in 64 bits.\<close>

record timespec =
  tv_sec :: u64
  tv_nsec :: u64

definition timedwait_deadline :: "u64 \<Rightarrow> u64 \<Rightarrow> timespec" where
  "timedwait_deadline ms now =
     (let ms1 = ms + now in \<lparr>tv_sec = ms1 div 1000, tv_nsec = (ms1 mod 1000) * 1000 * 1000\<rparr>)"

lemma timedwait_nsec: "unat (tv_nsec (timedwait_deadline ms now)) = unat (ms + now) mod 1000 * 1000000"
proof -
  have r: "unat ((ms + now) mod 1000) = unat (ms + now) mod 1000" by (simp add: unat_mod)
  have "unat (ms + now) mod 1000 < 1000" by simp
  then have "unat ((ms + now) mod 1000) * 1000000 < 2 ^ LENGTH(64)" unfolding r by simp
  then have "unat ((ms + now) mod 1000 * 1000000) = unat ((ms + now) mod 1000) * 1000000"
    by (simp add: unat_word_ariths)
  then show ?thesis unfolding timedwait_deadline_def Let_def by (simp add: r mult.assoc)
qed

text \<open>The nanoseconds are in their range, and the deadline is \<open>ms\<close> from now.\<close>

lemma timedwait_deadline_ok:
  assumes "unat ms + unat now < 2 ^ 64"
  shows "unat (tv_nsec (timedwait_deadline ms now)) < 10 ^ 9"
    and "unat (tv_sec (timedwait_deadline ms now)) * 1000 + unat (tv_nsec (timedwait_deadline ms now)) div 10 ^ 6 =
      unat now + unat ms"
proof -
  have "unat (ms + now) mod 1000 < 1000" by simp
  then show "unat (tv_nsec (timedwait_deadline ms now)) < 10 ^ 9" by (simp add: timedwait_nsec)
  have s: "unat (tv_sec (timedwait_deadline ms now)) = unat (ms + now) div 1000"
    by (simp add: timedwait_deadline_def Let_def unat_div)
  have "unat (ms + now) = unat ms + unat now" using assms by (simp add: unat_word_ariths)
  with div_mult_mod_eq [of "unat (ms + now)" 1000]
  show "unat (tv_sec (timedwait_deadline ms now)) * 1000 + unat (tv_nsec (timedwait_deadline ms now)) div 10 ^ 6 =
      unat now + unat ms"
    by (simp add: s timedwait_nsec)
qed

section \<open>Thread\<close>

text \<open>A pthread is created joinable; its first action in \<open>threadEntry\<close> detaches it. POSIX leaves
  joining a detached thread undefined.\<close>

datatype pthread = NotCreated | Joinable | Detached

record 'f Thread =
  th_m_bRunning :: bool
  th_m_entry :: "'f option"
  th_pthread :: pthread
  th_calls :: "'f list"

definition new_Thread :: "'f Thread" where
  "new_Thread = \<lparr>th_m_bRunning = False, th_m_entry = None, th_pthread = NotCreated, th_calls = []\<rparr>"

definition Thread_start :: "'f \<Rightarrow> 'f Thread \<Rightarrow> 'f Thread" where
  "Thread_start entry t =
     (if th_m_bRunning t then t
      else t\<lparr>th_m_entry := Some entry, th_m_bRunning := True, th_pthread := Joinable\<rparr>)"

text \<open>The new thread's own steps; \<open>th_calls\<close> are the calls of \<open>m_entry\<close>.\<close>

definition threadEntry :: "'f Thread \<Rightarrow> 'f Thread" where
  "threadEntry t =
     (let t1 = t\<lparr>th_pthread := Detached\<rparr> in
      case th_m_entry t1 of None \<Rightarrow> t1 | Some f \<Rightarrow> t1\<lparr>th_calls := th_calls t1 @ [f]\<rparr>)"

datatype join_result = JoinSkipped | JoinWaits | JoinUndefined

definition Thread_join :: "'f Thread \<Rightarrow> join_result" where
  "Thread_join t =
     (if \<not> th_m_bRunning t then JoinSkipped
      else case th_pthread t of Joinable \<Rightarrow> JoinWaits | _ \<Rightarrow> JoinUndefined)"

text \<open>A thread that has begun to run cannot be joined any more, so \<open>join\<close> does not wait for it.\<close>

lemma Thread_join_detached: "Thread_join (threadEntry (Thread_start f new_Thread)) = JoinUndefined"
  by (simp add: Thread_join_def threadEntry_def Thread_start_def new_Thread_def)

text \<open>\<open>m_bRunning\<close> is never reset: a thread object starts one thread in its life.\<close>

lemma Thread_starts_once: "Thread_start g (threadEntry (Thread_start f t)) = threadEntry (Thread_start f t)"
  by (simp add: Thread_start_def threadEntry_def Let_def split: option.split)

lemma Thread_runs_entry: "th_calls (threadEntry (Thread_start f new_Thread)) = [f]"
  by (simp add: threadEntry_def Thread_start_def new_Thread_def)

section \<open>The thread id\<close>

text \<open>Both functions fill the same thread-local buffer, once, with different formats:
  \<open>%5d\<close> pads to five columns.\<close>

record tid_local =
  t_tid :: u32
  t_tidString :: string

definition pad5 :: "string \<Rightarrow> string" where
  "pad5 s = replicate (5 - length s) (CHR '' '') @ s"

definition getTid :: "u32 \<Rightarrow> tid_local \<Rightarrow> u32 \<times> tid_local" where
  "getTid k t =
     (let t1 = (if t_tid t = 0 then \<lparr>t_tid = k, t_tidString = pad5 (tostr_int (sint k))\<rparr> else t)
      in (t_tid t1, t1))"

definition getThreadIdStr :: "u32 \<Rightarrow> tid_local \<Rightarrow> string \<times> tid_local" where
  "getThreadIdStr k t =
     (let t1 = (if t_tid t = 0 then \<lparr>t_tid = k, t_tidString = tostr_int (sint k)\<rparr> else t)
      in (t_tidString t1, t1))"

lemma getTid_stable: "getTid k t = (tid, t') \<Longrightarrow> k \<noteq> 0 \<Longrightarrow> getTid k' t' = (tid, t')"
  by (auto simp: getTid_def Let_def split: if_splits)

lemma getThreadIdStr_stable:
  "getThreadIdStr k t = (s, t') \<Longrightarrow> k \<noteq> 0 \<Longrightarrow> getThreadIdStr k' t' = (s, t') \<and> snd (getTid k' t') = t'"
  by (auto simp: getThreadIdStr_def getTid_def Let_def split: if_splits)

text \<open>What a log entry shows for the thread depends on which of the two it called first.\<close>

lemma thread_id_text:
  assumes "k \<noteq> 0" and "t_tid t = 0"
  shows "fst (getThreadIdStr k t) = tostr_int (sint k)"
    and "fst (getThreadIdStr k (snd (getTid k t))) = pad5 (tostr_int (sint k))"
  using assms by (simp_all add: getThreadIdStr_def getTid_def Let_def)

end
