(* ===== verification/Util_Singleton.thy ===== *)
theory Util_Singleton
  imports Storm_Prelude
begin

text \<open>
  \<open>source/util/util_singleton.h\<close>: the three singletons, over objects that are numbers in the order of
  their construction. \<open>Singleton\<close> and \<open>SafeSingleton\<close> are step functions of several threads: one
  tests the pointer without a lock, the other goes through \<open>pthread_once\<close>. \<open>ThreadSingleton\<close> keeps
  one object per thread under a key.

  \<open>safe_run_ok\<close>: under every interleaving \<open>SafeSingleton\<close> constructs at most one object and every
  call returns it. \<open>single_run_one_thread\<close>: \<open>Singleton\<close> does so for one thread;
  \<open>singleton_race\<close> is what two threads can do to it. \<open>ts_run_ok\<close>: the objects of
  \<open>ThreadSingleton\<close> that are alive are exactly those the threads hold, one each.
\<close>

section \<open>Singleton\<close>

datatype single_pc = SiOut | SiNull | SiSet

record 'i single =
  si_instance :: "nat option"
  si_built :: nat
  si_pc :: "'i \<Rightarrow> single_pc"
  si_got :: "('i \<times> nat option) list"

definition single_start :: "'i single" where
  "single_start = \<lparr>si_instance = None, si_built = 0, si_pc = \<lambda>_. SiOut, si_got = []\<rparr>"

text \<open>Test \<open>m_instance\<close>; assign \<open>new T()\<close>; return \<open>m_instance\<close>, read again.\<close>

datatype 'i single_event = SiTest 'i | SiNew 'i | SiReturn 'i

fun single_exec :: "'i single_event \<Rightarrow> 'i single \<Rightarrow> 'i single option" where
  "single_exec (SiTest i) s =
     (case si_pc s i of
        SiOut \<Rightarrow> Some (s\<lparr>si_pc := (si_pc s)(i := if si_instance s = None then SiNull else SiSet)\<rparr>)
      | _ \<Rightarrow> None)"
| "single_exec (SiNew i) s =
     (case si_pc s i of
        SiNull \<Rightarrow> Some (s\<lparr>si_instance := Some (si_built s), si_built := Suc (si_built s),
                       si_pc := (si_pc s)(i := SiSet)\<rparr>)
      | _ \<Rightarrow> None)"
| "single_exec (SiReturn i) s =
     (case si_pc s i of
        SiSet \<Rightarrow> Some (s\<lparr>si_pc := (si_pc s)(i := SiOut), si_got := si_got s @ [(i, si_instance s)]\<rparr>)
      | _ \<Rightarrow> None)"

fun single_run :: "'i single_event list \<Rightarrow> 'i single \<Rightarrow> 'i single option" where
  "single_run [] s = Some s"
| "single_run (e # es) s = (case single_exec e s of None \<Rightarrow> None | Some s' \<Rightarrow> single_run es s')"

fun single_thread :: "'i single_event \<Rightarrow> 'i" where
  "single_thread (SiTest i) = i"
| "single_thread (SiNew i) = i"
| "single_thread (SiReturn i) = i"

text \<open>Used by one thread only, it is constructed once.\<close>

definition single_ok :: "'i \<Rightarrow> 'i single \<Rightarrow> bool" where
  "single_ok i s \<longleftrightarrow>
     (case si_instance s of None \<Rightarrow> si_built s = 0 \<and> si_pc s i \<noteq> SiSet \<and> si_got s = []
      | Some p \<Rightarrow> p = 0 \<and> si_built s = 1 \<and> si_pc s i \<noteq> SiNull \<and> (\<forall>(j, r) \<in> set (si_got s). r = Some 0))"

lemma single_exec_one_thread:
  "single_ok i s \<Longrightarrow> single_thread e = i \<Longrightarrow> single_exec e s = Some s' \<Longrightarrow> single_ok i s'"
  by (cases e) (auto simp: single_ok_def split: option.splits single_pc.splits if_splits)

lemma single_run_one_thread:
  assumes "single_run es single_start = Some s" and "\<forall>e \<in> set es. single_thread e = i"
  shows "si_built s \<le> 1" and "(j, r) \<in> set (si_got s) \<Longrightarrow> r = Some 0"
proof -
  have "single_ok i u \<Longrightarrow> \<forall>e \<in> set es. single_thread e = i \<Longrightarrow> single_run es u = Some s \<Longrightarrow> single_ok i s" for u
    by (induction es arbitrary: u) (auto split: option.splits dest: single_exec_one_thread)
  moreover have "single_ok i single_start" by (simp add: single_ok_def single_start_def)
  ultimately have "single_ok i s" using assms by blast
  then show "si_built s \<le> 1" and "(j, r) \<in> set (si_got s) \<Longrightarrow> r = Some 0"
    by (auto simp: single_ok_def split: option.splits)
qed

text \<open>Two threads that both find it missing construct two, and get different ones.\<close>

lemma singleton_race:
  "map_option (\<lambda>s. (si_built s, si_got s)) (single_run
     [SiTest (1 :: nat), SiTest 2, SiNew 1, SiReturn 1, SiNew 2, SiReturn 2] single_start) =
   Some (2, [(1, Some 0), (2, Some 1)])"
  by (simp add: single_start_def)

section \<open>SafeSingleton\<close>

text \<open>\<open>pthread_once\<close>: the first caller runs \<open>init\<close>, the others wait until it has returned.\<close>

datatype 'i once = OnceInit | OnceRunning 'i | OnceDone

datatype safe_pc = SfOut | SfInit | SfWait | SfDone

record 'i safe =
  sf_inited :: "'i once"
  sf_instance :: "nat option"
  sf_built :: nat
  sf_pc :: "'i \<Rightarrow> safe_pc"
  sf_got :: "('i \<times> nat option) list"

definition safe_start :: "'i safe" where
  "safe_start = \<lparr>sf_inited = OnceInit, sf_instance = None, sf_built = 0, sf_pc = \<lambda>_. SfOut, sf_got = []\<rparr>"

datatype 'i safe_event = SfCall 'i | SfRunInit 'i | SfResume 'i | SfReturn 'i

fun safe_exec :: "'i safe_event \<Rightarrow> 'i safe \<Rightarrow> 'i safe option" where
  "safe_exec (SfCall i) s =
     (case sf_pc s i of
        SfOut \<Rightarrow>
          Some (case sf_inited s of
                  OnceInit \<Rightarrow> s\<lparr>sf_inited := OnceRunning i, sf_pc := (sf_pc s)(i := SfInit)\<rparr>
                | OnceRunning j \<Rightarrow> s\<lparr>sf_pc := (sf_pc s)(i := SfWait)\<rparr>
                | OnceDone \<Rightarrow> s\<lparr>sf_pc := (sf_pc s)(i := SfDone)\<rparr>)
      | _ \<Rightarrow> None)"
| "safe_exec (SfRunInit i) s =
     (case sf_pc s i of
        SfInit \<Rightarrow> Some (s\<lparr>sf_instance := Some (sf_built s), sf_built := Suc (sf_built s), sf_inited := OnceDone,
                       sf_pc := (sf_pc s)(i := SfDone)\<rparr>)
      | _ \<Rightarrow> None)"
| "safe_exec (SfResume i) s =
     (case (sf_pc s i, sf_inited s) of
        (SfWait, OnceDone) \<Rightarrow> Some (s\<lparr>sf_pc := (sf_pc s)(i := SfDone)\<rparr>)
      | _ \<Rightarrow> None)"
| "safe_exec (SfReturn i) s =
     (case sf_pc s i of
        SfDone \<Rightarrow> Some (s\<lparr>sf_pc := (sf_pc s)(i := SfOut), sf_got := sf_got s @ [(i, sf_instance s)]\<rparr>)
      | _ \<Rightarrow> None)"

fun safe_run :: "'i safe_event list \<Rightarrow> 'i safe \<Rightarrow> 'i safe option" where
  "safe_run [] s = Some s"
| "safe_run (e # es) s = (case safe_exec e s of None \<Rightarrow> None | Some s' \<Rightarrow> safe_run es s')"

definition safe_ok :: "'i safe \<Rightarrow> bool" where
  "safe_ok s \<longleftrightarrow>
     (\<forall>i. sf_pc s i = SfInit \<longleftrightarrow> sf_inited s = OnceRunning i) \<and>
     (if sf_inited s = OnceDone then sf_instance s = Some 0 \<and> sf_built s = 1
      else sf_built s = 0 \<and> (\<forall>i. sf_pc s i \<noteq> SfDone)) \<and>
     (\<forall>(i, r) \<in> set (sf_got s). r = Some 0)"

lemma safe_start_ok: "safe_ok safe_start"
  by (simp add: safe_ok_def safe_start_def)

lemma safe_exec_ok:
  assumes "safe_ok s" and "safe_exec e s = Some s'"
  shows "safe_ok s'"
proof (cases e)
  case (SfCall i)
  with assms have i: "sf_pc s i = SfOut" by (auto split: safe_pc.splits)
  with assms(1) have "sf_inited s \<noteq> OnceRunning i" unfolding safe_ok_def by (metis safe_pc.distinct(1))
  with SfCall assms i show ?thesis by (auto simp: safe_ok_def split: once.splits if_splits)
next
  case (SfRunInit i)
  with assms have i: "sf_pc s i = SfInit" by (auto split: safe_pc.splits)
  then have "sf_inited s = OnceRunning i" using assms(1) by (simp add: safe_ok_def)
  with SfRunInit assms i show ?thesis by (auto simp: safe_ok_def split: if_splits)
next
  case (SfResume i)
  with assms show ?thesis by (auto simp: safe_ok_def split: safe_pc.splits once.splits if_splits)
next
  case (SfReturn i)
  then have i: "sf_pc s i = SfDone" using assms(2) by (auto split: safe_pc.splits)
  then have "sf_inited s = OnceDone" using assms(1) by (auto simp: safe_ok_def split: if_splits)
  with SfReturn assms i show ?thesis by (auto simp: safe_ok_def split: if_splits)
qed

lemma safe_run_ok:
  assumes "safe_run es safe_start = Some s"
  shows "sf_built s \<le> 1 \<and> (\<forall>(i, r) \<in> set (sf_got s). r = Some 0)"
proof -
  have "safe_ok u \<Longrightarrow> safe_run es u = Some s \<Longrightarrow> safe_ok s" for u
    by (induction es arbitrary: u) (auto split: option.splits dest: safe_exec_ok)
  then have "safe_ok s" using assms safe_start_ok by blast
  then show ?thesis by (auto simp: safe_ok_def split: if_splits)
qed

section \<open>ThreadSingleton\<close>

text \<open>The value of the key for each thread (\<open>None\<close> for \<open>NULL\<close>), the objects alive and the number of
  the next one. \<open>ts_inited\<close>: whether \<open>pthread_once\<close> has created the key.\<close>

record 'i thread_single =
  ts_inited :: bool
  ts_value :: "'i \<Rightarrow> nat option"
  ts_live :: "nat list"
  ts_next :: nat

definition ts_start :: "'i thread_single" where
  "ts_start = \<lparr>ts_inited = False, ts_value = \<lambda>_. None, ts_live = [], ts_next = 0\<rparr>"

definition ts_instance :: "'i \<Rightarrow> 'i thread_single \<Rightarrow> nat \<times> 'i thread_single" where
  "ts_instance i s =
     (let s1 = s\<lparr>ts_inited := True\<rparr> in
      case ts_value s1 i of
        Some t \<Rightarrow> (t, s1)
      | None \<Rightarrow>
          (ts_next s1, s1\<lparr>ts_value := (ts_value s1)(i := Some (ts_next s1)), ts_live := ts_next s1 # ts_live s1,
             ts_next := Suc (ts_next s1)\<rparr>))"

text \<open>\<open>delete instance(); set(NULL)\<close>: an object is made only to be deleted when there is none.\<close>

definition ts_del :: "'i \<Rightarrow> 'i thread_single \<Rightarrow> 'i thread_single" where
  "ts_del i s =
     (case ts_instance i s of
        (t, s1) \<Rightarrow> s1\<lparr>ts_live := remove1 t (ts_live s1), ts_value := (ts_value s1)(i := None)\<rparr>)"

text \<open>The end of a thread: the key's destructor, for a value that is not \<open>NULL\<close>.\<close>

definition ts_exit :: "'i \<Rightarrow> 'i thread_single \<Rightarrow> 'i thread_single" where
  "ts_exit i s =
     (case ts_value s i of
        None \<Rightarrow> s
      | Some t \<Rightarrow> s\<lparr>ts_live := remove1 t (ts_live s), ts_value := (ts_value s)(i := None)\<rparr>)"

datatype 'i ts_op = TsInstance 'i | TsDel 'i | TsExit 'i

fun ts_step :: "'i ts_op \<Rightarrow> 'i thread_single \<Rightarrow> 'i thread_single" where
  "ts_step (TsInstance i) s = snd (ts_instance i s)"
| "ts_step (TsDel i) s = ts_del i s"
| "ts_step (TsExit i) s = ts_exit i s"

definition ts_ok :: "'i thread_single \<Rightarrow> bool" where
  "ts_ok s \<longleftrightarrow>
     distinct (ts_live s) \<and> (\<forall>t \<in> set (ts_live s). t < ts_next s) \<and>
     (\<forall>t. t \<in> set (ts_live s) \<longleftrightarrow> (\<exists>i. ts_value s i = Some t)) \<and>
     (\<forall>i j t. ts_value s i = Some t \<longrightarrow> ts_value s j = Some t \<longrightarrow> i = j)"

lemma ts_instance_ok:
  assumes "ts_ok s"
  shows "ts_ok (snd (ts_instance i s))"
proof (cases "ts_value s i")
  case None
  have n: "ts_value s j \<noteq> Some (ts_next s)" for j using assms by (auto simp: ts_ok_def)
  have "(\<exists>j. ((ts_value s)(i := Some (ts_next s))) j = Some t) \<longleftrightarrow> t = ts_next s \<or> (\<exists>j. ts_value s j = Some t)" for t
    using None by (metis fun_upd_apply option.distinct(1) option.inject)
  with assms None n show ?thesis
    by (auto simp: ts_ok_def ts_instance_def Let_def less_Suc_eq)
qed (use assms in \<open>simp add: ts_ok_def ts_instance_def\<close>)

lemma ts_drop_ok:
  assumes "ts_ok s" and "ts_value s i = Some t"
  shows "ts_ok (s\<lparr>ts_live := remove1 t (ts_live s), ts_value := (ts_value s)(i := None)\<rparr>)"
proof -
  have "(\<exists>j. ((ts_value s)(i := None)) j = Some u) \<longleftrightarrow> u \<noteq> t \<and> (\<exists>j. ts_value s j = Some u)" for u
    using assms unfolding ts_ok_def by (metis fun_upd_apply option.distinct(1) option.inject)
  with assms(1) show ?thesis by (auto simp: ts_ok_def)
qed

lemma ts_instance_value: "ts_value (snd (ts_instance i s)) i = Some (fst (ts_instance i s))"
  by (simp add: ts_instance_def Let_def split: option.split)

lemma ts_step_ok: "ts_ok s \<Longrightarrow> ts_ok (ts_step op1 s)"
proof (cases op1)
  case (TsDel i)
  assume "ts_ok s"
  then show ?thesis
    using ts_drop_ok [OF ts_instance_ok ts_instance_value, of s i] by (simp add: TsDel ts_del_def split_beta)
next
  case (TsExit i)
  assume "ts_ok s"
  then show ?thesis by (simp add: TsExit ts_exit_def ts_drop_ok split: option.split)
qed (simp add: ts_instance_ok)

text \<open>Over any sequence of operations: an object is alive exactly while a thread holds it, and no two
  threads hold the same one; asking twice gives the same.\<close>

lemma ts_run_ok: "ts_ok (fold ts_step ops ts_start)"
proof -
  have "ts_ok s \<Longrightarrow> ts_ok (fold ts_step ops s)" for s
    by (induction ops arbitrary: s) (auto simp: ts_step_ok)
  moreover have "ts_ok ts_start" by (simp add: ts_ok_def ts_start_def)
  ultimately show ?thesis by blast
qed

lemma ts_instance_again: "ts_instance i s = (t, s') \<Longrightarrow> ts_instance i s' = (t, s')"
  by (auto simp: ts_instance_def Let_def split: option.splits)

lemma ts_all_gone: "ts_ok s \<Longrightarrow> \<forall>i. ts_value s i = None \<Longrightarrow> ts_live s = []"
  by (auto simp: ts_ok_def intro: list.exhaust [of "ts_live s"])

end
