(* ===== verification/Socket_Util.thy ===== *)
theory Socket_Util
  imports Socket_Invariant Util_String
begin

text \<open>
  \<open>source/net/socket_util.cpp\<close>: the descriptor a listener is opened on. The system calls are fields
  of \<open>net_os\<close>, what they do to the process is in \<open>net_state\<close>: the open descriptors with their
  flags, address and backlog, and the address lists that are not freed yet.

  \<open>socketListen_ok\<close> says what the code promises its callers: a negative result leaves the process
  as it was, whichever call failed, and any other result is the one new descriptor, bound to the
  address asked for, listening and (when its flags can be read) non-blocking.
  \<open>loop_listen_opened\<close> carries this to \<open>SocketLoop::listen\<close>.
\<close>

section \<open>The system\<close>

record addr_info =
  ai_family :: int
  ai_socktype :: int
  ai_addr :: string

text \<open>\<open>None\<close> is the failure of a call. \<open>os_getfl\<close> and \<open>os_setfl\<close> are the two uses of \<open>fcntl\<close>;
  \<open>getaddrinfo\<close> answers with the first entry of its list.\<close>

record net_os =
  os_getaddrinfo :: "string \<Rightarrow> string \<Rightarrow> addr_info option"
  os_socket :: "int \<Rightarrow> int \<Rightarrow> nat option"
  os_reuse :: "nat \<Rightarrow> bool"
  os_bind :: "nat \<Rightarrow> string \<Rightarrow> bool"
  os_listen :: "nat \<Rightarrow> int \<Rightarrow> bool"
  os_getfl :: "nat \<Rightarrow> bool"
  os_setfl :: "nat \<Rightarrow> bool"

record open_fd =
  fd_flags :: u32
  fd_reuse :: bool
  fd_keepalive :: bool
  fd_addr :: "string option"
  fd_backlog :: "int option"

definition new_fd :: open_fd where
  "new_fd = \<lparr>fd_flags = 2, fd_reuse = False, fd_keepalive = False, fd_addr = None, fd_backlog = None\<rparr>"

record net_state =
  ns_open :: "nat \<Rightarrow> open_fd option"
  ns_lists :: nat

definition change_fd :: "nat \<Rightarrow> (open_fd \<Rightarrow> open_fd) \<Rightarrow> net_state \<Rightarrow> net_state" where
  "change_fd fd f s = s\<lparr>ns_open := (ns_open s)(fd := map_option f (ns_open s fd))\<rparr>"

definition close_fd :: "nat \<Rightarrow> net_state \<Rightarrow> net_state" where
  "close_fd fd s = s\<lparr>ns_open := (ns_open s)(fd := None)\<rparr>"

definition O_NONBLOCK :: u32 where "O_NONBLOCK = 2048"

section \<open>The functions\<close>

definition socketNonBlock :: "net_os \<Rightarrow> nat \<Rightarrow> net_state \<Rightarrow> net_state" where
  "socketNonBlock os fd s =
     (if \<not> os_getfl os fd then s
      else if \<not> os_setfl os fd then s
      else change_fd fd (\<lambda>o1. o1\<lparr>fd_flags := or (fd_flags o1) O_NONBLOCK\<rparr>) s)"

definition socketKeepAlive :: "nat \<Rightarrow> net_state \<Rightarrow> net_state" where
  "socketKeepAlive fd = change_fd fd (\<lambda>o1. o1\<lparr>fd_keepalive := True\<rparr>)"

text \<open>The \<open>do\<close> block that is left by \<open>break\<close>: \<open>None\<close> when it was.\<close>

definition bind_block :: "net_os \<Rightarrow> addr_info \<Rightarrow> net_state \<Rightarrow> nat option \<times> net_state" where
  "bind_block os ai s =
     (case os_socket os (ai_family ai) (ai_socktype ai) of
        None \<Rightarrow> (None, s)
      | Some fd \<Rightarrow>
          let s1 = s\<lparr>ns_open := (ns_open s)(fd \<mapsto> new_fd)\<rparr> in
          if \<not> os_reuse os fd then (None, close_fd fd s1)
          else
            let s2 = change_fd fd (\<lambda>o1. o1\<lparr>fd_reuse := True\<rparr>) s1 in
            if \<not> os_bind os fd (ai_addr ai) then (None, close_fd fd s2)
            else (Some fd, change_fd fd (\<lambda>o1. o1\<lparr>fd_addr := Some (ai_addr ai)\<rparr>) s2))"

definition bind_host :: "string \<Rightarrow> string" where
  "bind_host host = (if host = [] then ''0.0.0.0'' else host)"

definition socketBind :: "net_os \<Rightarrow> string \<Rightarrow> int \<Rightarrow> net_state \<Rightarrow> int \<times> net_state" where
  "socketBind os host port s =
     (case os_getaddrinfo os (bind_host host) (tostr_int port) of
        None \<Rightarrow> (-1, s)
      | Some ai \<Rightarrow>
          let (r, s1) = bind_block os ai (s\<lparr>ns_lists := Suc (ns_lists s)\<rparr>);
              s2 = s1\<lparr>ns_lists := ns_lists s1 - 1\<rparr> in
          case r of None \<Rightarrow> (-1, s2) | Some fd \<Rightarrow> (int fd, s2))"

definition socketListen :: "net_os \<Rightarrow> string \<Rightarrow> int \<Rightarrow> int \<Rightarrow> net_state \<Rightarrow> int \<times> net_state" where
  "socketListen os host port backlog s =
     (case socketBind os host port s of
        (iListenFD, s1) \<Rightarrow>
          if iListenFD < 0 then (-1, s1)
          else
            let fd = nat iListenFD; s2 = socketNonBlock os fd s1 in
            if \<not> os_listen os fd backlog then (-1, close_fd fd s2)
            else (iListenFD, change_fd fd (\<lambda>o1. o1\<lparr>fd_backlog := Some backlog\<rparr>) s2))"

section \<open>What a caller can rely on\<close>

text \<open>The kernel gives out a number that is not in use.\<close>

definition fresh_fds :: "net_os \<Rightarrow> net_state \<Rightarrow> bool" where
  "fresh_fds os s \<longleftrightarrow> (\<forall>f t fd. os_socket os f t = Some fd \<longrightarrow> ns_open s fd = None)"

lemma ns_open_simps [simp]:
  "ns_open (change_fd fd f s) = (ns_open s)(fd := map_option f (ns_open s fd))"
  "ns_open (close_fd fd s) = (ns_open s)(fd := None)"
  "ns_lists (change_fd fd f s) = ns_lists s" "ns_lists (close_fd fd s) = ns_lists s"
  by (simp_all add: change_fd_def close_fd_def)

lemma socketNonBlock_simps:
  "ns_lists (socketNonBlock os fd s) = ns_lists s"
  "fd' \<noteq> fd \<Longrightarrow> ns_open (socketNonBlock os fd s) fd' = ns_open s fd'"
  by (simp_all add: socketNonBlock_def)

lemma net_state_eqI: "ns_open s = ns_open t \<Longrightarrow> ns_lists s = ns_lists t \<Longrightarrow> s = (t :: net_state)"
  by simp

text \<open>The descriptor after a successful \<open>socketBind\<close>.\<close>

definition bound_fd :: "string \<Rightarrow> open_fd" where
  "bound_fd addr = new_fd\<lparr>fd_reuse := True, fd_addr := Some addr\<rparr>"

lemma bind_block_ok:
  assumes "fresh_fds os s" and "bind_block os ai s = (r, s')"
  shows "ns_lists s' = ns_lists s \<and>
    (case r of None \<Rightarrow> ns_open s' = ns_open s
     | Some fd \<Rightarrow> ns_open s fd = None \<and> ns_open s' = (ns_open s)(fd \<mapsto> bound_fd (ai_addr ai)))"
  using assms by (auto simp: bind_block_def fresh_fds_def Let_def bound_fd_def fun_eq_iff split: option.splits if_splits)

lemma socketBind_ok:
  assumes "fresh_fds os s" and "socketBind os host port s = (r, s')"
  shows "r = -1 \<and> s' = s \<or>
    (\<exists>fd ai. r = int fd \<and> os_getaddrinfo os (bind_host host) (tostr_int port) = Some ai \<and> ns_open s fd = None \<and>
       s' = s\<lparr>ns_open := (ns_open s)(fd \<mapsto> bound_fd (ai_addr ai))\<rparr>)"
proof (cases "os_getaddrinfo os (bind_host host) (tostr_int port)")
  case None
  then show ?thesis using assms(2) by (simp add: socketBind_def)
next
  case (Some ai)
  let ?s = "s\<lparr>ns_lists := Suc (ns_lists s)\<rparr>"
  obtain o1 s1 where b: "bind_block os ai ?s = (o1, s1)" by (cases "bind_block os ai ?s")
  have "fresh_fds os ?s" using assms(1) by (simp add: fresh_fds_def)
  from bind_block_ok [OF this b] Some b assms(2) show ?thesis
    by (cases o1) (auto simp: socketBind_def intro!: net_state_eqI)
qed

text \<open>The descriptor \<open>socketListen\<close> returns.\<close>

definition listening_fd :: "net_os \<Rightarrow> nat \<Rightarrow> string \<Rightarrow> int \<Rightarrow> open_fd" where
  "listening_fd os fd addr backlog =
     (bound_fd addr)\<lparr>fd_backlog := Some backlog,
       fd_flags := (if os_getfl os fd \<and> os_setfl os fd then or 2 O_NONBLOCK else 2)\<rparr>"

lemma socketListen_ok:
  assumes "fresh_fds os s" and "socketListen os host port backlog s = (r, s')"
  shows "r = -1 \<and> s' = s \<or>
    (\<exists>fd ai. r = int fd \<and> os_getaddrinfo os (bind_host host) (tostr_int port) = Some ai \<and> ns_open s fd = None \<and>
       s' = s\<lparr>ns_open := (ns_open s)(fd \<mapsto> listening_fd os fd (ai_addr ai) backlog)\<rparr>)"
proof -
  obtain r1 s1 where b: "socketBind os host port s = (r1, s1)" by (cases "socketBind os host port s")
  from socketBind_ok [OF assms(1) b] show ?thesis
  proof
    assume "r1 = -1 \<and> s1 = s"
    with assms(2) b show ?thesis by (simp add: socketListen_def)
  next
    assume "\<exists>fd ai. r1 = int fd \<and> os_getaddrinfo os (bind_host host) (tostr_int port) = Some ai \<and> ns_open s fd = None \<and>
       s1 = s\<lparr>ns_open := (ns_open s)(fd \<mapsto> bound_fd (ai_addr ai))\<rparr>"
    then obtain fd ai where fd: "r1 = int fd" "os_getaddrinfo os (bind_host host) (tostr_int port) = Some ai"
      "ns_open s fd = None" "s1 = s\<lparr>ns_open := (ns_open s)(fd \<mapsto> bound_fd (ai_addr ai))\<rparr>" by blast
    show ?thesis
    proof (cases "os_listen os fd backlog")
      case True
      have "s' = s\<lparr>ns_open := (ns_open s)(fd \<mapsto> listening_fd os fd (ai_addr ai) backlog)\<rparr>"
        using assms(2) b fd True
        by (auto simp: socketListen_def socketNonBlock_def listening_fd_def bound_fd_def new_fd_def intro!: net_state_eqI)
      moreover have "r = int fd" using assms(2) b fd True by (auto simp: socketListen_def Let_def)
      ultimately show ?thesis using fd by blast
    next
      case False
      then have "r = -1" and "s' = s"
        using assms(2) b fd
        by (auto simp: socketListen_def Let_def socketNonBlock_def fun_eq_iff intro!: net_state_eqI)
      then show ?thesis by simp
    qed
  qed
qed

text \<open>The buffer of 16 bytes for the port holds every \<open>int\<close> with its terminator.\<close>

lemma dec_digits_length: "n < 10 ^ k \<Longrightarrow> 0 < k \<Longrightarrow> length (dec_digits n) \<le> k"
proof (induction n arbitrary: k rule: dec_digits.induct)
  case (1 n)
  show ?case
  proof (cases "n < 10")
    case True
    then show ?thesis using "1.prems" by (simp add: dec_digits.simps [of n])
  next
    case False
    with "1.prems" obtain k' where k: "k = Suc k'" "0 < k'" by (cases k; cases "k - 1") auto
    with "1.prems" False have "length (dec_digits (n div 10)) \<le> k'" by (intro "1.IH") auto
    with k False show ?thesis by (simp add: dec_digits.simps [of n])
  qed
qed

lemma port_fits: "- (2 ^ 31) \<le> port \<Longrightarrow> port < 2 ^ 31 \<Longrightarrow> length (tostr_int port) + 1 \<le> 16"
  using dec_digits_length [of "nat port" 10] dec_digits_length [of "nat (- port)" 10]
  by (auto simp: tostr_int_def nat_less_iff)

section \<open>Opening a listener\<close>

text \<open>\<open>SocketLoop::listen\<close> takes the result as the answer of \<open>socketListen\<close> in its script: it either
  hands the descriptor to a slot or closes it again.\<close>

definition listen_answer :: "int \<Rightarrow> u32 option" where
  "listen_answer r = (if r < 0 then None else Some (word_of_int r))"

lemma getNewSocket_loop_kernel: "getNewSocket_loop n l = (r, l') \<Longrightarrow> l_kernel l' = l_kernel l"
  by (induction n arbitrary: l) (auto simp: Let_def set_slot_def split: if_splits)

lemma getNewSocket_kernel: "getNewSocket l = (r, l') \<Longrightarrow> l_kernel l' = l_kernel l"
  by (auto simp: getNewSocket_def dest: getNewSocket_loop_kernel)

lemma loop_inv_kernel: "loop_inv (l\<lparr>l_kernel := k\<rparr>) = loop_inv l"
  by (simp add: loop_inv_def)

lemma loop_listen_opened:
  assumes inv: "loop_inv l" and "fresh_fds os s" and r: "socketListen os ip port backlog s = (r, s')"
    and script: "k_listen (l_kernel l) = [listen_answer r]" and res: "loop_listen handler ip port l = (cid, l')"
  shows "r = -1 \<and> s' = s \<and> cid = -1 \<and> k_closed (l_kernel l') = k_closed (l_kernel l) \<or>
    (\<exists>fd ai. r = int fd \<and> ns_open s fd = None \<and> os_getaddrinfo os (bind_host ip) (tostr_int port) = Some ai \<and>
       s' = s\<lparr>ns_open := (ns_open s)(fd \<mapsto> listening_fd os fd (ai_addr ai) backlog)\<rparr> \<and>
       (cid = -1 \<and> k_closed (l_kernel l') = k_closed (l_kernel l) @ [word_of_nat fd] \<or>
        k_closed (l_kernel l') = k_closed (l_kernel l) \<and>
        (\<exists>i < length (m_slot l'). s_id (slot l' i) = cid \<and> s_fd (slot l' i) = word_of_nat fd \<and>
           s_status (slot l' i) = SocketStatus_Listen)))"
proof -
  from socketListen_ok [OF assms(2) r] consider "r = -1" "s' = s"
    | fd ai where "r = int fd" "ns_open s fd = None" "os_getaddrinfo os (bind_host ip) (tostr_int port) = Some ai"
        "s' = s\<lparr>ns_open := (ns_open s)(fd \<mapsto> listening_fd os fd (ai_addr ai) backlog)\<rparr>" by auto
  then show ?thesis
  proof cases
    case 1
    with res script show ?thesis by (auto simp: loop_listen_def listen_answer_def)
  next
    case 2
    let ?l = "l\<lparr>l_kernel := (l_kernel l)\<lparr>k_listen := []\<rparr>\<rparr>"
    obtain o1 l1 where g: "getNewSocket ?l = (o1, l1)" by (cases "getNewSocket ?l")
    have k: "l_kernel l1 = (l_kernel l)\<lparr>k_listen := []\<rparr>" using getNewSocket_kernel [OF g] by simp
    show ?thesis
    proof (cases o1)
      case None
      with res script 2 g k have "cid = -1 \<and> k_closed (l_kernel l') = k_closed (l_kernel l) @ [word_of_nat fd]"
        by (auto simp: loop_listen_def listen_answer_def sys_close_def)
      with 2 show ?thesis by blast
    next
      case (Some i)
      have "i < length (m_slot l1)"
        using getNewSocket_inv(3) [OF _ g [unfolded Some]] inv by (simp add: loop_inv_kernel)
      with res script 2 g k Some have "k_closed (l_kernel l') = k_closed (l_kernel l) \<and> i < length (m_slot l') \<and>
          s_id (slot l' i) = cid \<and> s_fd (slot l' i) = word_of_nat fd \<and> s_status (slot l' i) = SocketStatus_Listen"
        by (auto simp: loop_listen_def listen_answer_def pushCmd_def set_slot_def slot_def Let_def)
      with 2 show ?thesis by blast
    qed
  qed
qed

end
