(* ===== verification/Registry_Server.thy ===== *)
theory Registry_Server
  imports Storm_Server Registry_Manager
begin

text \<open>
  The registry program: \<open>source/storm_servers/storm_registry/RegistryServer.cpp\<close> and
  \<open>RegistryConfig.cpp\<close>. It is a \<open>StormServer\<close> whose \<open>init\<close> adds the registry's service, reads
  \<open>Registry.conf\<close> and loads the service table, and whose \<open>mainLoop\<close> is the manager's \<open>update\<close>.

  \<open>registry_init_ok\<close> and \<open>registry_init_fails\<close> describe the start completely, \<open>registry_lists_live\<close>
  follows an address from the database through the start to the answer of a query, and
  \<open>registry_run_ok\<close> puts \<open>init\<close> into the run of the server. \<open>update_keeps_sec\<close> shows that \<open>update\<close>
  never renews the time its interval is measured from.
\<close>

section \<open>The configuration\<close>

text \<open>\<open>RegistryConfig::init\<close>: an exception leaves the fields assigned so far. The port goes through
  \<open>strto<int>\<close>, which has the bits of \<open>strto<uint32_t>\<close>.\<close>

definition registry_settings :: "CConfig \<Rightarrow> RegistryConfig \<Rightarrow> bool \<times> RegistryConfig" where
  "registry_settings config g =
     (let set_db = (\<lambda>f g. g\<lparr>dbConfig := f (dbConfig g)\<rparr>) in
      case getCfg ''/server/DB/host'' config of Inl e \<Rightarrow> (False, g) | Inr host \<Rightarrow>
      let g1 = set_db (\<lambda>d. d\<lparr>db_host := host\<rparr>) g in
      case getCfg ''/server/DB/user'' config of Inl e \<Rightarrow> (False, g1) | Inr user \<Rightarrow>
      let g2 = set_db (\<lambda>d. d\<lparr>db_user := user\<rparr>) g1 in
      case getCfg ''/server/DB/passwd'' config of Inl e \<Rightarrow> (False, g2) | Inr passwd \<Rightarrow>
      let g3 = set_db (\<lambda>d. d\<lparr>db_passwd := passwd\<rparr>) g2 in
      case getCfg ''/server/DB/dbname'' config of Inl e \<Rightarrow> (False, g3) | Inr dbname \<Rightarrow>
      let g4 = set_db (\<lambda>d. d\<lparr>db_dbname := dbname, db_port := getCfg_def_u32 ''/server/DB/port'' 3306 config,
                 db_charset := getCfg_def_str ''/server/DB/charset'' ''utf8'' config\<rparr>) g3 in
      (True, g4\<lparr>reloadInterval := 58, activeInterval := 122, updateInterval := 2\<rparr>))"

definition RegistryConfig_init :: "(string \<Rightarrow> string) \<Rightarrow> RegistryConfig \<Rightarrow> bool \<times> RegistryConfig" where
  "RegistryConfig_init load g =
     (case parseFile load ''Registry.conf'' (new_CConfig []) of
        (Inl e, _) \<Rightarrow> (False, g)
      | (Inr _, config) \<Rightarrow> registry_settings config g)"

section \<open>The server\<close>

record ('c, 'db) RegistryServer =
  rs_base :: "'c StormServer"
  rs_config :: RegistryConfig
  rs_manager :: "'db ServiceManager"

text \<open>The manager's functions read the one \<open>g_config\<close>.\<close>

definition with_config :: "RegistryConfig \<Rightarrow> 'db reg_env \<Rightarrow> 'db reg_env" where
  "with_config g E = E\<lparr>re_config := g\<rparr>"

text \<open>\<open>addService\<close> may throw, which \<open>init\<close> does not catch. \<open>ServiceManager::init\<close> always returns true.\<close>

definition RegistryServer_init ::
  "'db reg_env \<Rightarrow> u32 \<Rightarrow> ('c, 'db) RegistryServer \<Rightarrow> (bool \<times> ('c, 'db) RegistryServer) throws" where
  "RegistryServer_init E now s =
     (case addService ''RegistryService'' None (rs_base s) of
        Inl e \<Rightarrow> Inl e
      | Inr b \<Rightarrow>
          let s1 = s\<lparr>rs_base := b\<rparr> in
          case RegistryConfig_init (\<lambda>f. loadFromFile disk_os f (sv_disk b)) (rs_config s1) of
            (ok, g) \<Rightarrow>
              let s2 = s1\<lparr>rs_config := g\<rparr> in
              if \<not> ok then Inr (False, s2)
              else Inr (True, s2\<lparr>rs_manager := sm_init (with_config g E) now (rs_manager s2)\<rparr>))"

definition RegistryServer_mainLoop ::
  "'db reg_env \<Rightarrow> u32 \<Rightarrow> u32 \<Rightarrow> ('c, 'db) RegistryServer \<Rightarrow> ('c, 'db) RegistryServer" where
  "RegistryServer_mainLoop E now now2 s =
     s\<lparr>rs_manager := update (with_config (rs_config s) E) now now2 (rs_manager s)\<rparr>"

definition RegistryServer_mainLoopDestory :: "('c, 'db) RegistryServer \<Rightarrow> ('c, 'db) RegistryServer" where
  "RegistryServer_mainLoopDestory s = s"

text \<open>\<open>main\<close>: the run of the server with these methods. The run threads the \<open>StormServer\<close> part; the
  other two parts are objects of their own that no method of the base class touches.\<close>

definition registry_hooks ::
  "'db reg_env \<Rightarrow> u32 \<Rightarrow> RegistryConfig \<Rightarrow> 'db ServiceManager \<Rightarrow> 'c environment \<Rightarrow> 'c environment" where
  "registry_hooks E now g sm en =
     en\<lparr>en_init := \<lambda>b. map_sum id (\<lambda>(ok, s). (ok, rs_base s))
            (RegistryServer_init E now \<lparr>rs_base = b, rs_config = g, rs_manager = sm\<rparr>),
        en_mainLoop := \<lambda>b. b\<rparr>"

section \<open>The start\<close>

definition registry_conf_ok :: "CConfig \<Rightarrow> bool" where
  "registry_conf_ok config \<longleftrightarrow>
     list_all (\<lambda>k. getConfigKeyPtr k config \<noteq> None)
       [''/server/DB/host'', ''/server/DB/user'', ''/server/DB/passwd'', ''/server/DB/dbname'']"

text \<open>The intervals are set only when everything before them was read.\<close>

definition intervals_of :: "RegistryConfig \<Rightarrow> u32 \<times> u32 \<times> u32" where
  "intervals_of g = (reloadInterval g, activeInterval g, updateInterval g)"

lemma registry_settings_ok:
  assumes "registry_settings config g = (ok, g')"
  shows "ok \<longleftrightarrow> registry_conf_ok config" and "intervals_of g' = (if ok then (58, 122, 2) else intervals_of g)"
  using assms by (auto simp: registry_settings_def registry_conf_ok_def intervals_of_def getCfg_def Let_def split: option.splits)

text \<open>What \<open>Registry.conf\<close> says; \<open>None\<close> when it cannot be parsed.\<close>

definition registry_conf :: "(string \<Rightarrow> string) \<Rightarrow> CConfig option" where
  "registry_conf load =
     (case parseFile load ''Registry.conf'' (new_CConfig []) of (Inl e, _) \<Rightarrow> None | (Inr _, config) \<Rightarrow> Some config)"

lemma RegistryConfig_init_ok:
  assumes "RegistryConfig_init load g = (ok, g')"
  shows "ok \<longleftrightarrow> (case registry_conf load of None \<Rightarrow> False | Some config \<Rightarrow> registry_conf_ok config)"
    and "intervals_of g' = (if ok then (58, 122, 2) else intervals_of g)"
  using assms registry_settings_ok [of _ g ok g']
  by (auto simp: RegistryConfig_init_def registry_conf_def split: sum.splits prod.splits)

text \<open>The start, completely: without the service in the server's configuration it throws; otherwise the
  service is added, and the manager is filled exactly when \<open>Registry.conf\<close> is complete.\<close>

definition registry_start :: "'db reg_env \<Rightarrow> u32 \<Rightarrow> ServiceConfig \<Rightarrow> ('c, 'db) RegistryServer \<Rightarrow> ('c, 'db) RegistryServer \<Rightarrow> bool \<Rightarrow> bool" where
  "registry_start E now cfg s s' ok \<longleftrightarrow>
     rs_base s' = addService_cfg cfg None (rs_base s) \<and>
     ok = (case registry_conf (\<lambda>f. loadFromFile disk_os f (sv_disk (rs_base s'))) of
             None \<Rightarrow> False | Some config \<Rightarrow> registry_conf_ok config) \<and>
     intervals_of (rs_config s') = (if ok then (58, 122, 2) else intervals_of (rs_config s)) \<and>
     rs_manager s' = (if ok then sm_init (with_config (rs_config s') E) now (rs_manager s) else rs_manager s)"

lemma registry_init_ok:
  "(case sm_find (services (m_serverCfg (rs_base s))) ''RegistryService'' of
      None \<Rightarrow> (\<exists>e. RegistryServer_init E now s = Inl e)
    | Some cfg \<Rightarrow> (\<exists>ok s'. RegistryServer_init E now s = Inr (ok, s') \<and> registry_start E now cfg s s' ok))"
proof (cases "sm_find (services (m_serverCfg (rs_base s))) ''RegistryService''")
  case None
  then show ?thesis by (simp add: RegistryServer_init_def addService_def)
next
  case (Some cfg)
  let ?b = "addService_cfg cfg None (rs_base s)"
  obtain ok g where g: "RegistryConfig_init (\<lambda>f. loadFromFile disk_os f (sv_disk ?b)) (rs_config s) = (ok, g)"
    by (cases "RegistryConfig_init (\<lambda>f. loadFromFile disk_os f (sv_disk ?b)) (rs_config s)")
  from RegistryConfig_init_ok [OF g] show ?thesis
    using Some g by (cases ok) (auto simp: RegistryServer_init_def addService_def registry_start_def)
qed

lemma registry_init_cases:
  assumes "RegistryServer_init E now s = Inr (ok, s')"
  obtains cfg where "sm_find (services (m_serverCfg (rs_base s))) ''RegistryService'' = Some cfg"
    and "registry_start E now cfg s s' ok"
  using registry_init_ok [where s = s and E = E and now = now] assms by (auto split: option.splits)

section \<open>From the database to a query\<close>

text \<open>After the start a query lists the rows of the table with its key that were heard of in the last 122
  seconds, in the order of the table.\<close>

lemma registry_lists_live:
  assumes start: "RegistryServer_init E now s = Inr (True, s')"
    and sel: "sql_select (re_mysql E) ''t_storm'' ''*'' [] (setConfig (dbConfig (rs_config s')) (m_mysql (rs_manager s))) = (Inr res, c)"
    and "m_iRows res \<noteq> 0"
  shows "getService a sv v t (rs_manager s') =
    filter (\<lambda>ep. ep_key ep = getKey a sv v t) (map (load_row (with_config (rs_config s') E) now res) [0..<m_iRows res])"
    and "i < m_iRows res \<Longrightarrow> active (load_row (with_config (rs_config s') E) now res i) \<longleftrightarrow>
      now \<le> reg_env.parseTime E (res_get_name res i ''heart_beat_time'') + 122"
proof -
  obtain cfg where st: "registry_start E now cfg s s' True" using start by (rule registry_init_cases)
  let ?E = "with_config (rs_config s') E"
  let ?sm = "(rs_manager s)\<lparr>m_mysql := setConfig (dbConfig (rs_config s')) (m_mysql (rs_manager s)), m_tblName := ''t_storm''\<rparr>"
  have m: "rs_manager s' = loadFromDB ?E now ?sm"
    using st by (simp add: registry_start_def sm_init_def with_config_def)
  have "sql_select (re_mysql ?E) (m_tblName ?sm) ''*'' [] (m_mysql ?sm) = (Inr res, c)" using sel by (simp add: with_config_def)
  from loadFromDB_ok(1) [OF this assms(3), of "getKey a sv v t" now]
  show "getService a sv v t (rs_manager s') =
    filter (\<lambda>ep. ep_key ep = getKey a sv v t) (map (load_row ?E now res) [0..<m_iRows res])"
    by (simp add: m getService_at)
  have "activeInterval (rs_config s') = 122" using st by (simp add: registry_start_def intervals_of_def)
  then show "active (load_row ?E now res i) \<longleftrightarrow> now \<le> reg_env.parseTime E (res_get_name res i ''heart_beat_time'') + 122"
    by (simp add: load_row_def Let_def with_config_def not_less)
qed

section \<open>The run\<close>

text \<open>A run that ends normally went through a successful start of the registry, which found a complete
  \<open>Registry.conf\<close>, and keeps the order of the server's parts.\<close>

lemma registry_run_ok:
  fixes en :: "'c environment"
  assumes "run_server (registry_hooks E now g sm en) b = Some (RunReturned 0, evs, b')"
  shows "\<exists>(b1 :: 'c StormServer) s1 config. RegistryServer_init E now \<lparr>rs_base = b1, rs_config = g, rs_manager = sm\<rparr> = Inr (True, s1) \<and>
      registry_conf (\<lambda>f. loadFromFile disk_os f (sv_disk (rs_base s1))) = Some config \<and> registry_conf_ok config"
    and "\<exists>up down. evs = PidSaved # NetStarted # up @ down @ [NetJoined, LogFinished, PidRemoved] \<and> started up = destroyed down \<and>
      destroyed up = [] \<and> started down = []"
    and "\<not> isFileExists disk_os (pidFileName (m_serverCfg b')) (sv_disk b')"
proof -
  let ?en = "registry_hooks E now g sm en"
  from assms obtain s4 evs1 where r: "run_started ?en (savePidFile (en_pid ?en) s4) = Some (RunReturned 0, evs1, b')"
    by (cases rule: run_cases) auto
  define b1 where "b1 = savePidFile (en_pid ?en) s4"
  from r obtain s1 where "en_init ?en b1 = Inr (True, s1)"
    by (auto simp: run_started_def b1_def split: sum.splits bool.splits)
  then obtain s1 where s1: "RegistryServer_init E now \<lparr>rs_base = b1, rs_config = g, rs_manager = sm\<rparr> = Inr (True, s1)"
    by (auto simp: registry_hooks_def map_sum_def split: sum.splits prod.splits)
  then obtain cfg where "registry_start E now cfg \<lparr>rs_base = b1, rs_config = g, rs_manager = sm\<rparr> s1 True"
    by (rule registry_init_cases)
  then obtain config where "registry_conf (\<lambda>f. loadFromFile disk_os f (sv_disk (rs_base s1))) = Some config" "registry_conf_ok config"
    by (auto simp: registry_start_def split: option.splits)
  with s1 show "\<exists>(b1 :: 'c StormServer) s1 config. RegistryServer_init E now \<lparr>rs_base = b1, rs_config = g, rs_manager = sm\<rparr> = Inr (True, s1) \<and>
      registry_conf (\<lambda>f. loadFromFile disk_os f (sv_disk (rs_base s1))) = Some config \<and> registry_conf_ok config"
    by blast
  have "same_services s (en_mainLoop ?en s)" for s by (simp add: registry_hooks_def same_services_def)
  note run_ok [OF this assms]
  then show "\<exists>up down. evs = PidSaved # NetStarted # up @ down @ [NetJoined, LogFinished, PidRemoved] \<and> started up = destroyed down \<and>
      destroyed up = [] \<and> started down = []"
    and "\<not> isFileExists disk_os (pidFileName (m_serverCfg b')) (sv_disk b')" by blast+
qed

section \<open>Main rounds\<close>

text \<open>Until the next reload \<open>update\<close> does not move the time its interval is measured from: once the
  interval has passed, every round flushes.\<close>

lemma flush_keeps_sec:
  "m_updateSec (flushNewServiceToDB E sm) = m_updateSec sm" "m_reloadSec (flushNewServiceToDB E sm) = m_reloadSec sm"
  "m_updateSec (flushUpdateServiceToDB E sm) = m_updateSec sm" "m_reloadSec (flushUpdateServiceToDB E sm) = m_reloadSec sm"
  by (simp_all add: flushNewServiceToDB_def flushUpdateServiceToDB_def)

lemma update_keeps_sec:
  "\<not> now2 > m_reloadSec sm + reloadInterval (re_config E) \<Longrightarrow> m_updateSec (update E now now2 sm) = m_updateSec sm"
  by (simp add: update_def Let_def flush_keeps_sec)

lemma update_flushes:
  "\<not> now2 > m_reloadSec sm + reloadInterval (re_config E) \<Longrightarrow>
   m_newServices (update E now now2 sm) = [] \<and>
   (now > m_updateSec sm + updateInterval (re_config E) \<longrightarrow> m_updateServices (update E now now2 sm) = [])"
  by (simp add: update_def Let_def flush_keeps_sec, simp add: flushNewServiceToDB_def flushUpdateServiceToDB_def)

end
