(* ===== verification/Storm_Service_Thread.thy ===== *)
theory Storm_Service_Thread
  imports Util_Pthread
begin

text \<open>
  \<open>source/framework/storm_service.cpp\<close>: the life of a service that has a thread of its own. The
  worker (thread 0) runs \<open>loop\<close> and \<open>update(-1)\<close> over the listener's queue, the main thread (1) runs
  \<open>terminateThread\<close>, and the network thread (2) puts packets into the queue. The queue is the
  monitor of \<open>Util_Pthread\<close>, so the worker can be between reading \<open>m_running\<close> and falling asleep
  when the main thread clears the flag and broadcasts.

  \<open>life_run_ok\<close>: over every interleaving the worker handles the packets in order, and once it has begun
  and the flag is cleared it handles only what it finds before it looks at the flag again.
  \<open>terminate_sleeper\<close>: the end as it is meant, \<open>terminate_lost_wakeup\<close> and
  \<open>terminate_before_begin\<close>: two interleavings after which \<open>join\<close> waits for ever.
\<close>

section \<open>The threads\<close>

text \<open>The worker: not begun; about to read \<open>m_running\<close>; about to call \<open>pop_front\<close>; in it; done.\<close>

datatype worker_pc = W_new | W_check | W_call | W_pop | W_done

text \<open>The main thread: at work; after \<open>m_running = false\<close>; after the broadcast, in \<open>join\<close>; after \<open>destroy\<close>.\<close>

datatype main_pc = M_work | M_cleared | M_joining | M_destroyed

record 't service_thread =
  st_queue :: "(nat, 't) lq_state"
  st_running :: bool
  st_worker :: worker_pc
  st_main :: main_pc
  st_handled :: "'t list"

text \<open>\<open>startThread\<close> has created the thread.\<close>

definition startThread :: "'t service_thread" where
  "startThread = \<lparr>st_queue = lq_start, st_running = False, st_worker = W_new, st_main = M_work, st_handled = []\<rparr>"

datatype 't service_step =
    Begin                    \<comment> \<open>\<open>m_running = true; init()\<close>\<close>
  | ReadFlag                 \<comment> \<open>\<open>while (m_running)\<close>\<close>
  | CallPop                  \<comment> \<open>enter \<open>pop_front(packet, -1)\<close>\<close>
  | InPop "(nat, 't) lq_event"  \<comment> \<open>a step of the worker in \<open>pop_front\<close>\<close>
  | Push 't                  \<comment> \<open>a packet from the network thread\<close>
  | ClearFlag | Broadcast | JoinDestroy

text \<open>When \<open>pop_front\<close> returns, a packet is handled and the worker calls it again; without a packet
  \<open>update\<close> returns.\<close>

definition after_pop :: "'t service_thread \<Rightarrow> (nat, 't) lq_state \<Rightarrow> 't service_thread" where
  "after_pop s q =
     (let s1 = s\<lparr>st_queue := q\<rparr> in
      if lq_pc q 0 \<noteq> Outside then s1
      else if length (lq_taken (st_queue s)) < length (lq_taken q)
      then s1\<lparr>st_handled := st_handled s @ [last (lq_taken q)], st_worker := W_call\<rparr>
      else s1\<lparr>st_worker := W_check\<rparr>)"

fun worker_moves :: "(nat, 't) lq_event \<Rightarrow> bool" where
  "worker_moves (Go i k) = (i = 0)"
| "worker_moves (WakeUp i) = (i = 0)"
| "worker_moves (Relock i) = (i = 0)"
| "worker_moves (Enter i c) = False"

fun svc_exec :: "'t service_step \<Rightarrow> 't service_thread \<Rightarrow> 't service_thread option" where
  "svc_exec Begin s =
     (if st_worker s = W_new then Some (s\<lparr>st_running := True, st_worker := W_check\<rparr>) else None)"
| "svc_exec ReadFlag s =
     (if st_worker s = W_check then Some (s\<lparr>st_worker := if st_running s then W_call else W_done\<rparr>) else None)"
| "svc_exec CallPop s =
     (if st_worker s = W_call then
        map_option (\<lambda>q. s\<lparr>st_queue := q, st_worker := W_pop\<rparr>) (lq_exec (Enter 0 (C_pop_front (- 1))) (st_queue s))
      else None)"
| "svc_exec (InPop e) s =
     (if st_worker s = W_pop \<and> worker_moves e then map_option (after_pop s) (lq_exec e (st_queue s)) else None)"
| "svc_exec (Push t) s =
     map_option (\<lambda>q. s\<lparr>st_queue := q\<rparr>) (lq_run [Enter 2 (C_push_back t), Go 2 0] (st_queue s))"
| "svc_exec ClearFlag s =
     (if st_main s = M_work then Some (s\<lparr>st_running := False, st_main := M_cleared\<rparr>) else None)"
| "svc_exec Broadcast s =
     (if st_main s = M_cleared then
        map_option (\<lambda>q. s\<lparr>st_queue := q, st_main := M_joining\<rparr>) (lq_run [Enter 1 C_wakeup, Go 1 0] (st_queue s))
      else None)"
| "svc_exec JoinDestroy s =
     (if st_main s = M_joining \<and> st_worker s = W_done then Some (s\<lparr>st_main := M_destroyed\<rparr>) else None)"

fun life_run :: "'t service_step list \<Rightarrow> 't service_thread \<Rightarrow> 't service_thread option" where
  "life_run [] s = Some s"
| "life_run (e # es) s = (case svc_exec e s of None \<Rightarrow> None | Some s' \<Rightarrow> life_run es s')"

section \<open>Ends that are missed\<close>

text \<open>\<open>join\<close> waits, the worker sleeps, and nothing but a new packet or a spurious wake-up can change that.\<close>

definition svc_hangs :: "'t service_thread \<Rightarrow> bool" where
  "svc_hangs s \<longleftrightarrow> st_main s = M_joining \<and> st_worker s = W_pop \<and> lq_pc (st_queue s) 0 = Asleep"

lemma svc_hangs_stuck:
  assumes "svc_hangs s" and "\<forall>t. e \<noteq> Push t" and "e \<noteq> InPop (WakeUp 0)"
  shows "svc_exec e s = None"
  using assms by (cases e; cases s) (auto simp: svc_hangs_def elim!: worker_moves.elims split: lq_pc.splits option.splits)

text \<open>The flag is cleared and the broadcast sent after the worker has read the flag and before it sleeps.\<close>

lemma terminate_lost_wakeup:
  "\<exists>s. life_run [Begin, ReadFlag, ClearFlag, Broadcast, CallPop, InPop (Go 0 0)] startThread = Some s \<and> svc_hangs s"
  by (simp add: startThread_def lq_start_def lq_at_def lq_leave_def lq_broadcast_def lq_wake_def svc_hangs_def after_pop_def)

text \<open>Or while it handles a packet: \<open>update\<close> calls \<open>pop_front\<close> again without a look at the flag.\<close>

lemma terminate_lost_wakeup_busy:
  "\<exists>s. life_run [Begin, ReadFlag, Push p, CallPop, InPop (Go 0 0), ClearFlag, Broadcast, CallPop, InPop (Go 0 0)] startThread =
     Some s \<and> svc_hangs s \<and> st_handled s = [p]"
  by (simp add: startThread_def lq_start_def lq_at_def lq_leave_def lq_broadcast_def lq_wake_def lq_signal_def lq_take_def svc_hangs_def
      after_pop_def)

text \<open>Or before the worker has begun, which then sets the flag again.\<close>

lemma terminate_before_begin:
  "\<exists>s. life_run [ClearFlag, Broadcast, Begin, ReadFlag, CallPop, InPop (Go 0 0)] startThread = Some s \<and> svc_hangs s \<and> st_running s"
  by (simp add: startThread_def lq_start_def lq_at_def lq_leave_def lq_broadcast_def lq_wake_def svc_hangs_def after_pop_def)

section \<open>What holds in every interleaving\<close>

definition svc_ok :: "'t service_thread \<Rightarrow> bool" where
  "svc_ok s \<longleftrightarrow>
     lq_fifo (st_queue s) \<and> st_handled s = lq_taken (st_queue s) \<and>
     (\<forall>c. lq_pc (st_queue s) 0 = Inside c \<longrightarrow> c = C_pop_front (- 1)) \<and>
     (st_worker s = W_pop \<longleftrightarrow> lq_pc (st_queue s) 0 \<noteq> Outside) \<and>
     (st_main s = M_destroyed \<longrightarrow> st_worker s = W_done)"

text \<open>A step of the worker in \<open>pop_front\<close> takes nothing, or takes one element and returns.\<close>

lemma worker_step:
  assumes "lq_exec e q = Some q'" and "worker_moves e" and "\<forall>c. lq_pc q 0 = Inside c \<longrightarrow> c = C_pop_front (- 1)"
  shows "lq_taken q' = lq_taken q \<or> (\<exists>t. lq_taken q' = lq_taken q @ [t] \<and> lq_pc q' 0 = Outside)"
    and "\<forall>c. lq_pc q' 0 = Inside c \<longrightarrow> c = C_pop_front (- 1)"
  using assms
  by (cases e; force simp: lq_take_def split: lq_pc.splits list.splits option.splits if_splits)+

text \<open>The other threads' calls leave the worker outside or where it was, but for waking it.\<close>

lemma lq_wakes_pc: "lq_pc (fold lq_wake w q) i = (if i \<in> set w then Woken else lq_pc q i)"
  by (induction w arbitrary: q) auto

lemma lq_signal_pc: "lq_pc (lq_signal k q) i = lq_pc q i \<or> lq_pc (lq_signal k q) i = Woken \<and> i \<in> set (lq_asleep q)"
proof (cases "lq_asleep q = []")
  case False
  let ?j = "lq_asleep q ! (k mod length (lq_asleep q))"
  have "?j \<in> set (lq_asleep q)" using False by simp
  moreover have "lq_signal k q = lq_wake ?j q" using False by (simp add: lq_signal_def split: list.split)
  ultimately show ?thesis by (cases "i = ?j") simp_all
qed (simp add: lq_signal_def)

lemma svc_exec_ok:
  assumes ok: "svc_ok s" and "lq_ok (st_queue s)" and r: "svc_exec e s = Some s'"
  shows "svc_ok s'"
proof (cases e)
  case (InPop e1)
  with r obtain q where q: "st_worker s = W_pop" "worker_moves e1" "lq_exec e1 (st_queue s) = Some q" "s' = after_pop s q"
    by (auto split: if_splits)
  have p: "\<forall>c. lq_pc (st_queue s) 0 = Inside c \<longrightarrow> c = C_pop_front (- 1)" using ok by (simp add: svc_ok_def)
  have "lq_fifo q" using lq_exec_fifo [OF _ q(3)] ok by (simp add: svc_ok_def)
  with worker_step [OF q(3,2) p] ok q(1) show ?thesis
    by (auto simp: q(4) svc_ok_def after_pop_def Let_def)
next
  case (Push t)
  with r obtain q where q: "lq_run [Enter 2 (C_push_back t), Go 2 0] (st_queue s) = Some q" "s' = s\<lparr>st_queue := q\<rparr>" by auto
  have "lq_fifo q" using lq_run_fifo [OF _ q(1)] ok by (simp add: svc_ok_def)
  moreover have "lq_taken q = lq_taken (st_queue s)"
    using q(1) by (auto split: option.splits lq_pc.splits)
  moreover have "lq_pc q 0 = lq_pc (st_queue s) 0 \<or> lq_pc q 0 = Woken \<and> lq_pc (st_queue s) 0 \<noteq> Outside"
  proof -
    let ?u = "(lq_at 2 (Inside (C_push_back t)) ((st_queue s)\<lparr>lq_holder := Some 2\<rparr>))\<lparr>lq_list := lq_list (st_queue s) @ [t],
      lq_pushed := lq_pushed (st_queue s) @ [t]\<rparr>"
    have "q = lq_leave 2 (lq_signal 0 ?u)" using q(1) by (auto split: option.splits lq_pc.splits)
    with lq_signal_pc [of 0 ?u 0] show ?thesis using lq_ok_asleep [OF assms(2), of 0] by auto
  qed
  ultimately show ?thesis using ok by (auto simp: q(2) svc_ok_def)
next
  case Broadcast
  with r obtain q where q: "st_main s = M_cleared" "lq_run [Enter 1 C_wakeup, Go 1 0] (st_queue s) = Some q"
    "s' = s\<lparr>st_queue := q, st_main := M_joining\<rparr>" by (auto split: if_splits)
  have "lq_fifo q" using lq_run_fifo [OF _ q(2)] ok by (simp add: svc_ok_def)
  moreover have "lq_taken q = lq_taken (st_queue s)"
    using q(2) by (auto split: option.splits lq_pc.splits)
  moreover have "lq_pc q 0 = lq_pc (st_queue s) 0 \<or> lq_pc q 0 = Woken \<and> lq_pc (st_queue s) 0 \<noteq> Outside"
  proof -
    let ?u = "lq_at 1 (Inside C_wakeup) ((st_queue s)\<lparr>lq_holder := Some 1\<rparr>)"
    have "q = lq_leave 1 (lq_broadcast ?u)" using q(2) by (auto split: option.splits lq_pc.splits)
    then show ?thesis using lq_ok_asleep [OF assms(2), of 0] by (auto simp: lq_broadcast_def lq_wakes_pc)
  qed
  ultimately show ?thesis using ok by (auto simp: q(3) svc_ok_def)
qed (use r ok in \<open>auto simp: svc_ok_def split: if_splits option.splits lq_pc.splits\<close>)

text \<open>The queue's own invariant.\<close>

lemma svc_exec_queue: "lq_ok (st_queue s) \<Longrightarrow> svc_exec e s = Some s' \<Longrightarrow> lq_ok (st_queue s')"
proof (cases e)
  case (InPop e1)
  assume "lq_ok (st_queue s)" and "svc_exec e s = Some s'"
  with InPop show ?thesis by (auto simp: after_pop_def Let_def split: if_splits dest: lq_exec_ok)
next
  case CallPop
  assume "lq_ok (st_queue s)" and "svc_exec e s = Some s'"
  with CallPop show ?thesis using lq_exec_ok [of "st_queue s" "Enter 0 (C_pop_front (- 1))"]
    by (auto split: if_splits simp del: lq_exec.simps)
next
  case (Push t)
  assume "lq_ok (st_queue s)" and "svc_exec e s = Some s'"
  with Push show ?thesis by (auto dest: lq_run_ok simp del: lq_run.simps)
next
  case Broadcast
  assume "lq_ok (st_queue s)" and "svc_exec e s = Some s'"
  with Broadcast show ?thesis by (auto dest: lq_run_ok simp del: lq_run.simps split: if_splits)
qed (auto split: if_splits)

text \<open>Every interleaving: the packets handled, followed by those that wait, are those put in, in order;
  the service is destroyed only after its worker has ended.\<close>

lemma life_run_ok:
  assumes "life_run es startThread = Some s"
  shows "st_handled s @ lq_list (st_queue s) = lq_pushed (st_queue s)"
    and "st_main s = M_destroyed \<Longrightarrow> st_worker s = W_done"
proof -
  have "svc_ok u \<Longrightarrow> lq_ok (st_queue u) \<Longrightarrow> life_run es u = Some s \<Longrightarrow> svc_ok s" for u
    by (induction es arbitrary: u) (auto split: option.splits dest: svc_exec_ok svc_exec_queue)
  moreover have "svc_ok (startThread :: 'a service_thread)"
    by (simp add: startThread_def svc_ok_def lq_fifo_def lq_start_def)
  moreover have "lq_ok (st_queue (startThread :: 'a service_thread))" by (simp add: startThread_def lq_start_ok)
  ultimately have "svc_ok s" using assms by blast
  then show "st_handled s @ lq_list (st_queue s) = lq_pushed (st_queue s)"
    and "st_main s = M_destroyed \<Longrightarrow> st_worker s = W_done"
    by (simp_all add: svc_ok_def lq_fifo_def)
qed

section \<open>The end as it is meant\<close>

text \<open>A worker that sleeps on an empty queue when the flag is cleared is woken, sees the flag and ends.\<close>

lemma terminate_sleeper:
  assumes "lq_ok (st_queue s)" and "st_main s = M_work" and "st_worker s = W_pop" and "lq_pc (st_queue s) 0 = Asleep"
    and "lq_holder (st_queue s) = None" and "lq_pc (st_queue s) 1 = Outside" and "lq_list (st_queue s) = []"
  shows "\<exists>s'. life_run [ClearFlag, Broadcast, InPop (Relock 0), InPop (Go 0 0), ReadFlag, JoinDestroy] s = Some s' \<and>
    st_main s' = M_destroyed \<and> st_handled s' = st_handled s"
proof -
  have "0 \<in> set (lq_asleep (st_queue s))" using lq_ok_asleep [OF assms(1), of 0] assms(4) by simp
  then have "lq_pc (lq_broadcast u) 0 = Woken" if "lq_asleep u = lq_asleep (st_queue s)" for u :: "(nat, 'a) lq_state"
    using that by (simp add: lq_broadcast_def lq_wakes_pc)
  with assms(2-7) show ?thesis by (simp add: after_pop_def lq_take_def)
qed

lemma life_run_append: "life_run es s = Some s1 \<Longrightarrow> life_run (es @ es') s = life_run es' s1"
  by (induction es arbitrary: s) (auto split: option.splits)

lemma life_sleeps:
  "\<exists>s. life_run [Begin, ReadFlag, CallPop, InPop (Go 0 0)] startThread = Some s \<and> lq_ok (st_queue s) \<and> st_main s = M_work \<and>
     st_worker s = W_pop \<and> lq_pc (st_queue s) 0 = Asleep \<and> lq_holder (st_queue s) = None \<and> lq_pc (st_queue s) 1 = Outside \<and>
     lq_list (st_queue s) = []"
  by (simp add: startThread_def lq_start_def lq_at_def after_pop_def lq_ok_def lq_awake_def)

lemma life_ends:
  "\<exists>s :: 't service_thread. life_run [Begin, ReadFlag, CallPop, InPop (Go 0 0), ClearFlag, Broadcast, InPop (Relock 0), InPop (Go 0 0), ReadFlag,
     JoinDestroy] startThread = Some s \<and> st_main s = M_destroyed"
proof -
  obtain s0 :: "'t service_thread" where s0: "life_run [Begin, ReadFlag, CallPop, InPop (Go 0 0)] startThread = Some s0" "lq_ok (st_queue s0)"
    "st_main s0 = M_work" "st_worker s0 = W_pop" "lq_pc (st_queue s0) 0 = Asleep" "lq_holder (st_queue s0) = None"
    "lq_pc (st_queue s0) 1 = Outside" "lq_list (st_queue s0) = []"
    using life_sleeps by blast
  obtain s' where s': "life_run [ClearFlag, Broadcast, InPop (Relock 0), InPop (Go 0 0), ReadFlag, JoinDestroy] s0 = Some s'"
    "st_main s' = M_destroyed" using terminate_sleeper [OF s0(2-)] by blast
  from s'(1) have "life_run ([Begin, ReadFlag, CallPop, InPop (Go 0 0)] @
      [ClearFlag, Broadcast, InPop (Relock 0), InPop (Go 0 0), ReadFlag, JoinDestroy]) startThread = Some s'"
    unfolding life_run_append [OF s0(1)] .
  with s'(2) show ?thesis unfolding append_Cons append_Nil by blast
qed

end
