(* ===== verification/Util_Log_Thread.thy ===== *)
theory Util_Log_Thread
  imports Util_Log
begin

text \<open>
  The asynchronous side of \<open>source/util/util_log.cpp\<close>: the thread that writes the queued entries, from
  its start to its end, and the stream of a thread in which an entry is put together.

  A round of \<open>logThreadEntry\<close> takes the queue under the lock and reads \<open>g_logExit\<close> afterwards without
  it, so other threads may queue entries before the round takes the queue (\<open>tk_before\<close>) and between
  that and the look at the flag (\<open>tk_between\<close>). \<open>log_thread_is_sync\<close>: when nothing is queued any more
  once the flag is set, the thread ends and the files are those of logging every entry in
  order without a thread. \<open>log_thread_loses_tail\<close>: an entry queued just before \<open>finish\<close> can be lost.

  \<open>emit_flat\<close>: entries that are put together one after the other come out whole; an entry put together inside another one
  takes over its stream (\<open>emit_nested\<close>).
\<close>

section \<open>The thread\<close>

record log_tick =
  tk_before :: "LogData list"
  tk_between :: "LogData list"
  tk_exit :: bool

definition queue_logs :: "LogData list \<Rightarrow> LogManager \<Rightarrow> LogManager" where
  "queue_logs es g = g\<lparr>g_logList := g_logList g @ es\<rparr>"

text \<open>The end deletes the logs, whose destructor closes the file; the map keeps its entries.\<close>

definition destroy_LogBase :: "LogBase \<Rightarrow> LogBase" where
  "destroy_LogBase l = (if m_fp l \<noteq> None then l\<lparr>m_fp := None\<rparr> else l)"

definition delete_logs :: "LogManager \<Rightarrow> LogManager" where
  "delete_logs g = g\<lparr>g_logs := map (\<lambda>(key, l). (key, destroy_LogBase l)) (g_logs g)\<rparr>"

text \<open>The rounds from the \<open>i\<close>-th on; \<open>None\<close>: a write that does not return, or a thread that never ends.\<close>

partial_function (option) logThreadEntry :: "libc_time \<Rightarrow> (nat \<Rightarrow> log_tick) \<Rightarrow> nat \<Rightarrow> LogManager \<Rightarrow> LogManager option" where
  "logThreadEntry L env i g =
     (let allLogs = g_logList g @ tk_before (env i);
          g1 = queue_logs (tk_between (env i)) (g\<lparr>g_logList := []\<rparr>) in
      if allLogs = [] then
        (if tk_exit (env i) then Some (delete_logs g1) else logThreadEntry L env (Suc i) g1)
      else do { g2 \<leftarrow> realDoLogs L allLogs g1; logThreadEntry L env (Suc i) g2 })"

definition tick_logs :: "log_tick \<Rightarrow> LogData list" where
  "tick_logs t = tk_before t @ tk_between t"

text \<open>From round \<open>n\<close> on nothing is queued and the flag is set.\<close>

definition quiet_from :: "nat \<Rightarrow> (nat \<Rightarrow> log_tick) \<Rightarrow> bool" where
  "quiet_from n env \<longleftrightarrow> (\<forall>i \<ge> n. tick_logs (env i) = [] \<and> tk_exit (env i))"

text \<open>The flag is not seen before.\<close>

definition no_exit_before :: "nat \<Rightarrow> (nat \<Rightarrow> log_tick) \<Rightarrow> bool" where
  "no_exit_before n env \<longleftrightarrow> (\<forall>i < n. \<not> tk_exit (env i))"

lemma realDoLogs_append: "realDoLogs L (xs @ ys) g = do { g1 \<leftarrow> realDoLogs L xs g; realDoLogs L ys g1 }"
  by (induction xs arbitrary: g) (auto split: bind_splits)

lemma realDoLogs_keeps: "realDoLogs L xs g = Some g' \<Longrightarrow> g_syncLog g' = g_syncLog g \<and> g_logList g' = g_logList g"
proof (induction xs arbitrary: g)
  case (Cons x xs)
  then show ?case by (auto split: bind_splits dest!: realDoLog_sync)
qed simp

text \<open>All entries from round \<open>i\<close> up to \<open>n\<close>.\<close>

definition logs_until :: "nat \<Rightarrow> nat \<Rightarrow> (nat \<Rightarrow> log_tick) \<Rightarrow> LogData list" where
  "logs_until i n env = concat (map (\<lambda>j. tick_logs (env j)) [i..<n])"

lemma logs_until_Suc: "i < n \<Longrightarrow> logs_until i n env = tick_logs (env i) @ logs_until (Suc i) n env"
  by (simp add: logs_until_def upt_conv_Cons)

lemma logThread_quiet:
  assumes "quiet_from n env" and "n \<le> i" and "realDoLogs L (g_logList g) (g\<lparr>g_logList := []\<rparr>) = Some g'"
  shows "logThreadEntry L env i g = Some (delete_logs g')"
proof (cases "g_logList g = []")
  case True
  then have "g\<lparr>g_logList := []\<rparr> = g" by (cases g) simp
  with assms True show ?thesis
    by (subst logThreadEntry.simps) (simp add: quiet_from_def tick_logs_def queue_logs_def delete_logs_def)
next
  case False
  have q: "tk_before (env j) = []" "tk_between (env j) = []" "tk_exit (env j)" if "j \<ge> i" for j
    using assms(1,2) that by (auto simp: quiet_from_def tick_logs_def)
  have "g_logList g' = []" using realDoLogs_keeps [OF assms(3)] by simp
  then have "logThreadEntry L env (Suc i) g' = Some (delete_logs g')"
    by (subst logThreadEntry.simps) (simp add: q queue_logs_def delete_logs_def)
  with assms(3) False show ?thesis
    by (subst logThreadEntry.simps) (simp add: q queue_logs_def Let_def)
qed

text \<open>The thread ends, and what it leaves is what writing every entry in order leaves.\<close>

lemma log_thread_writes_all:
  assumes "quiet_from n env" and "no_exit_before n env" and "i \<le> n"
    and "realDoLogs L (g_logList g @ logs_until i n env) (g\<lparr>g_logList := []\<rparr>) = Some g'"
  shows "logThreadEntry L env i g = Some (delete_logs g')"
  using assms(3,4)
proof (induction "n - i" arbitrary: i g)
  case 0
  then have "logs_until i n env = []" by (simp add: logs_until_def)
  with 0 logThread_quiet [OF assms(1), of i] show ?case by simp
next
  case (Suc k)
  then have i: "i < n" "\<not> tk_exit (env i)" using assms(2) by (auto simp: no_exit_before_def)
  let ?all = "g_logList g @ tk_before (env i)" and ?b = "tk_between (env i)"
  let ?rest = "logs_until (Suc i) n env"
  have e: "g_logList g @ logs_until i n env = ?all @ ?b @ ?rest" by (simp add: logs_until_Suc [OF i(1)] tick_logs_def)
  from Suc.prems(2) [unfolded e realDoLogs_append [of L ?all]] obtain g2 where g2: "realDoLogs L ?all (g\<lparr>g_logList := []\<rparr>) = Some g2"
    "realDoLogs L (?b @ ?rest) g2 = Some g'" by (auto split: bind_splits)
  have l2: "g_logList g2 = []" using realDoLogs_keeps [OF g2(1)] by simp
  then have "g2\<lparr>g_logList := []\<rparr> = g2" by (cases g2) simp
  then have ih: "logThreadEntry L env (Suc i) (g2\<lparr>g_logList := ?b\<rparr>) = Some (delete_logs g')"
    using Suc.hyps(2) i g2(2) by (intro Suc.hyps(1)) simp_all
  have w: "realDoLogs L ?all (g\<lparr>g_logList := ?b\<rparr>) = Some (g2\<lparr>g_logList := ?b\<rparr>)"
    using realDoLogs_frame(2) [where es = ?all and g = "g\<lparr>g_logList := []\<rparr>" and q = ?b and L = L] g2(1) by simp
  show ?case
  proof (cases "?all = []")
    case True
    then have "g2 = g\<lparr>g_logList := []\<rparr>" using g2(1) by simp
    with ih i True show ?thesis by (subst logThreadEntry.simps) (simp add: queue_logs_def Let_def)
  next
    case False
    with ih w show ?thesis by (subst logThreadEntry.simps) (auto simp: queue_logs_def Let_def)
  qed
qed

text \<open>So it leaves what the same entries leave when they are logged synchronously.\<close>

lemma log_thread_is_sync:
  assumes "\<not> g_syncLog g" and "quiet_from n env" and "no_exit_before n env"
    and "doLogs L (g_logList g @ logs_until 0 n env) (g\<lparr>g_syncLog := True, g_logList := []\<rparr>) = Some g1"
  shows "logThreadEntry L env 0 g = Some (delete_logs (g1\<lparr>g_syncLog := False\<rparr>))"
proof -
  let ?g = "g\<lparr>g_logList := []\<rparr>" and ?es = "g_logList g @ logs_until 0 n env"
  have "realDoLogs L ?es (?g\<lparr>g_syncLog := True\<rparr>) = Some g1"
    using assms(4) doLogs_sync [of "?g\<lparr>g_syncLog := True\<rparr>" L ?es] by (cases g) simp
  then obtain g' where g': "realDoLogs L ?es ?g = Some g'" "g1 = g'\<lparr>g_syncLog := True\<rparr>"
    unfolding realDoLogs_frame(1) by auto
  have "g1\<lparr>g_syncLog := False\<rparr> = g'" using realDoLogs_keeps [OF g'(1)] assms(1) g'(2) by (cases g') simp
  with log_thread_writes_all [OF assms(2,3) le0 g'(1)] show ?thesis by simp
qed

text \<open>An entry queued after an empty round took the queue, with the flag set right after it, stays in the
  queue when the thread ends.\<close>

lemma log_thread_loses_tail:
  assumes "g_logList g = []" and "env i = \<lparr>tk_before = [], tk_between = [x], tk_exit = True\<rparr>"
  shows "logThreadEntry L env i g = Some (delete_logs (g\<lparr>g_logList := [x]\<rparr>))"
  using assms by (subst logThreadEntry.simps) (simp add: queue_logs_def Let_def)

text \<open>Entries of one rolling log reach its files through the manager as they do directly.\<close>

lemma realDoLogs_roll:
  assumes "sm_find (g_logs g) (log_key n LogType_Roll) = Some l" and "write_all L es (l, g_disk g) = Some (l', d')"
    and "\<forall>e \<in> set es. ld_logName e = n \<and> ld_logType e = LogType_Roll"
  shows "\<exists>g'. realDoLogs L es g = Some g' \<and> g_disk g' = d' \<and> sm_find (g_logs g') (log_key n LogType_Roll) = Some l'"
  using assms
proof (induction es arbitrary: g l)
  case (Cons e es)
  obtain l1 d1 where w: "writeLog L e l (g_disk g) = Some (l1, d1)" "write_all L es (l1, d1) = Some (l', d')"
    using Cons.prems(2) by (cases "writeLog L e l (g_disk g)") auto
  let ?g = "g\<lparr>g_logs := sm_set (log_key n LogType_Roll) l1 (g_logs g), g_disk := d1\<rparr>"
  have "realDoLog L e g = Some ?g" using Cons.prems(1,3) w(1) by (simp add: realDoLog_def getLog_def)
  moreover have "\<exists>g'. realDoLogs L es ?g = Some g' \<and> g_disk g' = d' \<and> sm_find (g_logs g') (log_key n LogType_Roll) = Some l'"
    using Cons.prems(3) w(2) by (intro Cons.IH) simp_all
  ultimately show ?case by simp
qed simp

text \<open>No file is left open.\<close>

lemma delete_logs_closes: "(key, l) \<in> set (g_logs (delete_logs g)) \<Longrightarrow> m_fp l = None"
  by (auto simp: delete_logs_def destroy_LogBase_def)

section \<open>The stream of a thread\<close>

text \<open>\<open>getOss\<close> returns the one \<open>ostringstream\<close> of the thread. The constructor of an entry empties it and writes the
  head, the statement writes its pieces, the destructor adds the end of line and takes the whole text. A piece
  may itself be an entry, when what is streamed calls a function that logs.\<close>

datatype log_stmt = LogStmt string "log_piece list"
and log_piece = LogText string | LogNested log_stmt

text \<open>The text of the stream and the entries taken so far.\<close>

type_synonym oss = "string \<times> string list"

definition oss_begin :: "string \<Rightarrow> oss \<Rightarrow> oss" where
  "oss_begin head o1 = (head, snd o1)"

definition oss_write :: "string \<Rightarrow> oss \<Rightarrow> oss" where
  "oss_write s o1 = (fst o1 @ s, snd o1)"

definition oss_end :: "oss \<Rightarrow> oss" where
  "oss_end o1 = (let content = fst o1 @ [CHR 0x0A] in (content, snd o1 @ [content]))"

fun emit_stmt :: "log_stmt \<Rightarrow> oss \<Rightarrow> oss"
  and emit_piece :: "log_piece \<Rightarrow> oss \<Rightarrow> oss"
  and emit_pieces :: "log_piece list \<Rightarrow> oss \<Rightarrow> oss" where
  "emit_stmt (LogStmt head ps) o1 = oss_end (emit_pieces ps (oss_begin head o1))"
| "emit_piece (LogText s) o1 = oss_write s o1"
| "emit_piece (LogNested st) o1 = emit_stmt st o1"
| "emit_pieces [] o1 = o1"
| "emit_pieces (p # ps) o1 = emit_pieces ps (emit_piece p o1)"

lemma emit_texts: "emit_pieces (map LogText ts) o1 = oss_write (concat ts) o1"
  by (induction ts arbitrary: o1) (simp_all add: oss_write_def)

lemma emit_flat_one:
  "emit_stmt (LogStmt head (map LogText ts)) o1 =
     (head @ concat ts @ [CHR 0x0A], snd o1 @ [head @ concat ts @ [CHR 0x0A]])"
  by (simp add: emit_texts oss_end_def oss_write_def oss_begin_def Let_def)

text \<open>Entries that do not contain others come out whole and in order, whatever was left in the stream.\<close>

lemma emit_flat:
  "snd (fold (\<lambda>(head, ts). emit_stmt (LogStmt head (map LogText ts))) es o1) =
     snd o1 @ map (\<lambda>(head, ts). head @ concat ts @ [CHR 0x0A]) es"
  by (induction es arbitrary: o1) (auto simp: emit_flat_one simp del: emit_stmt.simps)

text \<open>An entry inside another one empties the stream they share: the outer entry loses its head and what it had
  written, and repeats the inner one.\<close>

lemma emit_nested:
  "emit_stmt (LogStmt h [LogText a, LogNested (LogStmt h' [LogText b]), LogText c]) o1 =
     (let inner = h' @ b @ [CHR 0x0A] in (inner @ c @ [CHR 0x0A], snd o1 @ [inner, inner @ c @ [CHR 0x0A]]))"
  by (simp add: oss_begin_def oss_write_def oss_end_def Let_def)

text \<open>The head of a \<open>RollDayStream\<close>, which has no mark of the framework.\<close>

definition rollday_head ::
  "libc_time \<Rightarrow> u64 \<Rightarrow> string \<Rightarrow> LogLevel \<Rightarrow> string \<Rightarrow> int \<Rightarrow> string \<Rightarrow> LogThread \<Rightarrow> (u32 \<times> string) \<times> LogThread" where
  "rollday_head L nowUs tid level fileName line func t =
     (let logTime = ucast (nowUs div 1000000); us = ucast (nowUs mod 1000000); t1 = prepareTimeStr L logTime t in
      ((logTime, t_timeStr t1 @ format_us us @ ''|'' @ tid @ ''|'' @ level_name level @
          briefLogFileName fileName @ ''('' @ tostr_int line @ ''):'' @ func @ ''|''), t1))"

lemma rollday_head_eq: "rollday_head L nowUs tid level fileName line func t = full_head L nowUs tid level False fileName line func t"
  by (simp add: rollday_head_def full_head_def plain_head_def Let_def)

text \<open>The macros \<open>DAY_LOG\<close> and \<open>HOUR_LOG\<close>, which have no level.\<close>

definition dated_log :: "LogType \<Rightarrow> libc_time \<Rightarrow> string \<Rightarrow> u64 \<Rightarrow> string \<Rightarrow> LogThread \<times> LogManager \<Rightarrow> (LogThread \<times> LogManager) option" where
  "dated_log ty L file nowUs msg tg =
     (case tg of (t, g) \<Rightarrow>
        case plain_head L nowUs t of
          ((logTime, head), t1) \<Rightarrow> map_option (\<lambda>g1. (t1, g1)) (LogStream_end L file ty logTime (head @ msg) g))"

definition DAY_LOG :: "libc_time \<Rightarrow> string \<Rightarrow> u64 \<Rightarrow> string \<Rightarrow> LogThread \<times> LogManager \<Rightarrow> (LogThread \<times> LogManager) option" where
  "DAY_LOG = dated_log LogType_Day"

definition HOUR_LOG :: "libc_time \<Rightarrow> string \<Rightarrow> u64 \<Rightarrow> string \<Rightarrow> LogThread \<times> LogManager \<Rightarrow> (LogThread \<times> LogManager) option" where
  "HOUR_LOG = dated_log LogType_Hour"

end
