(* ===== verification/Util_Iconv.thy ===== *)
theory Util_Iconv
  imports Util_String
begin

text \<open>
  The functions of \<open>source/util/util_string.cpp\<close> that stand on libc's conversions: \<open>str_iconv\<close> with
  \<open>gbk2utf8\<close> and \<open>utf82gbk\<close>, and \<open>format\<close>. What \<open>iconv\<close> and \<open>vsnprintf\<close> produce is an argument; the
  sizes of the buffers, the errors and the descriptor of the conversion are the code's.

  \<open>str_iconv_ok\<close>: on every path the descriptor is closed again, and the result is the whole
  converted text or an error. \<open>gbk2utf8_ok\<close>, \<open>utf82gbk_ok\<close>: their buffers are always large enough.
  \<open>format_ok\<close>: \<open>format\<close> is right for results of less than 16 bytes, and undefined above, where it uses
  its argument list a second time.
\<close>

section \<open>Character sets\<close>

text \<open>\<open>ic_open\<close>: whether the pair of character sets is known. \<open>ic_convert\<close>: the text converted up to the first
  byte that cannot be, and the error there, if any.\<close>

record iconv_lib =
  ic_open :: "string \<Rightarrow> string \<Rightarrow> bool"
  ic_convert :: "string \<Rightarrow> string \<Rightarrow> string \<Rightarrow> string \<times> string option"

definition E2BIG_text :: string where
  "E2BIG_text = ''Argument list too long''"

text \<open>\<open>iconv\<close> writes from the front, so it fails with \<open>E2BIG\<close> when what can be converted does not fit. The
  second result counts the descriptors that are open.\<close>

definition iconv_into :: "string \<times> string option \<Rightarrow> nat \<Rightarrow> string throws" where
  "iconv_into conv room =
     (case conv of (r, e) \<Rightarrow>
        if room < length r then Inl E2BIG_text else case e of Some e \<Rightarrow> Inl e | None \<Rightarrow> Inr r)"

definition str_iconv :: "iconv_lib \<Rightarrow> string \<Rightarrow> string \<Rightarrow> string \<Rightarrow> u32 \<Rightarrow> nat \<Rightarrow> string throws \<times> nat" where
  "str_iconv I s tocode fromcode iResultSize cds =
     (if \<not> ic_open I tocode fromcode then (Inl ''iconv_open'', cds)
      else
        let cds1 = cds + 1 in
        case iconv_into (ic_convert I tocode fromcode s) (unat iResultSize) of
          Inl e \<Rightarrow> (let cds2 = cds1 - 1 in (Inl (''iconv: '' @ e), cds2))
        | Inr r \<Rightarrow> (let cds2 = cds1 - 1 in (Inr r, cds2)))"

definition gbk2utf8 :: "iconv_lib \<Rightarrow> string \<Rightarrow> nat \<Rightarrow> string throws \<times> nat" where
  "gbk2utf8 I s = str_iconv I s ''UTF-8'' ''GBK'' (word_of_nat (length s * 3 div 2 + 1))"

definition utf82gbk :: "iconv_lib \<Rightarrow> string \<Rightarrow> nat \<Rightarrow> string throws \<times> nat" where
  "utf82gbk I s = str_iconv I s ''GBK'' ''UTF-8'' (word_of_nat (length s))"

lemma str_iconv_ok:
  assumes "str_iconv I s t f n cds = (r, cds')"
  shows "cds' = cds" and "r = Inr u \<Longrightarrow> ic_open I t f \<and> ic_convert I t f s = (u, None) \<and> length u \<le> unat n"
  using assms by (auto simp: str_iconv_def iconv_into_def Let_def split: if_splits sum.splits prod.splits option.splits)

text \<open>One or two bytes of GBK are one to three bytes of UTF-8, never more than one and a half times as many; a character
  of UTF-8 has at least as many bytes as in GBK.\<close>

definition gbk_widths :: "iconv_lib \<Rightarrow> bool" where
  "gbk_widths I \<longleftrightarrow>
     (\<forall>s. length (fst (ic_convert I ''UTF-8'' ''GBK'' s)) \<le> length s * 3 div 2) \<and>
     (\<forall>s. length (fst (ic_convert I ''GBK'' ''UTF-8'' s)) \<le> length s)"

lemma unat_size: "n < 2 ^ 32 \<Longrightarrow> unat (word_of_nat n :: u32) = n"
  by (simp add: unat_of_nat take_bit_nat_eq_self)

text \<open>So neither conversion fails for want of room, up to the sizes that 32 bits can count.\<close>

definition iconv_result :: "string \<times> string option \<Rightarrow> string throws" where
  "iconv_result conv = (case snd conv of None \<Rightarrow> Inr (fst conv) | Some e \<Rightarrow> Inl (''iconv: '' @ e))"

lemma str_iconv_room:
  assumes "ic_open I t f" and "length (fst (ic_convert I t f s)) \<le> n" and "n < 2 ^ 32"
  shows "str_iconv I s t f (word_of_nat n) cds = (iconv_result (ic_convert I t f s), cds)"
  using assms(1,2) by (auto simp: str_iconv_def iconv_into_def iconv_result_def unat_size [OF assms(3)] split: prod.splits option.splits)

lemma gbk2utf8_ok:
  assumes "gbk_widths I" and "ic_open I ''UTF-8'' ''GBK''" and "length s * 3 div 2 + 1 < 2 ^ 32"
  shows "gbk2utf8 I s cds = (iconv_result (ic_convert I ''UTF-8'' ''GBK'' s), cds)"
proof -
  have "length (fst (ic_convert I ''UTF-8'' ''GBK'' s)) \<le> length s * 3 div 2 + 1"
    using assms(1) by (auto simp: gbk_widths_def intro: le_SucI)
  then show ?thesis unfolding gbk2utf8_def by (rule str_iconv_room [OF assms(2) _ assms(3)])
qed

lemma utf82gbk_ok:
  assumes "gbk_widths I" and "ic_open I ''GBK'' ''UTF-8''" and "length s < 2 ^ 32"
  shows "utf82gbk I s cds = (iconv_result (ic_convert I ''GBK'' ''UTF-8'' s), cds)"
proof -
  have "length (fst (ic_convert I ''GBK'' ''UTF-8'' s)) \<le> length s" using assms(1) by (simp add: gbk_widths_def)
  then show ?thesis unfolding utf82gbk_def by (rule str_iconv_room [OF assms(2) _ assms(3)])
qed

section \<open>Formatting\<close>

text \<open>The first call of \<open>vsnprintf\<close> fills a buffer of 16 bytes and returns the length of the whole text
  (\<open>None\<close>: a negative result). The second call gets the argument list the first one has used up, which C
  leaves undefined.\<close>

definition vsnprintf_buf :: "nat \<Rightarrow> string \<Rightarrow> string" where
  "vsnprintf_buf room text = take (room - 1) text"

definition str_format :: "string option \<Rightarrow> string option" where
  "str_format rendered =
     (case rendered of
        None \<Rightarrow> Some []
      | Some text \<Rightarrow>
          let n = length text; buf = vsnprintf_buf 16 text in
          if n < 16 then Some (take n buf) else None)"

lemma format_ok: "length text < 16 \<Longrightarrow> str_format (Some text) = Some text"
  by (simp add: str_format_def vsnprintf_buf_def)

lemma format_long: "16 \<le> length text \<Longrightarrow> str_format (Some text) = None"
  by (simp add: str_format_def Let_def)

definition getEmptyString :: string where
  "getEmptyString = []"

end
