(* ===== verification/Rpc_Echo.thy ===== *)
theory Rpc_Echo
  imports Rpc_Generator
begin

text \<open>
  The second interface in the repository, \<open>example/protocol/echo.rpc\<close>, which has one function, no
  \<open>using namespace\<close> and no namespace: the generator writes \<open>example/protocol/echo.cpp\<close> and \<open>echo.h\<close> as they are
  checked in (\<open>echo_printed\<close>).
\<close>

section \<open>The files\<close>

definition echo_cpp :: "string list" where
  "echo_cpp =
     [notice,
      ''#include '' @ dquote @ ''echo.h'' @ dquote,
      [],
      [],
      ''using namespace storm;'',
      [],
      ''int32_t EchoService::onRpcRequest(const storm::Connection& conn, const storm::RpcRequest& req, storm::RpcResponse& resp) {'',
      tab 1 @ ''int32_t ret = 0;'',
      tab 1 @ ''switch (req.proto_id()) {'',
      tab 2 @ ''case 1:'',
      tab 2 @ ''{'',
      tab 3 @ ''EchoReq __request;'',
      tab 3 @ ''EchoAck __response;'',
      tab 3 @ ''if (!__request.ParseFromString(req.request())) {'',
      tab 4 @ ''STORM_ERROR << '' @ dquote @ ''error'' @ dquote @ '';'',
      tab 4 @ ''return ResponseStatus_CoderError;'',
      tab 3 @ ''}'',
      tab 3 @ ''ret = Echo(conn, __request, __response);'',
      tab 3 @ ''if (req.invoke_type() != InvokeType_OneWay) {'',
      tab 4 @ ''if (!__response.SerializeToString(resp.mutable_response())) {'',
      tab 5 @ ''STORM_ERROR << '' @ dquote @ ''error'' @ dquote @ ''; '',
      tab 5 @ ''return ResponseStatus_CoderError;'',
      tab 4 @ ''}'',
      tab 3 @ ''}'',
      tab 3 @ ''break;'',
      tab 2 @ ''}'',
      tab 2 @ ''default:'',
      tab 3 @ ''return ResponseStatus_NoProtoId;'',
      tab 1 @ ''}'',
      [],
      tab 1 @ ''return ret;'',
      ''}'',
      [],
      ''void EchoServiceProxyCallBack::dispatch(storm::RequestMessage* req) {'',
      tab 1 @ ''uint32_t protoId = req->req.proto_id();'',
      tab 1 @ ''switch (protoId) {'',
      tab 2 @ ''case 1:'',
      tab 2 @ ''{'',
      tab 3 @ ''EchoAck __response;'',
      tab 3 @ ''int32_t ret = decodeResponse(req, __response);'',
      tab 3 @ ''callback_Echo(ret, __response);'',
      tab 3 @ ''break;'',
      tab 2 @ ''}'',
      tab 2 @ ''default:'',
      tab 2 @ ''{'',
      tab 3 @ ''STORM_ERROR << '' @ dquote @ ''unkown protoId '' @ dquote @ '' << protoId;'',
      tab 2 @ ''}'',
      tab 1 @ ''}'',
      tab 1 @ ''storm::ServiceProxy::delRequest(req);'',
      ''}'',
      [],
      ''int32_t EchoServiceProxy::Echo(const EchoReq& request, EchoAck& response) {'',
      tab 1 @ ''storm::RequestMessage* message = newRequest(InvokeType_Sync);'',
      tab 1 @ ''message->req.set_proto_id(1);'',
      tab 1 @ ''request.SerializeToString(message->req.mutable_request());'',
      [],
      tab 1 @ ''doInvoke(message);'',
      tab 1 @ ''int32_t ret = decodeResponse(message, response);'',
      [],
      tab 1 @ ''delRequest(message);'',
      tab 1 @ ''return ret;'',
      ''}'',
      [],
      ''void EchoServiceProxy::async_Echo(EchoServiceProxyCallBack* cb, const EchoReq& request, bool broadcast) {'',
      tab 1 @ ''storm::RequestMessage* message = newRequest(InvokeType_Async, cb, broadcast);'',
      tab 1 @ ''uint32_t invokeType = message->invokeType;'',
      tab 1 @ ''message->req.set_proto_id(1);'',
      tab 1 @ ''request.SerializeToString(message->req.mutable_request());'',
      [],
      tab 1 @ ''doInvoke(message);'',
      [],
      tab 1 @ ''if (invokeType == InvokeType_OneWay) {'',
      tab 2 @ ''delRequest(message);'',
      tab 1 @ ''}'',
      ''}'']"

definition echo_h :: "string list" where
  "echo_h =
     [notice,
      ''#ifndef _STORM_RPC_ECHO_H_'',
      ''#define _STORM_RPC_ECHO_H_'',
      [],
      ''#include '' @ dquote @ ''framework/storm_service.h'' @ dquote,
      ''#include '' @ dquote @ ''framework/storm_service_proxy.h'' @ dquote,
      [],
      ''#include '' @ dquote @ ''echo.pb.h'' @ dquote,
      [],
      [],
      ''class EchoService : public storm::StormService {'',
      ''public:'',
      tab 1 @ ''EchoService(storm::SocketLoop* loop, storm::StormListener* listener)'',
      tab 2 @ '':storm::StormService(loop, listener) {'',
      tab 1 @ ''}'',
      tab 1 @ ''virtual ~EchoService(){}'',
      [],
      tab 1 @ ''virtual int32_t onRpcRequest(const storm::Connection& conn, const storm::RpcRequest& req, storm::RpcResponse& resp);'',
      [],
      tab 1 @ ''virtual int32_t Echo(const storm::Connection& conn, const EchoReq& req, EchoAck& ack) {return 0;}'',
      ''};'',
      [],
      ''class EchoServiceProxyCallBack : public storm::ServiceProxyCallBack {'',
      ''public:'',
      tab 1 @ ''virtual ~EchoServiceProxyCallBack(){}'',
      [],
      tab 1 @ ''virtual void dispatch(storm::RequestMessage* req);'',
      [],
      tab 1 @ ''virtual void callback_Echo(int32_t ret, const EchoAck& ack) {'',
      tab 2 @ ''throw std::runtime_error('' @ dquote @ ''no implement callback_Echo'' @ dquote @ '');'',
      tab 1 @ ''};'',
      ''};'',
      [],
      ''class EchoServiceProxy : public storm::ServiceProxy {'',
      ''public:'',
      tab 1 @ ''virtual ~EchoServiceProxy(){}'',
      [],
      tab 1 @ ''EchoServiceProxy* hash(uint64_t code) {'',
      tab 2 @ ''storm::ServiceProxy::hash(code);'',
      tab 2 @ ''return this;'',
      tab 1 @ ''}'',
      [],
      tab 1 @ ''int32_t Echo(const EchoReq& req, EchoAck& ack);'',
      tab 1 @ ''void async_Echo(EchoServiceProxyCallBack* cb, const EchoReq& req, bool broadcast = false);'',
      ''};'',
      [],
      ''#endif'']"

section \<open>What the generator writes\<close>

text \<open>\<open>example/protocol/echo.rpc\<close>, as the actions the parser calls for it.\<close>

definition echo_rpc :: "Parser throws" where
  "echo_rpc =
     map_sum id (\<lambda>p. run_fileName ''protocol/echo.rpc'' (end_service p))
       (addNewFunction (rpc_function ''Echo'' ''EchoReq'' ''EchoAck'' 1)
         (addNewService_rpc ''EchoService'' (addInclude ''echo.proto'' new_Parser)))"

lemma echo_rpc_parser:
  "echo_rpc = Inr \<lparr>ps_fileName = ''echo'', ps_nameSpace = [], ps_includes = [''echo.proto''], ps_usingNameSpace = [],
     ps_services = [\<lparr>sv_name = ''EchoService'', sv_functions = [rpc_function ''Echo'' ''EchoReq'' ''EchoAck'' 1]\<rparr>],
     ps_curService = None\<rparr>"
  by code_simp

lemma echo_source: "\<exists>p. echo_rpc = Inr p \<and> generatorSource p = unlines echo_cpp"
  by (simp add: echo_rpc_parser generatorSource_def printServiceSource_def echo_cpp_def source_case_def source_dispatch_def
      source_stubs_def rpc_function_def tostr_3)

lemma echo_head: "\<exists>p. echo_rpc = Inr p \<and> generatorHead p = unlines echo_h"
proof -
  have "replaceFileExt ''echo.proto'' ''.pb.h'' True = ''echo.pb.h''" by code_simp
  moreover have "toupper ''echo'' = ''ECHO''" by code_simp
  ultimately show ?thesis
    by (simp add: echo_rpc_parser generatorHead_def printHead_def printTail_def printServiceHead_def echo_h_def head_method_def
        head_callback_def head_stub_def rpc_function_def)
qed

lemma echo_printed:
  "\<exists>p. echo_rpc = Inr p \<and>
    generator K p fs = saveToFile K ''echo.cpp'' (unlines echo_cpp) (saveToFile K ''echo.h'' (unlines echo_h) fs)"
proof -
  obtain p where p: "echo_rpc = Inr p" "ps_fileName p = ''echo''"
    by (rule that [OF echo_rpc_parser]) simp
  have "generatorSource p = unlines echo_cpp" "generatorHead p = unlines echo_h"
    using echo_source echo_head p(1) by (metis sum.inject(2))+
  then show ?thesis using p by (intro exI [of _ p]) (simp add: generator_def)
qed

end
