(* ===== verification/Echo_Example.thy ===== *)
theory Echo_Example
  imports Registry_Rpc Storm_Server
begin

text \<open>
  The example of the repository: the stubs \<open>example/protocol/echo.cpp\<close>, the service
  \<open>example/Server/echo_service.cpp\<close>, and what \<open>Server.cpp\<close> and \<open>Client.cpp\<close> do with the framework. The
  server stub and the client stub are instances of the ones in \<open>Registry_Rpc\<close>.

  \<open>remote_Echo\<close> follows a call from the client's stub to the service and back; \<open>echo_reports_all\<close>:
  the service counts every call in exactly one report; \<open>EchoServer_init_ok\<close>: what the server has after
  its \<open>init\<close>.
\<close>

section \<open>Messages\<close>

text \<open>The fields are optional; reading one that is not set gives the empty string.\<close>

record EchoReq =
  eq_msg :: "string option"

record EchoAck =
  ea_msg :: "string option"

definition get_msg :: "EchoReq \<Rightarrow> string" where
  "get_msg req = (case eq_msg req of None \<Rightarrow> [] | Some s \<Rightarrow> s)"

record echo_codec =
  ec_Req :: "EchoReq msg_codec"
  ec_Ack :: "EchoAck msg_codec"

definition echo_codec_ok :: "echo_codec \<Rightarrow> bool" where
  "echo_codec_ok E \<longleftrightarrow> msg_ok (ec_Req E) \<and> msg_ok (ec_Ack E)"

section \<open>The server\<close>

definition Echo_onRpcRequest :: "echo_codec \<Rightarrow> (EchoReq, EchoAck, 'a) rpc_handler \<Rightarrow> 'a rpc_method" where
  "Echo_onRpcRequest E Echo conn req resp a =
     (if rq_proto_id req = 1 then rpc_case (ec_Req E) (ec_Ack E) Echo conn req resp a
      else ((status_code ResponseStatus_NoProtoId, resp), a))"

text \<open>The statics of the service. A report is the entry it logs, with the two numbers it divides.\<close>

record echo_state =
  es_count :: u32
  es_lastTime :: u64
  es_reports :: "(u32 \<times> u64) list"

definition EchoServiceImp_Echo :: "u64 \<Rightarrow> (EchoReq, EchoAck, echo_state) rpc_handler" where
  "EchoServiceImp_Echo now conn req st =
     (let ack = \<lparr>ea_msg = Some (get_msg req)\<rparr>; st1 = st\<lparr>es_count := es_count st + 1\<rparr> in
      ((0, ack),
       if now - es_lastTime st1 \<ge> 3000 then
         st1\<lparr>es_reports := es_reports st1 @ [(es_count st1, now - es_lastTime st1)], es_count := 0, es_lastTime := now\<rparr>
       else st1))"

text \<open>\<open>Server::init\<close>.\<close>

definition EchoServer_init :: "'c StormServer \<Rightarrow> (bool \<times> 'c StormServer) throws" where
  "EchoServer_init s =
     (case addService ''TestService'' None s of
        Inl e \<Rightarrow> Inl e
      | Inr s1 \<Rightarrow> (case addService ''EchoService'' None s1 of Inl e \<Rightarrow> Inl e | Inr s2 \<Rightarrow> Inr (True, s2)))"

section \<open>The client\<close>

definition sync_Echo :: "echo_codec \<Rightarrow> rpc_codec \<Rightarrow> EchoReq \<Rightarrow> nat \<Rightarrow> ServiceProxy \<Rightarrow> (bool \<times> ServiceProxy) option" where
  "sync_Echo E C = stub_sync C 1 (ec_Req E)"

definition async_Echo :: "echo_codec \<Rightarrow> rpc_codec \<Rightarrow> nat option \<Rightarrow> EchoReq \<Rightarrow> bool \<Rightarrow> nat \<Rightarrow> ServiceProxy \<Rightarrow> (bool \<times> ServiceProxy) option" where
  "async_Echo E C = stub_async C 1 (ec_Req E)"

datatype echo_callback = callback_Echo int "EchoAck option" | callback_unkown_proto

definition Echo_dispatch :: "echo_codec \<Rightarrow> RequestMessage \<Rightarrow> echo_callback option" where
  "Echo_dispatch E req =
     (let protoId = rq_proto_id (rm_req req) in
      if protoId = 1 then map_option (\<lambda>(ret, ack). callback_Echo ret ack) (decodeResponse (ParseFromString (ec_Ack E)) req)
      else Some callback_unkown_proto)"

definition EchoClient_init ::
  "('c \<Rightarrow> 'c \<Rightarrow> bool) \<Rightarrow> 'c \<Rightarrow> registry_query \<Rightarrow> u32 \<Rightarrow> u64 \<Rightarrow> 'c StormServer \<Rightarrow> (nat option \<times> 'c StormServer) option" where
  "EchoClient_init isa EchoServiceProxy ask tid now s = do {
     (g_proxy, pm) \<leftarrow> stringToProxy isa EchoServiceProxy ask tid now ''Storm.Server.EchoService'' ''global'' (m_proxyMgr s);
     Some (g_proxy, setLoopInterval 2000 (s\<lparr>m_proxyMgr := pm\<rparr>))
   }"

text \<open>One round of \<open>Client::mainLoop\<close>: the call, and the entry for its answer (\<open>show\<close> is
  \<open>Utf8DebugString\<close>; an answer that was not decoded is the message as it was constructed).\<close>

definition EchoClient_call :: "echo_codec \<Rightarrow> rpc_codec \<Rightarrow> nat \<Rightarrow> ServiceProxy \<Rightarrow> (bool \<times> ServiceProxy) option" where
  "EchoClient_call E C m px = sync_Echo E C \<lparr>eq_msg = Some ''Hello''\<rparr> m px"

definition EchoClient_logs :: "(EchoAck \<Rightarrow> string) \<Rightarrow> int \<times> EchoAck option \<Rightarrow> string list" where
  "EchoClient_logs utf8 res =
     (case res of (ret, ack) \<Rightarrow>
        if ret = 0 then [''ack: '' @ utf8 (case ack of None \<Rightarrow> \<lparr>ea_msg = None\<rparr> | Some a \<Rightarrow> a)] else [])"

section \<open>A call and back\<close>

lemma echo_stub: "stub_for (Echo_onRpcRequest E h) 1 (ec_Req E) (ec_Ack E) h"
  by (simp add: stub_for_def Echo_onRpcRequest_def)

lemma echo_unknown:
  "rq_proto_id req \<noteq> 1 \<Longrightarrow> Echo_onRpcRequest E h conn req resp a = ((status_code ResponseStatus_NoProtoId, resp), a)"
  by (simp add: Echo_onRpcRequest_def)

lemma remote_Echo:
  fixes C E m px req
  defines "pre \<equiv> set_msg m (stub_message 1 (ec_Req E) req (newRequest InvokeType_Sync None False (px_tid px))) px"
  assumes "codec_ok C" and "echo_codec_ok E" and "next_ep px = Some e" and "ep_chan cid e px" and "ep_ready N px"
    and "length (ser_req C (sent_request m pre)) + 4 \<le> N"
    and "\<forall>body. SerializeToString (ec_Ack E) \<lparr>ea_msg = Some (get_msg req)\<rparr> = Some body \<longrightarrow>
      length (ser_resp C (rpc_answer (sent_request m pre) body)) + 4 \<le> 2 ^ 31"
  obtains w px1 answer where "sync_Echo E C req m px = Some (w, px1)"
    "ep_bytes e px1 = ep_bytes e px @ len_frame (ser_req C (sent_request m pre))"
    "svc_onRequest C (Echo_onRpcRequest E (EchoServiceImp_Echo now)) conn (ser_req C (sent_request m pre)) st =
       Some ([NetSend (conn_id conn) (len_frame answer)], snd (EchoServiceImp_Echo now conn req st))"
    "decodeResponse (ParseFromString (ec_Ack E)) (px_msgs (proxy_onPacket C answer px1) m) = Some (0, Some \<lparr>ea_msg = Some (get_msg req)\<rparr>)"
    "finished (proxy_onPacket C answer px1) = finished px @ [m]" "rm_back (px_msgs (proxy_onPacket C answer px1) m)"
proof -
  let ?pre = "pre" and ?h = "EchoServiceImp_Echo now"
  have E: "msg_ok (ec_Req E)" "msg_ok (ec_Ack E)" using assms(3) by (simp_all add: echo_codec_ok_def)
  have h: "?h conn req st = ((0, \<lparr>ea_msg = Some (get_msg req)\<rparr>), snd (?h conn req st))"
    by (simp add: EchoServiceImp_Echo_def Let_def)
  have p: "next_ep ?pre = Some e" "ep_chan cid e ?pre" "ep_ready N ?pre" "finished ?pre = finished px" "ep_bytes e ?pre = ep_bytes e px"
    using assms(4-6) by (simp_all add: pre_def)
  have m: "px_msgs ?pre m = stub_message 1 (ec_Req E) req (newRequest InvokeType_Sync None False (px_tid px))"
    by (simp add: pre_def set_msg_def)
  obtain w px1 answer where c: "doInvoke C m ?pre = Some (w, px1)"
    "ep_bytes e px1 = ep_bytes e ?pre @ len_frame (ser_req C (sent_request m ?pre))"
    "svc_onRequest C (Echo_onRpcRequest E ?h) conn (ser_req C (sent_request m ?pre)) st =
       Some ([NetSend (conn_id conn) (len_frame answer)], snd (?h conn req st))"
    "decodeResponse (ParseFromString (ec_Ack E)) (px_msgs (proxy_onPacket C answer px1) m) = Some (0, Some \<lparr>ea_msg = Some (get_msg req)\<rparr>)"
    "finished (proxy_onPacket C answer px1) = finished ?pre @ [m]"
    "rm_invokeType (px_msgs px1 m) = rm_invokeType (newRequest InvokeType_Sync None False (px_tid px))" "finished px1 = finished ?pre"
    using assms(7,8) by - (rule call_returns [OF assms(2) E echo_stub [of E ?h] m _ p(1-3) _ _ h], simp_all)
  have "sync_Echo E C req m px = Some (w, px1)" using c(1) by (simp add: sync_Echo_def stub_sync_def pre_def)
  moreover have "rm_back (px_msgs (proxy_onPacket C answer px1) m)"
    by (rule finished_wakes) (simp_all add: c(5-7) newRequest_def)
  ultimately show thesis using that [of w px1 answer] c(2-5) p(4,5) by simp
qed

section \<open>The counter of the service\<close>

fun echo_calls :: "Connection \<Rightarrow> (u64 \<times> EchoReq) list \<Rightarrow> echo_state \<Rightarrow> echo_state" where
  "echo_calls conn [] st = st"
| "echo_calls conn ((now, req) # cs) st = echo_calls conn cs (snd (EchoServiceImp_Echo now conn req st))"

definition counted :: "echo_state \<Rightarrow> u32" where
  "counted st = sum_list (map fst (es_reports st)) + es_count st"

lemma echo_counted: "counted (snd (EchoServiceImp_Echo now conn req st)) = counted st + 1"
  by (simp add: EchoServiceImp_Echo_def counted_def Let_def)

text \<open>Modulo the width of the counter, every call is in one report or still counted.\<close>

lemma echo_reports_all: "counted (echo_calls conn cs st) = counted st + word_of_nat (length cs)"
  by (induction conn cs st rule: echo_calls.induct) (simp_all add: echo_counted)

section \<open>The server's services\<close>

lemma EchoServer_init_ok:
  fixes s :: "'c StormServer"
  assumes "sm_find (services (m_serverCfg s)) ''TestService'' = Some c1" "sc_name c1 = ''TestService''"
    and "sm_find (services (m_serverCfg s)) ''EchoService'' = Some c2" "sc_name c2 = ''EchoService''"
  shows "\<exists>s'. EchoServer_init s = Inr (True, s') \<and> sm_find (m_listeners s') ''TestService'' \<noteq> None \<and>
    sm_find (m_listeners s') ''EchoService'' \<noteq> None"
proof -
  obtain s1 where s1: "addService ''TestService'' None s = Inr s1" using assms(1) by (simp add: addService_def)
  obtain l1 where l1: "sm_find (m_listeners s1) ''TestService'' = Some l1" using addService_ok(1) [OF assms(1,2) s1] by blast
  have "m_serverCfg s1 = m_serverCfg s"
    using s1 assms(1) by (auto simp: new_services addService_def addService_cfg_def Let_def update_listener_def split: option.splits)
  then have c2: "sm_find (services (m_serverCfg s1)) ''EchoService'' = Some c2" using assms(3) by simp
  then obtain s2 where s2: "addService ''EchoService'' None s1 = Inr s2" by (simp add: addService_def)
  obtain l2 where l2: "sm_find (m_listeners s2) ''EchoService'' = Some l2" using addService_ok(1) [OF c2 assms(4) s2] by blast
  have "sm_find (m_listeners s2) ''TestService'' = Some l1" using addService_ok(7) [OF c2 assms(4) s2, of "''TestService''"] l1 by simp
  then show ?thesis using s1 s2 l2 by (simp add: EchoServer_init_def)
qed

end
