(* ===== verification/Storm_Lifetime.thy ===== *)
theory Storm_Lifetime
  imports Storm_Server Storm_Proxy_Endpoints
begin

text \<open>
  The destructors of \<open>framework/storm_server.cpp\<close>, \<open>storm_proxy_manager.cpp\<close> and
  \<open>storm_service_proxy.cpp\<close>, and \<open>ServiceProxy::delRequest\<close>: which objects each of them deletes, in order.

  \<open>server_deletes_once\<close>, \<open>manager_deletes_once\<close>: no object is deleted twice. \<open>net_service_kept\<close>: a service
  of the network thread is never deleted. \<open>pending_callback_kept\<close>: of a request that is still pending
  the message is deleted, not its callback.
\<close>

section \<open>What is deleted\<close>

text \<open>Endpoints and messages are identities within their proxy.\<close>

datatype heap_object =
    H_Loop | H_Service nat | H_Listener string
  | H_Proxy nat | H_EndPoint nat nat | H_Message nat nat | H_CallBack nat | H_Response nat nat

definition destroy_StormServer :: "'c StormServer \<Rightarrow> heap_object list" where
  "destroy_StormServer s =
     H_Loop # map H_Service (m_mainThreadServices s) @ map H_Service (m_extraThreadServices s) @
       map (\<lambda>(key, l). H_Listener key) (m_listeners s)"

definition destroy_ServiceProxy :: "nat \<Rightarrow> ServiceProxy \<Rightarrow> heap_object list" where
  "destroy_ServiceProxy p px =
     map (H_EndPoint p) (m_activeEndPoints px) @ map (H_EndPoint p) (m_inactiveEndPoints px) @
       map (\<lambda>(i, m). H_Message p m) (m_reqMessages px)"

text \<open>Deleting a proxy runs its destructor. \<open>None\<close>: an object that is not there any more.\<close>

fun destroy_proxys :: "(string \<times> nat) list \<Rightarrow> 'c ServiceProxyManager \<Rightarrow> heap_object list option" where
  "destroy_proxys [] pm = Some []"
| "destroy_proxys ((key, p) # ps) pm = do {
     ob \<leftarrow> pm_store pm p;
     rest \<leftarrow> destroy_proxys ps pm;
     Some (destroy_ServiceProxy p (po_proxy ob) @ [H_Proxy p] @ rest)
   }"

definition destroy_ServiceProxyManager :: "'c ServiceProxyManager \<Rightarrow> heap_object list option" where
  "destroy_ServiceProxyManager pm = destroy_proxys (m_proxys pm) pm"

text \<open>\<open>delRequest\<close> of the message \<open>m\<close> of the proxy \<open>p\<close>.\<close>

definition delRequest :: "nat \<Rightarrow> nat \<Rightarrow> RequestMessage \<Rightarrow> heap_object list" where
  "delRequest p m msg =
     (case rm_cb msg of None \<Rightarrow> [] | Some cb \<Rightarrow> [H_CallBack cb]) @
     (case rm_resp msg of None \<Rightarrow> [] | Some r \<Rightarrow> [H_Response p m]) @ [H_Message p m]"

section \<open>The server\<close>

definition services_ok :: "'c StormServer \<Rightarrow> bool" where
  "services_ok s \<longleftrightarrow> distinct (m_mainThreadServices s @ m_extraThreadServices s) \<and>
     (\<forall>i \<in> set (m_mainThreadServices s @ m_extraThreadServices s). i < sv_fresh s) \<and> sm_wf (m_listeners s)"

lemma new_StormServer_ok: "services_ok (new_StormServer now upd sc cc g)"
  by (simp add: services_ok_def new_StormServer_def sm_wf_def)

lemma update_listener_ok: "services_ok s \<Longrightarrow> services_ok (update_listener key f s)"
  by (auto simp: services_ok_def update_listener_def split: option.splits)

lemma new_service_ok: "services_ok s \<Longrightarrow> services_ok (new_service key cfg s)"
  by (fastforce simp: services_ok_def new_service_def Let_def less_Suc_eq)

lemma new_services_ok: "services_ok s \<Longrightarrow> services_ok ((new_service key cfg ^^ n) s)"
  by (induction n) (simp_all add: new_service_ok)

lemma addService_keeps:
  assumes "services_ok s" and "addService name parser s = Inr s'"
  shows "services_ok s'"
proof -
  obtain cfg where s': "s' = addService_cfg cfg parser s" using assms(2) by (auto simp: addService_def split: option.splits)
  let ?key = "sc_name cfg"
  let ?s1 = "if sm_find (m_listeners s) ?key = None
    then s\<lparr>m_listeners := sm_set ?key (new_StormListener cfg) (m_listeners s)\<rparr> else s"
  have "services_ok ?s1" using assms(1) by (simp add: services_ok_def)
  from update_listener_ok [OF new_services_ok [OF this]]
  have "services_ok (update_listener ?key (\<lambda>l. l\<lparr>sl_inLoop := (sc_runThread cfg = RunThread_Net)\<rparr>)
      ((new_service ?key cfg ^^ service_num cfg) ?s1))" .
  then show ?thesis by (simp add: s' addService_cfg_def Let_def setPacketParser_def services_ok_def)
qed

fun addServices :: "(string \<times> nat option) list \<Rightarrow> 'c StormServer \<Rightarrow> 'c StormServer throws" where
  "addServices [] s = Inr s"
| "addServices ((name, parser) # xs) s = (case addService name parser s of Inl e \<Rightarrow> Inl e | Inr s1 \<Rightarrow> addServices xs s1)"

lemma addServices_keeps: "services_ok s \<Longrightarrow> addServices xs s = Inr s' \<Longrightarrow> services_ok s'"
  by (induction xs s rule: addServices.induct) (auto dest: addService_keeps split: sum.splits)

text \<open>Whatever services a server was given, its destructor deletes each of its objects once.\<close>

lemma server_deletes_once:
  assumes "services_ok s"
  shows "distinct (destroy_StormServer s)"
proof -
  have "distinct (map fst (m_listeners s))" using assms by (simp add: services_ok_def sm_wf_def strict_sorted_iff)
  then have "distinct (map (\<lambda>(key, l). H_Listener key) (m_listeners s))"
    by (simp add: distinct_map inj_on_def split_beta)
  with assms show ?thesis by (auto simp: destroy_StormServer_def services_ok_def distinct_map inj_on_def)
qed

text \<open>A service of the network thread is not among them.\<close>

lemma net_service_kept:
  assumes "services_ok s" and "addService name parser s = Inr s'" and "sm_find (services (m_serverCfg s)) name = Some cfg"
    and "sc_runThread cfg = RunThread_Net" and "sc_name cfg = name"
  shows "sv_service s' name = Some (sv_fresh s)" and "H_Service (sv_fresh s) \<notin> set (destroy_StormServer s')"
proof -
  note a = addService_ok [OF assms(3,5,2)]
  have n: "service_num cfg = 1" using assms(4) by (simp add: service_num_def)
  show "sv_service s' name = Some (sv_fresh s)" using a(5) n by simp
  have "m_mainThreadServices s' = m_mainThreadServices s" "m_extraThreadServices s' = m_extraThreadServices s"
    using a(2,3) assms(4) by simp_all
  then show "H_Service (sv_fresh s) \<notin> set (destroy_StormServer s')"
    using assms(1) by (auto simp: destroy_StormServer_def services_ok_def)
qed

section \<open>The proxies\<close>

definition proxy_objects_ok :: "ServiceProxy \<Rightarrow> bool" where
  "proxy_objects_ok px \<longleftrightarrow> distinct (m_activeEndPoints px @ m_inactiveEndPoints px) \<and> distinct (pending_msgs px)"

lemma calls_ok_objects:
  assumes "calls_ok px" and "distinct (m_activeEndPoints px @ m_inactiveEndPoints px)"
  shows "proxy_objects_ok px"
proof -
  have "inj_on snd (set (m_reqMessages px))"
  proof (rule inj_onI)
    fix a b
    assume ab: "a \<in> set (m_reqMessages px)" "b \<in> set (m_reqMessages px)" "snd a = snd b"
    have "fst x = rm_requestId (px_msgs px (snd x))" if "x \<in> set (m_reqMessages px)" for x
      using assms(1) that by (auto simp: calls_ok_def)
    from this [OF ab(1)] this [OF ab(2)] ab(3) show "a = b" by (simp add: prod_eq_iff)
  qed
  moreover have "distinct (m_reqMessages px)"
    using assms(1) by (simp add: calls_ok_def sm_wf_def strict_sorted_iff distinct_map)
  ultimately show ?thesis using assms(2) by (simp add: proxy_objects_ok_def pending_msgs_def distinct_map)
qed

lemma proxy_deletes_once:
  assumes "proxy_objects_ok px"
  shows "distinct (destroy_ServiceProxy p px)"
    and "set (destroy_ServiceProxy p px) \<subseteq> range (H_EndPoint p) \<union> range (H_Message p)"
proof -
  have "distinct (map (H_Message p) (pending_msgs px))" using assms by (simp add: proxy_objects_ok_def distinct_map inj_on_def)
  then have "distinct (map (\<lambda>(i, m). H_Message p m) (m_reqMessages px))" by (simp add: pending_msgs_def comp_def case_prod_unfold)
  with assms show "distinct (destroy_ServiceProxy p px)"
    by (auto simp: destroy_ServiceProxy_def proxy_objects_ok_def distinct_map inj_on_def)
  show "set (destroy_ServiceProxy p px) \<subseteq> range (H_EndPoint p) \<union> range (H_Message p)"
    by (auto simp: destroy_ServiceProxy_def)
qed

lemma destroy_proxys_of:
  "destroy_proxys ps pm = Some os \<Longrightarrow>
    set os \<subseteq> {h. \<exists>p \<in> set (map snd ps). h = H_Proxy p \<or> (\<exists>e. h = H_EndPoint p e) \<or> (\<exists>m. h = H_Message p m)}"
proof (induction ps pm arbitrary: os rule: destroy_proxys.induct)
  case (2 key p ps pm)
  then obtain ob rest where o: "pm_store pm p = Some ob" "destroy_proxys ps pm = Some rest"
    "os = destroy_ServiceProxy p (po_proxy ob) @ [H_Proxy p] @ rest" by (auto split: bind_splits)
  have "set (destroy_ServiceProxy p (po_proxy ob)) \<subseteq> range (H_EndPoint p) \<union> range (H_Message p)"
    by (auto simp: destroy_ServiceProxy_def)
  with "2.IH" [OF o(1,2)] show ?case by (auto simp: o(3))
qed simp

text \<open>A manager whose proxies are all there deletes each of them and each of their objects once.\<close>

lemma manager_deletes_once:
  assumes "distinct (map snd (m_proxys pm))"
    and "\<forall>p \<in> set (map snd (m_proxys pm)). \<exists>ob. pm_store pm p = Some ob \<and> proxy_objects_ok (po_proxy ob)"
  shows "\<exists>os. destroy_ServiceProxyManager pm = Some os \<and> distinct os"
proof -
  have "\<exists>os. destroy_proxys ps pm = Some os \<and> distinct os"
    if "distinct (map snd ps)" "\<forall>p \<in> set (map snd ps). \<exists>ob. pm_store pm p = Some ob \<and> proxy_objects_ok (po_proxy ob)"
    for ps :: "(string \<times> nat) list"
    using that
  proof (induction ps)
    case (Cons kp ps)
    obtain key p where kp: "kp = (key, p)" by (cases kp)
    obtain rest where r: "destroy_proxys ps pm = Some rest" "distinct rest" using Cons by auto
    obtain ob where ob: "pm_store pm p = Some ob" "proxy_objects_ok (po_proxy ob)" using Cons.prems(2) kp by auto
    have "p \<notin> set (map snd ps)" using Cons.prems(1) kp by simp
    with destroy_proxys_of [OF r(1)] have "\<forall>h \<in> set rest. h \<noteq> H_Proxy p \<and> (\<forall>e. h \<noteq> H_EndPoint p e) \<and> (\<forall>m. h \<noteq> H_Message p m)"
      by auto
    with proxy_deletes_once [OF ob(2), of p] r ob(1) show ?case by (auto simp: kp)
  qed simp
  from this [OF assms] show ?thesis by (simp add: destroy_ServiceProxyManager_def)
qed

text \<open>The destructor deletes the message of a pending request, but not what \<open>delRequest\<close> deletes with it.\<close>

lemma pending_callback_kept:
  assumes "(i, m) \<in> set (m_reqMessages px)" and "rm_cb (px_msgs px m) = Some cb"
  shows "H_Message p m \<in> set (destroy_ServiceProxy p px)" and "H_CallBack cb \<in> set (delRequest p m (px_msgs px m))"
    and "H_CallBack cb \<notin> set (destroy_ServiceProxy p px)"
  using assms by (auto simp: destroy_ServiceProxy_def delRequest_def)

end
