(* ===== verification/Storm_Process.thy ===== *)
theory Storm_Process
  imports Storm_Server
begin

text \<open>
  The server as a process (\<open>framework/storm_server.cpp\<close>): the two flags, the signal handler that clears one
  of them, the main loop between them, and \<open>daemon\<close> on the table of open files.

  \<open>main_loop_ends\<close>: the main loop is left exactly when a signal comes between its entry and one of its
  tests; \<open>signal_before_loop_lost\<close>: signals that are caught after the handler is installed and before \<open>mainEntry\<close> sets
  the flag have no effect.
  \<open>net_thread_stops\<close>, \<open>net_thread_missed\<close>: the same for the network thread. \<open>daemon_detached\<close>: after \<open>daemon\<close> nothing refers to the terminal any more.
\<close>

section \<open>The flags\<close>

record server_flags =
  g_running :: bool
  g_netRunning :: bool

definition no_flags :: server_flags where
  "no_flags = \<lparr>g_running = False, g_netRunning = False\<rparr>"

definition sighandler :: "server_flags \<Rightarrow> server_flags" where
  "sighandler f = f\<lparr>g_running := False\<rparr>"

definition isTerminate :: "server_flags \<Rightarrow> bool" where
  "isTerminate f \<longleftrightarrow> \<not> g_running f"

section \<open>The main loop and signals\<close>

text \<open>Where the main thread is: before \<open>mainEntry\<close>, at the test of its loop, or behind it.\<close>

datatype main_point = BeforeMain | AtTest | AfterMain

datatype main_event = EnterMain | TestRunning | CatchSignal

definition main_exec :: "main_event \<Rightarrow> main_point \<times> server_flags \<Rightarrow> (main_point \<times> server_flags) option" where
  "main_exec ev st =
     (case st of (p, f) \<Rightarrow>
        (case ev of
           CatchSignal \<Rightarrow> Some (p, sighandler f)
         | EnterMain \<Rightarrow> if p = BeforeMain then Some (AtTest, f\<lparr>g_running := True\<rparr>) else None
         | TestRunning \<Rightarrow> if p = AtTest then Some (if g_running f then AtTest else AfterMain, f) else None))"

fun main_run :: "main_event list \<Rightarrow> main_point \<times> server_flags \<Rightarrow> (main_point \<times> server_flags) option" where
  "main_run [] st = Some st"
| "main_run (ev # evs) st = do { st1 \<leftarrow> main_exec ev st; main_run evs st1 }"

lemma main_run_after: "main_run evs (AfterMain, f) = Some (p, f') \<Longrightarrow> p = AfterMain"
proof (induction evs arbitrary: f)
  case (Cons ev evs)
  then show ?case by (cases ev) (auto simp: main_exec_def)
qed simp

text \<open>The loop is left exactly when a signal comes between its entry and one of its tests.\<close>

lemma main_loop_ends:
  assumes "main_run evs (AtTest, f) = Some (p, f')"
  shows "p = AfterMain \<longleftrightarrow> \<not> g_running f \<and> TestRunning \<in> set evs \<or>
    (\<exists>us vs. evs = us @ CatchSignal # vs \<and> TestRunning \<in> set vs)"
  using assms
proof (induction evs arbitrary: f)
  case (Cons ev evs)
  show ?case
  proof (cases ev)
    case CatchSignal
    then have "p = AfterMain \<longleftrightarrow> TestRunning \<in> set evs"
      using Cons.IH [of "sighandler f"] Cons.prems by (auto simp: main_exec_def sighandler_def)
    moreover have "(\<exists>us vs. ev # evs = us @ CatchSignal # vs \<and> TestRunning \<in> set vs) \<longleftrightarrow> TestRunning \<in> set evs"
      using CatchSignal by (fastforce simp: Cons_eq_append_conv)
    moreover have "TestRunning \<in> set (ev # evs) \<longleftrightarrow> TestRunning \<in> set evs" using CatchSignal by simp
    ultimately show ?thesis by blast
  next
    case TestRunning
    then show ?thesis using Cons main_run_after [of evs f p f'] by (auto simp: main_exec_def Cons_eq_append_conv split: if_splits)
  qed (use Cons.prems in \<open>simp add: main_exec_def\<close>)
qed auto

lemma signal_ends_loop:
  "main_run [CatchSignal, TestRunning] (AtTest, f) = Some (AfterMain, f\<lparr>g_running := False\<rparr>)"
  by (simp add: main_exec_def sighandler_def)

text \<open>The handler is installed before \<open>mainEntry\<close> sets the flag, so earlier signals do not count.\<close>

lemma main_run_before:
  "main_run (replicate n CatchSignal @ evs) (BeforeMain, f) = main_run evs (BeforeMain, if n = 0 then f else sighandler f)"
  by (induction n arbitrary: f) (simp_all add: main_exec_def sighandler_def)

lemma signal_before_loop_lost:
  assumes "main_run (replicate n CatchSignal @ EnterMain # evs) (BeforeMain, f) = Some (p, f')"
  shows "p = AfterMain \<longleftrightarrow> (\<exists>us vs. evs = us @ CatchSignal # vs \<and> TestRunning \<in> set vs)"
proof -
  let ?f = "(if n = 0 then f else sighandler f)\<lparr>g_running := True\<rparr>"
  have "main_run evs (AtTest, ?f) = Some (p, f')" using assms by (simp add: main_run_before main_exec_def)
  from main_loop_ends [OF this] show ?thesis by simp
qed

section \<open>The network thread\<close>

text \<open>Which of its two loops the network thread tests next. \<open>run\<close> sets the flag once \<open>init\<close> succeeded,
  \<open>terminateNetThread\<close> clears it.\<close>

datatype net_point = FirstLoop | SecondLoop | NetDone

definition startNetThread :: net_point where
  "startNetThread = FirstLoop"

definition net_initialised :: "server_flags \<Rightarrow> server_flags" where
  "net_initialised f = f\<lparr>g_netRunning := True\<rparr>"

definition terminateNetThread :: "server_flags \<Rightarrow> server_flags" where
  "terminateNetThread f = f\<lparr>g_netRunning := False\<rparr>"

definition net_test :: "server_flags \<Rightarrow> net_point \<Rightarrow> net_point" where
  "net_test f p =
     (case p of
        FirstLoop \<Rightarrow> if g_netRunning f then SecondLoop else FirstLoop
      | SecondLoop \<Rightarrow> if g_netRunning f then SecondLoop else NetDone
      | NetDone \<Rightarrow> NetDone)"

text \<open>The thread ends at its next test if it saw the flag set; a flag that is set and cleared between two tests keeps it in its
  first loop.\<close>

lemma net_thread_stops:
  assumes "p = SecondLoop \<or> p = NetDone"
  shows "(net_test (terminateNetThread f) ^^ Suc n) p = NetDone"
proof -
  have "net_test (terminateNetThread f) p = NetDone" using assms by (auto simp: net_test_def terminateNetThread_def)
  moreover have "(net_test g ^^ n) NetDone = NetDone" for g by (induction n) (simp_all add: net_test_def)
  ultimately show ?thesis by (simp add: funpow_Suc_right del: funpow.simps)
qed

lemma net_thread_missed: "(net_test (terminateNetThread (net_initialised f)) ^^ n) startNetThread = FirstLoop"
proof -
  have "net_test (terminateNetThread (net_initialised f)) FirstLoop = FirstLoop"
    by (simp add: net_test_def terminateNetThread_def)
  then show ?thesis by (induction n) (simp_all add: startNetThread_def)
qed

section \<open>The daemon\<close>

text \<open>The file behind each descriptor. \<open>fd\<close> is what \<open>open\<close> of \<open>/dev/null\<close> returns, a descriptor that was free.\<close>

type_synonym fd_table = "nat \<Rightarrow> string option"

definition fd_dup2 :: "nat \<Rightarrow> nat \<Rightarrow> fd_table \<Rightarrow> fd_table" where
  "fd_dup2 fd i t = t(i := t fd)"

definition daemon :: "nat option \<Rightarrow> fd_table \<Rightarrow> fd_table" where
  "daemon opened t =
     (case opened of
        Some fd \<Rightarrow> fd_dup2 fd 2 (fd_dup2 fd 1 (fd_dup2 fd 0 (t(fd := Some ''/dev/null''))))
      | None \<Rightarrow> t(0 := None, 1 := None, 2 := None))"

lemma daemon_detached:
  assumes "\<forall>i > 2. t i \<noteq> Some tty" and "tty \<noteq> ''/dev/null''"
  shows "daemon opened t i \<noteq> Some tty"
proof (cases opened)
  case None
  then show ?thesis using assms(1) by (cases "i \<le> 2") (auto simp: daemon_def)
next
  case (Some fd)
  then show ?thesis using assms by (cases "i \<le> 2") (auto simp: daemon_def fd_dup2_def le_Suc_eq numeral_2_eq_2)
qed

definition greenOutput :: "string \<Rightarrow> string" where
  "greenOutput content = CHR 0x1B # ''[1;32m'' @ content @ [CHR 0x1B] @ ''[0m'' @ [CHR 0x0A]"

definition redOutput :: "string \<Rightarrow> string" where
  "redOutput content = CHR 0x1B # ''[1;31m'' @ content @ [CHR 0x1B] @ ''[0m'' @ [CHR 0x0A]"

end
