(* ===== verification/Spec2Isabelle.thy ===== *)
theory Spec2Isabelle
  imports Util_String Socket_Invariant Socket_Alloc Registry_Manager Storm_Proxy_Calls Storm_Proxy_Endpoints Util_Config
    Storm_Listener Registry_Rpc Demo_Codec Util_Timer Util_Log Storm_Manager Storm_Server Rpc_Generator
    Util_Template Util_Pthread Util_Singleton Socket_Util Registry_Server Storm_Service_Thread
    Util_Log_Thread Util_Iconv Rpc_Echo Echo_Example Storm_Lifetime Storm_Process
begin

text \<open>
  storm_net (\<open>src/source\<close>) is an RPC framework in C++: an event loop over epoll that moves bytes, packets
  framed by a length or a line end, a client side that turns calls into packets and finishes them once,
  a server side that turns packets into calls of services, a registry in which servers announce
  themselves, a generator of stubs, and the utilities these stand on. This development translates the
  code, file by file, and proves what each part promises and what follows where they meet.

  \<^bold>\<open>Conventions.\<close> A class is a record with its fields and a method a function that returns the changed
  record. Objects that are shared through pointers live in a store, a function from identities, and the
  records hold identities. \<open>uint32_t\<close> and \<open>uint64_t\<close> are words, so arithmetic wraps as in the code;
  \<open>std::string\<close> is a list of characters, \<open>std::map\<close> an association list sorted by its keys (\<open>Std_Map\<close>).
  An exception is \<open>Inl\<close> of a sum (type \<open>throws\<close>). \<open>None\<close> as the result of a step stands for undefined
  behaviour, a failed assertion, or a loop that does not return. System calls, libc, libmysqlclient, protobuf and the
  user's own handlers are arguments (\<open>Kernel\<close>, \<open>os\<close>, \<open>libc_time\<close>, \<open>mysql\<close>, \<open>rpc_codec\<close>, \<open>registry_codec\<close>,
  \<open>handlers\<close>); what is assumed of them is what their documentation says (\<open>msg_ok\<close>, \<open>escapes_ok\<close>, \<open>mkdir_law\<close>). The time
  is an argument of the methods that read the clock.

  \<^bold>\<open>The theories.\<close>
  \<^item> \<open>Storm_Prelude\<close> and \<open>Std_Map\<close>: bytes, \<open>ctype.h\<close>, searches of \<open>std::string\<close>; the locale of dictionaries.
  \<^item> \<open>Util_Template\<close>: the templates of \<open>util_string.h\<close> over the type of the values. \<open>Util_Pthread\<close>: \<open>util_thread.cpp\<close> and the
    monitor inside \<open>LockQueue\<close>. \<open>Util_Singleton\<close>: \<open>util_singleton.h\<close>. \<open>Socket_Util\<close>: \<open>net/socket_util\<close>.
  \<^item> \<open>Util_Encode\<close>, \<open>Util_String\<close>, \<open>Util_Time\<close>, \<open>Util_File\<close>, \<open>Util_Config\<close>, \<open>Util_Log\<close>, \<open>Util_Timer\<close>,
    \<open>Util_Timelist\<close>, \<open>Util_Thread\<close>, \<open>Util_Mysql\<close>: the files of \<open>util/\<close> of these names (\<open>Util_Thread\<close> also
    \<open>util_misc.h\<close>, \<open>Util_Mysql\<close> also \<open>util_sqljoin.h\<close>). \<open>Util_Log_Thread\<close>: the thread of the log and the stream of an entry.
    \<open>Util_Iconv\<close>: the conversions of character sets and \<open>format\<close> of \<open>util_string.cpp\<close>.
  \<^item> \<open>Io_Buffer\<close> (\<open>net/io_buffer.h\<close>) and \<open>Util_Protocol\<close> (\<open>util_protocol.h\<close>, \<open>SocketHandler::onData\<close>): the buffer of
    received bytes and the cutting of bytes into packets.
  \<^item> \<open>Socket_Poller\<close>, \<open>Socket_Loop\<close>: \<open>net/socket_poller\<close> and \<open>net/socket_loop\<close>, the slot table and every event
    and command. \<open>Socket_Receive\<close>, \<open>Socket_Send\<close>, \<open>Socket_Invariant\<close>: what holds of them. \<open>Socket_Alloc\<close>: the
    allocation of a slot by concurrent threads, as steps.
  \<^item> \<open>Storm_Request\<close>, \<open>Storm_Proxy\<close>: \<open>storm_request.h\<close>, \<open>storm_service_proxy\<close>; \<open>Storm_Proxy_Calls\<close> follows a
    request from its issue to its end, \<open>Storm_Proxy_Endpoints\<close> the connections and the endpoint lists.
  \<^item> \<open>Storm_Manager\<close>: \<open>storm_proxy_manager\<close>, the map of proxies and the queue to the main thread.
  \<^item> \<open>Storm_Listener\<close>: \<open>storm_listener\<close>, \<open>storm_service\<close>, \<open>storm_cmd_service\<close>; \<open>Storm_Service_Thread\<close>: the thread of a
    service, its loop and its end. \<open>Storm_Server\<close>: \<open>storm_server\<close>,
    \<open>server_config.h\<close>, \<open>util_option\<close>.
  \<^item> \<open>Registry_Manager\<close>: \<open>storm_registry/ServiceManager\<close>. \<open>Registry_Rpc\<close>: the stubs \<open>proto/registry.cpp\<close>, the
    service behind them and the callbacks of the proxies; \<open>Registry_Server\<close>: \<open>RegistryServer\<close> and \<open>RegistryConfig\<close>; \<open>Demo_Codec\<close> is a concrete encoding for witnesses.
  \<^item> \<open>Rpc_Generator\<close>: \<open>rpc_generator/parser.cpp\<close>; \<open>Rpc_Echo\<close>: what it writes for the interface of the example
    (C26). \<open>Echo_Example\<close>: these stubs, the service and the client of \<open>example/\<close>.
  \<^item> \<open>Storm_Lifetime\<close>: what the destructors delete; \<open>Storm_Process\<close>: flags, signals and \<open>daemon\<close>.

  \<^bold>\<open>Interfaces\<close> are locales, interpreted on the code's own definitions: the dictionary behind \<open>std::map\<close>, the
  queue between threads, the framing that \<open>onData\<close> needs of a packet parser (both parsers provide it), and others
  in the theories of the components that provide them.

  \<^bold>\<open>What is shown\<close>, by claim below. The event loop: bytes are received and sent in order and completely
  (C1, C3), its table keeps its invariant (C7, C15,
  C23, C8). Calls: each request is finished once, by its answer, its deadline or the end of its connection
  (C2, C28, C29), and its callback runs once, on the thread
  it belongs to, in order (C9). Services: C10, C11,
  C21. Across components: a heart beat sent by a listener is found by queries, and a
  query by a proxy changes its endpoints accordingly (C5, C4); a call of the example's service returns (C6). The server: its
  configuration, and the order in which a run starts and stops its parts (C20, C12,
  C25, C24), the descriptor a listener is opened on (C31), and the registry program from its
  configuration file to a query (C14). Threads: the queue between them at the grain of its mutex and condition
  variable (C13), the life of a service's thread (C30), the thread of the log (C18), the singletons (\<open>safe_run_ok\<close>, \<open>ts_run_ok\<close>). Utilities: configuration files, timers, deadline lists, rolling logs, paths, encodings, SQL literals.
  Some theorems show defects: C40, C24, C30, and, without a claim, \<open>registry_key_collision\<close>,
  \<open>reserve_no_capacity\<close>, \<open>heartbeats_duplicate\<close>, \<open>config_join_forgets\<close>, \<open>parseDayTime_octal\<close>, \<open>second_timer_wraps\<close>,
  \<open>roll_zero_diverges\<close>, \<open>getFileExt_plain\<close>, \<open>moveToInactive_undefined\<close>, \<open>stringToProxy_race\<close>, \<open>killOld_swapped\<close>,
  \<open>run_init_fails\<close>, \<open>net_service_unstarted\<close>, \<open>Thread_join_detached\<close>, \<open>update_keeps_sec\<close>, \<open>tostr_u8_not_read_back\<close>, \<open>log_thread_loses_tail\<close>,
  \<open>emit_nested\<close>, \<open>format_long\<close>, \<open>assign_self_loses\<close>, \<open>pending_callback_kept\<close>.

  \<^bold>\<open>Loops.\<close> Loops over data are structural or have a measure. Those that may not end are
  \<open>partial_function (option)\<close> (\<open>reserve\<close>, \<open>onData\<close>, \<open>cmd_loop\<close>, \<open>roll_prepare\<close>, \<open>logThreadEntry\<close>, \<open>until\<close> for the waits of the server), and where they
  do end is a theorem (C37, C19, C18, C25). The only fuel is the depth of
  \<open>listDirectory\<close>, since a file system may be cyclic; \<open>scanRec_tree\<close> shows that the height of the tree suffices.

  \<^bold>\<open>Not modelled.\<close> Floating point (the instances of \<open>tostr\<close> and \<open>strto\<close> for \<open>float\<close> and \<open>double\<close>); the usage text, the entries the server logs
  about itself; the lexer and grammar, whose generated code is not in the repository; of the examples, the \<open>main\<close>
  functions and the connector of \<open>handler_test.cpp\<close>, which nothing uses. Interleavings are modelled where the code is meant to run concurrently
  (\<open>Socket_Alloc\<close>, \<open>Util_Pthread\<close>, \<open>Util_Singleton\<close>, \<open>Storm_Service_Thread\<close>, the queue behind a listener, the proxies, \<open>stringToProxy\<close>, the flags of the server);
  elsewhere a method that holds its lock is one step.
\<close>

section \<open>Example states\<close>

text \<open>A loop with a notifier, a connection and a free slot, for the witnesses below. Its application
  logs the packets it is given.\<close>

definition demo_kernel :: Kernel where
  "demo_kernel = \<lparr>k_read = \<lambda>_. [], k_write = \<lambda>_. [], k_out = \<lambda>_. [], k_accept = \<lambda>_. [], k_connect = [],
     k_listen = [], k_sockerr = \<lambda>_. (0, 0), k_closed = [], k_eventfd = 0, k_now = 100\<rparr>"

definition demo_handlers :: "string list handlers" where
  "demo_handlers = \<lparr>onConnect = \<lambda>h s a. (a, []), onAccept = \<lambda>h s a. (a, []), onClose = \<lambda>h s c a. (a @ [etos c], []),
     onPacket = \<lambda>h s p a. (a @ [p], []), m_parser = \<lambda>h. Len_decode 65535\<rparr>"

definition demo_conn :: Socket where
  "demo_conn = new_Socket\<lparr>s_id := 1, s_fd := 7, s_status := SocketStatus_Connected, s_handler := Some 0\<rparr>"

definition demo_loop :: "string list SocketLoop" where
  "demo_loop = \<lparr>m_running = True, m_inLoop = True, m_maxSocket = 3, m_allocId = 1,
     m_poll = new_SocketPoller, m_notifier = 0, m_queue = [],
     m_slot = [new_Socket\<lparr>s_fd := 3, s_type := SocketType_Notify, s_status := SocketStatus_Listen\<rparr>, demo_conn, new_Socket],
     m_bufferPool = new_ObjectPool (new_IoBuffer 4096) 128,
     m_connTimeout = tl_setFunction True (tl_setTimeout 3 (tl_new 0)), l_kernel = demo_kernel, l_app = []\<rparr>"

lemmas demo_simps = demo_loop_def demo_kernel_def demo_handlers_def demo_conn_def new_Socket_def slot_def

section \<open>The event loop\<close>



text \<open>C3: as long as a connection stays open, the bytes the kernel accepted followed
  by those still queued are the bytes sent, in order; if it is closed meanwhile, what was written
  is a prefix of them. No sequence of \<open>sendSocket\<close> and \<open>handleWrite\<close> gets stuck.\<close>

theorem send_stream_order:
  assumes "tx_conn fd i l" and "getSocket cid l = Some i" and "list_all tx_op_ok ops"
  shows "\<exists>l'. tx_run H fd i cid ops l = Some l' \<and>
    ((tx_conn fd i l' \<and> out_of fd l' @ pending i l' = out_of fd l @ pending i l @ concat (map tx_sent ops)) \<or>
     (tx_closed i l' \<and> prefix (out_of fd l') (out_of fd l @ pending i l @ concat (map tx_sent ops))))"
proof -
  have "tx_post fd i (out_of fd l @ pending i l) l" using assms(1) by (simp add: tx_post_def)
  from tx_stream [OF this assms(2,3)] show ?thesis by (simp add: tx_post_def)
qed

theorem send_stream_order_witness:
  "\<exists>l'. tx_run demo_handlers 7 1 1 [Send (IoBuffer_of_string ''abcd'') [Ret 2, Eagain], Writable [Ret 9]] demo_loop = Some l' \<and>
    ((tx_conn 7 1 l' \<and> out_of 7 l' @ pending 1 l' = out_of 7 demo_loop @ pending 1 demo_loop @
        concat (map tx_sent [Send (IoBuffer_of_string ''abcd'') [Ret 2, Eagain], Writable [Ret 9]])) \<or>
     (tx_closed 1 l' \<and> prefix (out_of 7 l') (out_of 7 demo_loop @ pending 1 demo_loop @
        concat (map tx_sent [Send (IoBuffer_of_string ''abcd'') [Ret 2, Eagain], Writable [Ret 9]]))))"
  by (rule send_stream_order)
    (simp_all add: tx_conn_def getSocket_def hash_id_def demo_simps tx_ok_def)



text \<open>C23: the slot \<open>getNewSocket\<close> hands out was idle and holds no buffered bytes.\<close>

theorem accepted_slot_fresh:
  assumes "loop_inv l" and "getNewSocket l = (Some i, l')"
  shows "s_status (slot l i) = SocketStatus_Idle \<and> i < length (m_slot l') \<and>
    readBuffer (slot l' i) = None \<and> writeBuffer (slot l' i) = []"
  using getNewSocket_inv(3-5) [OF assms] by blast

theorem accepted_slot_fresh_witness:
  "\<exists>l'. getNewSocket demo_loop = (Some 2, l') \<and> readBuffer (slot l' 2) = None"
proof -
  have "loop_inv demo_loop" by (simp add: loop_inv_def demo_simps sock_clean_def)
  moreover obtain l' where "getNewSocket demo_loop = (Some 2, l')"
    by (simp add: getNewSocket_def demo_simps Let_def hash_id_def numeral_3_eq_3)
  ultimately show ?thesis using accepted_slot_fresh by blast
qed

text \<open>\<open>getNewSocket\<close> finds a free slot whenever there is one, as long as the id
  counter does not reach its sign bit during the search.\<close>

theorem free_slot_found:
  assumes "loop_inv l" and "i < length (m_slot l)" and "s_status (slot l i) = SocketStatus_Idle"
    and "unat (m_allocId l + 1) + unat (m_maxSocket l) \<le> 2 ^ 31"
  shows "\<exists>j l'. getNewSocket l = (Some j, l') \<and> s_status (slot l j) = SocketStatus_Idle"
  using assms by (rule getNewSocket_complete)

theorem free_slot_found_witness:
  "\<exists>j l'. getNewSocket demo_loop = (Some j, l') \<and> s_status (slot demo_loop j) = SocketStatus_Idle"
  by (rule free_slot_found [where i = 2]) (simp_all add: loop_inv_def demo_simps sock_clean_def)

text \<open>C8: however the atomic steps of \<open>getNewSocket\<close> interleave between threads,
  no two of them are given the same slot.\<close>

theorem slots_have_one_owner:
  assumes "alloc_start st0" and "alloc_reach mx st0 st" and "a_pc st t = Owned w" and "a_pc st u = Owned w'"
    and "w mod mx = w' mod mx"
  shows "t = u"
  using slot_exclusive [OF assms(1-4)] assms(5) by (simp add: a_hash_def)

theorem slots_have_one_owner_witness:
  "\<exists>st w. alloc_reach 3 \<lparr>a_alloc = 1, a_slot = \<lambda>_. new_Socket, a_pc = \<lambda>_. Fetch 3\<rparr> st \<and> a_pc st 0 = Owned w \<and>
     {u. \<exists>w'. a_pc st u = Owned w' \<and> w mod 3 = w' mod 3} = {0}"
proof -
  let ?st = "\<lparr>a_alloc = 1, a_slot = \<lambda>_. new_Socket, a_pc = \<lambda>_. Fetch 3\<rparr>"
  let ?l = "demo_loop\<lparr>m_slot := replicate 3 new_Socket\<rparr>"
  have g: "getNewSocket_loop 3 ?l = (Some 2, snd (getNewSocket_loop 3 ?l))"
    by (simp add: demo_simps Let_def hash_id_def numeral_3_eq_3)
  have "\<exists>st'. alloc_reach (m_maxSocket ?l) ?st st' \<and> alloc_sim (snd (getNewSocket_loop 3 ?l)) st' \<and>
      (case Some 2 of None \<Rightarrow> a_pc st' 0 = NoSlot
       | Some j \<Rightarrow> \<exists>w. a_pc st' 0 = Owned w \<and> a_hash (m_maxSocket ?l) w = j)"
    by (rule alloc_solo [OF g]) (simp_all add: alloc_sim_def demo_simps)
  then obtain st w where r: "alloc_reach 3 ?st st" "a_pc st 0 = Owned w" by (auto simp: demo_loop_def)
  have "alloc_start ?st" by (simp add: alloc_start_def)
  from slots_have_one_owner [OF this r] r(2) have "{u. \<exists>w'. a_pc st u = Owned w' \<and> w mod 3 = w' mod 3} = {0}"
    by auto
  with r show ?thesis by blast
qed

text \<open>C15: closing a slot in use closes its descriptor and tells its handler exactly
  once, empties the slot and leaves the others alone; closing it again does nothing.\<close>

theorem forceClose_complete:
  assumes "i < length (m_slot l)" and "s_handler (slot l i) = Some h"
    and "s_status (slot l i) \<noteq> SocketStatus_Idle" and "s_status (slot l i) \<noteq> SocketStatus_Reserse"
  shows "let l' = forceClose H i ct l in
    slot l' i = (slot l i)\<lparr>readBuffer := None, writeBuffer := [], s_fd := -1, s_status := SocketStatus_Idle\<rparr> \<and>
    (\<forall>j. j \<noteq> i \<longrightarrow> slot l' j = slot l j) \<and>
    k_closed (l_kernel l') = k_closed (l_kernel l) @ [s_fd (slot l i)] \<and>
    l_app l' = fst (onClose H h (sock_view (slot l i)) ct (l_app l)) \<and>
    forceClose H i ct' l' = l'"
  using forceClose_used [OF assms(1,3,4)] forceClose_twice [OF assms(1)] assms(2) by (simp add: Let_def)

theorem forceClose_complete_witness:
  "let l' = forceClose demo_handlers 1 CloseType_Peer demo_loop in
    slot l' 1 = (slot demo_loop 1)\<lparr>readBuffer := None, writeBuffer := [], s_fd := -1, s_status := SocketStatus_Idle\<rparr> \<and>
    (\<forall>j. j \<noteq> 1 \<longrightarrow> slot l' j = slot demo_loop j) \<and>
    k_closed (l_kernel l') = k_closed (l_kernel demo_loop) @ [s_fd (slot demo_loop 1)] \<and>
    l_app l' = fst (onClose demo_handlers 0 (sock_view (slot demo_loop 1)) CloseType_Peer (l_app demo_loop)) \<and>
    forceClose demo_handlers 1 CloseType_Self l' = l'"
  by (rule forceClose_complete) (simp_all add: demo_simps)

section \<open>Framing: from bytes to packets\<close>

text \<open>However the bytes of a sequence of length-prefixed packets are cut,
  \<open>SocketHandler::onData\<close> returns, hands every packet that has arrived completely to \<open>onPacket\<close>, once
  and in order, and keeps exactly the bytes of the rest for the next call.\<close>

theorem len_stream_delivered:
  assumes "\<forall>p \<in> set ps. len_valid maxLen p" and "contents b @ later = concat (map len_frame ps)"
    and "io_wf b"
  shows "\<exists>qs rs b'. ps = qs @ rs \<and>
    onData (Len_decode maxLen) handle h b = Some (Returned True (fold handle qs h) b') \<and>
    io_wf b' \<and> contents b' @ later = concat (map len_frame rs)"
  by (rule len.onData_split [OF assms(1,2,3) refl]) blast

theorem len_stream_delivered_witness:
  "\<exists>qs rs b'. [''hi'', ''there''] = qs @ rs \<and>
    onData (Len_decode 65535) (\<lambda>p h. h @ [p]) []
      (IoBuffer_of_string (len_frame ''hi'' @ take 3 (len_frame ''there''))) =
      Some (Returned True (fold (\<lambda>p h. h @ [p]) qs []) b') \<and>
    io_wf b' \<and> contents b' @ drop 3 (len_frame ''there'') = concat (map len_frame rs)"
  by (rule len_stream_delivered) (simp_all add: len_valid_def len_frame_def be32_def)

text \<open>A payload framed by \<open>PacketProtocolLen::encode\<close> is decoded to the same
  payload, consuming the whole frame, whenever the frame is within the decoder's limit.\<close>

theorem len_encode_decode:
  assumes "length data + 4 \<le> unat maxLen" and "unat maxLen \<le> 2 ^ 31"
  shows "\<exists>b off sz b'. Len_encode data = Some b \<and>
    Len_decode maxLen b = Some (Packet_Normal, off, sz, b') \<and>
    view_packet b' off sz = Some data \<and> contents b' = []"
proof -
  obtain b where b: "Len_encode data = Some b" "io_wf b" "contents b = len_frame data"
    using Len_encode_ok [of data] assms by auto
  with Len_decode_frame [of b maxLen data "[]"] assms show ?thesis by (auto simp: len_valid_def)
qed

theorem len_encode_decode_witness:
  "\<exists>b off sz b'. Len_encode ''ping'' = Some b \<and>
    Len_decode 65535 b = Some (Packet_Normal, off, sz, b') \<and>
    view_packet b' off sz = Some ''ping'' \<and> contents b' = []"
  by (rule len_encode_decode) simp_all



text \<open>C40: a length field below the size of the header is not rejected: the
  packet is handed on with a size that wrapped around, past the end of the buffer's block.\<close>

theorem len_decode_short_overruns:
  assumes "io_wf b" and "prefix (be32 w) (contents b)" and "unat w < 4" and "w \<le> maxLen"
  shows "\<exists>off b'. Len_decode maxLen b = Some (Packet_Normal, off, w - 4, b') \<and>
    unat (w - 4) = 2 ^ 32 - 4 + unat w \<and> view_packet b' off (w - 4) = None"
proof -
  have "unat (w - 4) = 2 ^ 32 - 4 + unat w"
    using assms(3) unat_sub_if_size [of w 4] by (simp add: word_size)
  with Len_decode_short [OF assms] show ?thesis by blast
qed

theorem len_decode_short_overruns_witness:
  "\<exists>off b'. Len_decode 65535 (IoBuffer_of_string (be32 2)) = Some (Packet_Normal, off, 2 - 4, b') \<and>
    unat (2 - 4 :: u32) = 2 ^ 32 - 4 + unat (2 :: u32) \<and> view_packet b' off (2 - 4) = None"
  by (rule len_decode_short_overruns) (code_simp, code_simp, simp_all)

section \<open>The connection buffer\<close>

text \<open>no byte is lost, duplicated or reordered by any sequence of \<open>push_back\<close> and
  \<open>readN\<close> within the buffer's limits.\<close>

theorem iobuffer_fifo:
  assumes "push_ready b" and "fifo_ok push_back_string readN contents push_fits ops b"
  shows "\<exists>out b'. fifo_run push_back_string readN contents ops b = Some (out, b') \<and> push_ready b' \<and>
    out @ contents b' = contents b @ fifo_put ops"
  using assms by (rule pushbuf.fifo_order)

theorem iobuffer_fifo_witness:
  "\<exists>out b'. fifo_run push_back_string readN contents [Put ''abc'', Take 2] (new_IoBuffer 4) = Some (out, b') \<and>
    push_ready b' \<and> out @ contents b' = contents (new_IoBuffer 4) @ fifo_put [Put ''abc'', Take 2]"
  by (rule iobuffer_fifo) (simp_all add: push_ready_def io_wf_def new_IoBuffer_def
    push_fits_def contents_def push_back_string_def push_back_data_def reserve.simps [of _ "IoBuffer_ext _ _ _ _ _"]
    getRemainingSize_def poke_def readN_def getSize_def)



text \<open>On a buffer made from an empty string, whose capacity is 0, \<open>reserve\<close>
  never returns: doubling 0 gives 0.\<close>

theorem reserve_no_capacity:
  assumes "n \<noteq> 0"
  shows "reserve n (IoBuffer_of_string []) = None"
  by (rule reserve_empty_diverges) (simp_all add: IoBuffer_of_string_def assms)

theorem reserve_no_capacity_witness: "reserve 1 (IoBuffer_of_string []) = None"
  by (rule reserve_no_capacity) simp

text \<open>Receiving bytes into the free tail and calling \<open>writeN\<close> appends exactly those
  bytes, also when \<open>writeN\<close> moves the data to the front.\<close>

theorem writeN_appends:
  assumes "io_wf b" and "length bs \<le> unat (getRemainingSize b)"
  shows "\<exists>b'. writeN (word_of_nat (length bs)) (fill_tail bs b) = Some b' \<and> io_wf b' \<and>
    contents b' = contents b @ bs \<and> m_capacity b' = m_capacity b"
  using assms unat_u32_less [of "getRemainingSize b"]
  by (intro writeN_ok) (simp_all del: unat_u32_less)

theorem writeN_appends_witness:
  "\<exists>b'. writeN (word_of_nat (length ''xy'')) (fill_tail ''xy''
      \<lparr>m_data = [Some CHR ''a'', Some CHR ''b'', None, None], m_capacity = 4, m_head = 1, m_tail = 2\<rparr>) = Some b' \<and>
    io_wf b' \<and> contents b' = contents
      \<lparr>m_data = [Some CHR ''a'', Some CHR ''b'', None, None], m_capacity = 4, m_head = 1, m_tail = 2\<rparr> @ ''xy'' \<and>
    m_capacity b' = m_capacity
      \<lparr>m_data = [Some CHR ''a'', Some CHR ''b'', None, None], m_capacity = 4, m_head = 1, m_tail = 2\<rparr>"
  by (rule writeN_appends) code_simp+

section \<open>Deadlines\<close>

text \<open>C35: over any sequence of \<open>add\<close>, \<open>del\<close> and \<open>timeout\<close> with a clock that does
  not go back, each \<open>timeout\<close> reports exactly the keys whose last deadline has passed and that
  were neither deleted nor reported since, each once.\<close>

theorem timelist_fires_when_due:
  assumes "tl_inv T now t" and "sorted (now # map tl_op_time ops)"
    and "\<forall>op \<in> set ops. unat (tl_op_time op) + unat T < 2 ^ LENGTH('n)"
  shows "map set (tl.do_ops ops t) = armed_run (\<lambda>now. now + T) ops (map_of (tl_abs t)) \<and>
    list_all distinct (tl.do_ops ops (t :: ('k, 'n::len word) TimeList))"
  using assms by (rule tl.do_ops_correct)

theorem timelist_fires_when_due_witness:
  "map set (tl.do_ops [Arm (7 :: nat) 1, Arm 8 2, Arm 7 3, Poll 6]
      (tl_setFunction True (tl_setTimeout (4 :: u32) (tl_new 0)))) =
    armed_run (\<lambda>now. now + 4) [Arm 7 1, Arm 8 2, Arm 7 3, Poll 6]
      (map_of (tl_abs (tl_setFunction True (tl_setTimeout (4 :: u32) (tl_new 0))))) \<and>
    list_all distinct (tl.do_ops [Arm (7 :: nat) 1, Arm 8 2, Arm 7 3, Poll 6]
      (tl_setFunction True (tl_setTimeout (4 :: u32) (tl_new 0))))"
  by (rule timelist_fires_when_due [where now = 0])
    (simp_all add: tl_inv_def tl_wf_def tl_abs_def tl_ordered_def tl_setFunction_def tl_setTimeout_def tl_new_def)

text \<open>Under the invariant that ties the hash map to the list, \<open>add\<close> and
  \<open>del\<close> act on the list as on a queue with one entry per key, and keep the invariant; so does
  \<open>timeout\<close>.\<close>

theorem timelist_refines_queue:
  assumes "tl_wf t" and "tl_func t"
  shows "tl_wf (tl_add k now t) \<and> tl_abs (tl_add k now t) = spec_add k (now + tl_timeout t) (tl_abs t) \<and>
    tl_wf (tl_del k t) \<and> tl_abs (tl_del k t) = spec_del k (tl_abs t) \<and>
    tl_wf (snd (tl_expire now t)) \<and>
    (fst (tl_expire now t), tl_abs (snd (tl_expire now t))) = spec_expire now (tl_abs t)"
  using assms tl_add_wf tl_add_abs tl_del_wf tl_del_abs tl_expire_wf tl_expire_abs by metis

theorem timelist_refines_queue_witness:
  "\<exists>t :: (nat, u32) TimeList. tl_abs t = [(5, 3)] \<and> tl_abs (tl_add 5 9 t) = spec_add 5 (9 + tl_timeout t) [(5, 3)]"
proof -
  let ?t = "\<lparr>tl_timeout = 2, tl_map = [5 \<mapsto> 0], tl_list = [(0, 5, 3)], tl_func = True, tl_fresh = 1\<rparr>
    :: (nat, u32) TimeList"
  have "tl_wf ?t" "tl_func ?t" by (auto simp: tl_wf_def tl_abs_def)
  from timelist_refines_queue [OF this, of 5 9] show ?thesis
    by (intro exI [of _ ?t]) (simp add: tl_abs_def)
qed

section \<open>Remote calls\<close>


definition demo_codec :: rpc_codec where
  "demo_codec = \<lparr>ser_req = \<lambda>r. ''q'', par_req = \<lambda>s. None, ser_resp = \<lambda>r. ''a'',
     par_resp = \<lambda>s. if s = ''a'' then Some new_RpcResponse else None\<rparr>"



text \<open>C28: a response reaches the request that has its id, with the status of
  an answered call, finishes it, and takes it off the table, so a second response with the id
  changes nothing.\<close>

theorem response_finishes_request:
  assumes "par_resp C data = Some resp" and "sm_find (m_reqMessages px) (rs_request_id resp) = Some m" and "two_way px m"
  shows "let px' = proxy_onPacket C data px in
    rm_resp (px_msgs px' m) = Some resp \<and> rm_status (px_msgs px' m) = ResponseStatus_Ok \<and>
    finished px' = finished px @ [m] \<and> proxy_onPacket C data px' = px'"
proof -
  note a = proxy_onPacket_answer [OF assms]
  have "proxy_onPacket C data (proxy_onPacket C data px) = proxy_onPacket C data px"
    by (rule proxy_onPacket_stray) (use assms(1) a(4) in simp)
  with a show ?thesis by (simp add: Let_def)
qed

theorem response_finishes_request_witness:
  "let px = saveMessage 0 5 (new_ServiceProxy 1 0); px' = proxy_onPacket demo_codec ''a'' px in
    rm_resp (px_msgs px' 5) = Some new_RpcResponse \<and> rm_status (px_msgs px' 5) = ResponseStatus_Ok \<and>
    finished px' = finished px @ [5] \<and> proxy_onPacket demo_codec ''a'' px' = px'"
  using response_finishes_request [of demo_codec "''a''" new_RpcResponse "saveMessage 0 5 (new_ServiceProxy 1 0)" 5]
  by (simp add: demo_codec_def saveMessage_def new_ServiceProxy_def new_RpcResponse_def two_way_def
      new_RequestMessage_def sm_find_def Let_def)



text \<open>C32: what an endpoint is given before, while and after its connection is
  opened is handed to the loop in the order it was given, whatever the other endpoints do meanwhile;
  after the connection is up nothing is held back.\<close>

theorem endpoint_sends_in_order:
  assumes "ep_chan cid e px" and "ep_ready (ops_bytes ops) px"
  shows "\<exists>px'. ep_run ops px = Some px' \<and> ep_bytes e px' = ep_bytes e px @ sends_of e ops \<and>
    (EpConnect e \<in> set ops \<longrightarrow> sent_of cid (px_out px') = ep_bytes e px @ sends_of e ops)"
  using ep_run_stream [OF assms] by blast

definition demo_px :: ServiceProxy where
  "demo_px = (new_ServiceProxy 1 0)\<lparr>px_eps := (\<lambda>_. new_ProxyEndPoint [] 0)(0 := (new_ProxyEndPoint ''a'' 1)\<lparr>m_connId := 7\<rparr>)\<rparr>"

theorem endpoint_sends_in_order_witness:
  "\<exists>px'. ep_run [EpSend 0 ''ab'', EpSend 1 ''x'', EpConnect 0, EpSend 0 ''c''] demo_px = Some px' \<and>
    sent_of 7 (px_out px') = ''abc''"
proof -
  have "ep_chan 7 0 demo_px"
    by (simp add: ep_chan_def demo_px_def new_ServiceProxy_def new_ProxyEndPoint_def)
  moreover have "ep_ready (ops_bytes [EpSend 0 ''ab'', EpSend 1 ''x'', EpConnect 0, EpSend 0 ''c'']) demo_px"
    using new_IoBuffer_ok(1) [of 4096]
    by (simp add: ep_ready_def push_ready_def demo_px_def new_ServiceProxy_def new_ProxyEndPoint_def new_IoBuffer_def)
  ultimately show ?thesis
    using endpoint_sends_in_order [of 7 0 demo_px "[EpSend 0 ''ab'', EpSend 1 ''x'', EpConnect 0, EpSend 0 ''c'']"]
    by (auto simp: ep_bytes_def demo_px_def new_ServiceProxy_def new_ProxyEndPoint_def new_IoBuffer_def contents_def)
qed

text \<open>after a list from the registry the active endpoints have exactly its
  addresses, in order; known endpoints keep their connections, those not listed become inactive, and
  only the rest are new.\<close>

theorem endpoint_list_updated:
  assumes "\<forall>e \<in> set (m_activeEndPoints px @ m_inactiveEndPoints px). e < px_fresh px"
    and "distinct (map (ep_addr px) (m_activeEndPoints px @ m_inactiveEndPoints px))"
  shows "let px' = updateEndPoints ack px in
    map (ep_addr px') (m_activeEndPoints px') = ack \<and>
    (\<exists>new. mset (m_activeEndPoints px') + mset (m_inactiveEndPoints px') =
        mset (m_activeEndPoints px @ m_inactiveEndPoints px) + mset new \<and> (\<forall>e \<in> set new. px_fresh px \<le> e)) \<and>
    (\<forall>e \<in> set (m_activeEndPoints px @ m_inactiveEndPoints px). px_eps px' e = px_eps px e) \<and>
    (\<forall>e \<in> set (m_inactiveEndPoints px'). ep_addr px e \<notin> set ack)"
  unfolding Let_def using updateEndPoints_ok [OF assms, of ack] by blast

theorem endpoint_list_updated_witness:
  "map (ep_addr (updateEndPoints [(''b'', 2), (''a'', 1)] (demo_px\<lparr>m_activeEndPoints := [0], px_fresh := 1\<rparr>)))
     (m_activeEndPoints (updateEndPoints [(''b'', 2), (''a'', 1)] (demo_px\<lparr>m_activeEndPoints := [0], px_fresh := 1\<rparr>))) =
   [(''b'', 2), (''a'', 1)]"
  using endpoint_list_updated [of "demo_px\<lparr>m_activeEndPoints := [0], px_fresh := 1\<rparr>" "[(''b'', 2), (''a'', 1)]"]
  by (simp add: Let_def demo_px_def new_ServiceProxy_def)

section \<open>Remote calls\<close>

text \<open>C4: when a proxy asks the registry for its endpoints, the request the client
  stub frames is answered by the service with a frame that finishes exactly this request, and the
  callback makes the proxy's active endpoints the ones the registry lists.\<close>

theorem endpoints_refreshed:
  fixes reg px :: ServiceProxy and R cb m and sm :: "'db ServiceManager"
  defines "pre \<equiv> set_msg m (stub_message 1 (rc_QueryReq R) (endpoint_query px) (newRequest InvokeType_Async (Some cb) False (px_tid reg))) reg"
    and "addrs \<equiv> Query (m_appName px) (m_serverName px) (m_serviceName px) (m_setName px) sm"
    and "known \<equiv> m_activeEndPoints px @ m_inactiveEndPoints px"
  assumes "codec_ok C" and "registry_codec_ok R"
    and "next_ep reg = Some e" and "ep_chan cid e reg" and "ep_ready N reg"
    and "length (ser_req C (sent_request m pre)) + 4 \<le> N"
    and "\<forall>body. SerializeToString (rc_QueryAck R) \<lparr>active_endpoints = addrs, inactive_endpoints = []\<rparr> = Some body \<longrightarrow>
      length (ser_resp C (rpc_answer (sent_request m pre) body)) + 4 \<le> 2 ^ 31"
    and "\<forall>e \<in> set known. e < px_fresh px" and "distinct (map (ep_addr px) known)"
  shows "\<exists>w reg1 payload answer ack px'. doAsyncUpdateEndPoints R C px cb m reg = Some (w, reg1) \<and>
    ep_bytes e reg1 = ep_bytes e reg @ len_frame payload \<and>
    svc_onRequest C (onRpcRequest R (RegistryServiceImp now)) conn payload sm = Some ([NetSend (conn_id conn) (len_frame answer)], sm) \<and>
    finished (proxy_onPacket C answer reg1) = finished reg @ [m] \<and>
    dispatch R (px_msgs (proxy_onPacket C answer reg1) m) = Some (callback_Query 0 (Some ack)) \<and>
    px' = RegistryCallBack_Query 0 ack px \<and> map (ep_addr px') (m_activeEndPoints px') = addrs"
proof -
  let ?M = "onRpcRequest R (RegistryServiceImp now)" and ?ack = "\<lparr>active_endpoints = addrs, inactive_endpoints = []\<rparr>"
  let ?h = "h_Query (RegistryServiceImp now)"
  have h: "?h conn (endpoint_query px) sm = ((0, ?ack), sm)"
    by (simp add: RegistryServiceImp_def imp_Query_def endpoint_query_def addrs_def)
  have R: "msg_ok (rc_QueryReq R)" "msg_ok (rc_QueryAck R)" using assms(5) by (simp_all add: registry_codec_ok_def)
  have pre: "next_ep pre = Some e" "ep_chan cid e pre" "ep_ready N pre" "finished pre = finished reg" "ep_bytes e pre = ep_bytes e reg"
    using assms(6-8) by (simp_all add: pre_def)
  have m: "px_msgs pre m = stub_message 1 (rc_QueryReq R) (endpoint_query px) (newRequest InvokeType_Async (Some cb) False (px_tid reg))"
    by (simp add: pre_def set_msg_def)
  obtain w reg1 answer where c: "doInvoke C m pre = Some (w, reg1)"
    "ep_bytes e reg1 = ep_bytes e pre @ len_frame (ser_req C (sent_request m pre))"
    "svc_onRequest C ?M conn (ser_req C (sent_request m pre)) sm = Some ([NetSend (conn_id conn) (len_frame answer)], sm)"
    "decodeResponse (ParseFromString (rc_QueryAck R)) (px_msgs (proxy_onPacket C answer reg1) m) = Some (0, Some ?ack)"
    "finished (proxy_onPacket C answer reg1) = finished pre @ [m]"
    "rq_proto_id (rm_req (px_msgs (proxy_onPacket C answer reg1) m)) = 1"
    using assms(9,10) by - (rule call_returns [OF assms(4) R registry_stubs(1) m _ pre(1-3) _ _ h], simp_all)
  have "dispatch R (px_msgs (proxy_onPacket C answer reg1) m) = Some (callback_Query 0 (Some ?ack))"
    using c(4,6) by (simp add: dispatch_def)
  moreover have "map (ep_addr (updateEndPoints addrs px)) (m_activeEndPoints (updateEndPoints addrs px)) = addrs"
    using updateEndPoints_ok(1) [of px addrs] assms(11,12) by (simp add: known_def)
  moreover have "doAsyncUpdateEndPoints R C px cb m reg = Some (w, reg1)"
    using c(1) by (simp add: doAsyncUpdateEndPoints_def async_Query_def stub_async_def pre_def)
  ultimately show ?thesis using c(2,3,5) pre(4,5)
    by - (rule exI [of _ w], rule exI [of _ reg1], rule exI [of _ "ser_req C (sent_request m pre)"], rule exI [of _ answer],
        rule exI [of _ ?ack], simp add: RegistryCallBack_Query_def)
qed

lemmas demo_call_simps = demo_px_def new_ServiceProxy_def new_ProxyEndPoint_def new_IoBuffer_def fields_codec_def demo_registry_def
  demo_QueryReq_def demo_QueryAck_def demo_Info_def demo_ty_def demo_u32_def demo_int_def demo_str_def sent_request_def
  stub_message_def newRequest_def new_RequestMessage_def new_RpcRequest_def set_msg_def next_ep_def selectEndPoint_def
  rpc_answer_def Let_def

definition demo_reg :: ServiceProxy where
  "demo_reg = demo_px\<lparr>m_activeEndPoints := [0]\<rparr>"

lemma demo_reg_chan: "ep_chan 7 0 demo_reg" "ep_ready 1000 demo_reg" "next_ep demo_reg = Some 0"
  by (simp_all add: demo_reg_def ep_chan_def ep_ready_def push_ready_def demo_call_simps)
    (simp_all add: contents_def io_wf_def)

definition demo_table :: "unit ServiceManager" where
  "demo_table = \<lparr>m_services = [(''abcd'', [\<lparr>appName = ''a'', serverName = ''b'', serviceName = ''c'', setName = ''d'',
      ep_ip = ''h'', ep_port = 9, heartBeatTime = 5, active = True\<rparr>])], m_newServices = [], m_updateServices = [],
     m_allService = {}, m_updateSec = 0, m_reloadSec = 0, m_mysql = new_MySqlConn new_DBConfig (), m_tblName = ''t_storm''\<rparr>"

theorem endpoints_refreshed_witness:
  "\<exists>w reg1 payload answer ack px'. doAsyncUpdateEndPoints demo_registry fields_codec (demo_px\<lparr>m_appName := ''ab'', m_serverName := ''cd''\<rparr>) 4 5 demo_reg = Some (w, reg1) \<and>
    ep_bytes 0 reg1 = ep_bytes 0 demo_reg @ len_frame payload \<and>
    svc_onRequest fields_codec (onRpcRequest demo_registry (RegistryServiceImp 3)) (conn_of new_Socket) payload demo_table = Some ([NetSend (conn_id (conn_of new_Socket)) (len_frame answer)], demo_table) \<and>
    finished (proxy_onPacket fields_codec answer reg1) = finished demo_reg @ [5] \<and>
    dispatch demo_registry (px_msgs (proxy_onPacket fields_codec answer reg1) 5) = Some (callback_Query 0 (Some ack)) \<and>
    px' = RegistryCallBack_Query 0 ack (demo_px\<lparr>m_appName := ''ab'', m_serverName := ''cd''\<rparr>) \<and> map (ep_addr px') (m_activeEndPoints px') = [(''h'', 9)]"
proof -
  let ?px = "demo_px\<lparr>m_appName := ''ab'', m_serverName := ''cd''\<rparr>"
  have q: "Query (m_appName ?px) (m_serverName ?px) (m_serviceName ?px) (m_setName ?px) demo_table = [(''h'', 9)]"
    by (simp add: Query_def getService_def getKey_def demo_table_def sm_find_def demo_px_def new_ServiceProxy_def)
  from endpoints_refreshed [OF fields_codec_ok demo_registry_ok demo_reg_chan(3,1,2), where px = ?px and sm = demo_table and m = 5 and cb = 4 and
      conn = "conn_of new_Socket" and now = 3, unfolded q] show ?thesis
    by (simp add: demo_reg_def demo_call_simps endpoint_query_def)
qed


definition demo_config :: ServiceConfig where
  "demo_config = \<lparr>sc_runThread = RunThread_Extra, sc_name = ''c'', sc_host = ''h'', sc_port = 9, threadNum = 1, maxConnections = 2,
     maxQueueLen = 3, keepAliveTime = 60, emptyConnTimeOut = 5, queueTimeout = 0\<rparr>"

definition demo_listener :: StormListener where
  "demo_listener = snd (startListen 0 \<lparr>sl_inLoop = False, sl_name = ''c'', sl_ip = ''h'', sl_port = 9, sl_config = demo_config,
     sl_queue = [], sl_conList = tl_new 0, sl_timelist = tl_new 0, sl_lastHeartBeatSec = 0\<rparr>)"

lemmas demo_listener_simps = demo_listener_def startListen_def demo_config_def tl_setTimeout_def tl_setFunction_def


text \<open>C6: a synchronous call of the example's service comes back: the stub's request is framed onto the
  connection, the service counts it and answers with the message it was given, and the frame of its answer finishes
  exactly this request, releases the caller, and decodes to that message.\<close>

theorem echo_call_returns:
  fixes px :: ServiceProxy and E m req
  defines "pre \<equiv> set_msg m (stub_message 1 (ec_Req E) req (newRequest InvokeType_Sync None False (px_tid px))) px"
  assumes "codec_ok C" and "echo_codec_ok E" and "next_ep px = Some e" and "ep_chan cid e px" and "ep_ready N px"
    and "length (ser_req C (sent_request m pre)) + 4 \<le> N"
    and "\<forall>body. SerializeToString (ec_Ack E) \<lparr>ea_msg = Some (get_msg req)\<rparr> = Some body \<longrightarrow>
      length (ser_resp C (rpc_answer (sent_request m pre) body)) + 4 \<le> 2 ^ 31"
  shows "\<exists>w px1 payload answer st'. sync_Echo E C req m px = Some (w, px1) \<and>
    ep_bytes e px1 = ep_bytes e px @ len_frame payload \<and>
    svc_onRequest C (Echo_onRpcRequest E (EchoServiceImp_Echo now)) conn payload st = Some ([NetSend (conn_id conn) (len_frame answer)], st') \<and>
    counted st' = counted st + 1 \<and>
    finished (proxy_onPacket C answer px1) = finished px @ [m] \<and> rm_back (px_msgs (proxy_onPacket C answer px1) m) \<and>
    decodeResponse (ParseFromString (ec_Ack E)) (px_msgs (proxy_onPacket C answer px1) m) = Some (0, Some \<lparr>ea_msg = Some (get_msg req)\<rparr>)"
proof -
  obtain w px1 answer where c: "sync_Echo E C req m px = Some (w, px1)"
    "ep_bytes e px1 = ep_bytes e px @ len_frame (ser_req C (sent_request m pre))"
    "svc_onRequest C (Echo_onRpcRequest E (EchoServiceImp_Echo now)) conn (ser_req C (sent_request m pre)) st =
       Some ([NetSend (conn_id conn) (len_frame answer)], snd (EchoServiceImp_Echo now conn req st))"
    "decodeResponse (ParseFromString (ec_Ack E)) (px_msgs (proxy_onPacket C answer px1) m) = Some (0, Some \<lparr>ea_msg = Some (get_msg req)\<rparr>)"
    "finished (proxy_onPacket C answer px1) = finished px @ [m]" "rm_back (px_msgs (proxy_onPacket C answer px1) m)"
    unfolding pre_def by (rule remote_Echo [OF assms(2-6) assms(7,8) [unfolded pre_def], where now = now and conn = conn and st = st])
  show ?thesis
    by (rule exI [of _ w], rule exI [of _ px1], rule exI [of _ "ser_req C (sent_request m pre)"], rule exI [of _ answer],
        rule exI [of _ "snd (EchoServiceImp_Echo now conn req st)"]) (simp add: c echo_counted)
qed

definition demo_echo_field :: "string option \<Rightarrow> string" where
  "demo_echo_field f = (case f of None \<Rightarrow> [] | Some s \<Rightarrow> demo_str s)"

definition demo_echo_read :: "string \<Rightarrow> string option" where
  "demo_echo_read s = (if s = [] then None else Some (fst (demo_read s)))"

lemma demo_echo_read_field [simp]: "demo_echo_read (demo_echo_field f) = f"
  by (cases f) (simp_all add: demo_echo_read_def demo_echo_field_def, simp add: demo_str_def)

definition demo_echo :: echo_codec where
  "demo_echo =
     \<lparr>ec_Req = \<lparr>SerializeToString = \<lambda>q. Some (demo_echo_field (eq_msg q)), ParseFromString = \<lambda>s. Some \<lparr>eq_msg = demo_echo_read s\<rparr>\<rparr>,
      ec_Ack = \<lparr>SerializeToString = \<lambda>a. Some (demo_echo_field (ea_msg a)), ParseFromString = \<lambda>s. Some \<lparr>ea_msg = demo_echo_read s\<rparr>\<rparr>\<rparr>"

lemma demo_echo_ok: "echo_codec_ok demo_echo"
  by (simp add: echo_codec_ok_def demo_echo_def msg_ok_def)

theorem echo_call_returns_witness:
  "\<exists>w px1 payload answer st'. sync_Echo demo_echo fields_codec \<lparr>eq_msg = Some ''Hello''\<rparr> 5 demo_reg = Some (w, px1) \<and>
    ep_bytes 0 px1 = ep_bytes 0 demo_reg @ len_frame payload \<and>
    svc_onRequest fields_codec (Echo_onRpcRequest demo_echo (EchoServiceImp_Echo 10)) (conn_of new_Socket) payload
      \<lparr>es_count = 6, es_lastTime = 0, es_reports = []\<rparr> = Some ([NetSend (conn_id (conn_of new_Socket)) (len_frame answer)], st') \<and>
    counted st' = 7 \<and>
    finished (proxy_onPacket fields_codec answer px1) = finished demo_reg @ [5] \<and> rm_back (px_msgs (proxy_onPacket fields_codec answer px1) 5) \<and>
    decodeResponse (ParseFromString (ec_Ack demo_echo)) (px_msgs (proxy_onPacket fields_codec answer px1) 5) = Some (0, Some \<lparr>ea_msg = Some ''Hello''\<rparr>)"
proof -
  have "counted \<lparr>es_count = 6, es_lastTime = 0, es_reports = []\<rparr> + 1 = 7" "get_msg \<lparr>eq_msg = Some ''Hello''\<rparr> = ''Hello''"
    by (simp_all add: counted_def get_msg_def)
  note e = echo_call_returns [OF fields_codec_ok demo_echo_ok demo_reg_chan(3,1,2), where req = "\<lparr>eq_msg = Some ''Hello''\<rparr>" and
      m = 5 and now = 10 and conn = "conn_of new_Socket" and st = "\<lparr>es_count = 6, es_lastTime = 0, es_reports = []\<rparr>", unfolded this]
  show ?thesis
    by (rule e) (simp_all add: demo_reg_def demo_call_simps demo_echo_def demo_echo_field_def)
qed

section \<open>A listening service\<close>

text \<open>C10: whatever sequence of accepts, packets, closes and ticks a listener sees, a
  connection is under at most one of the two idle checks, only open connections are, and every open
  connection is under one or the loop has been told to close it.\<close>

theorem listener_watches:
  assumes "lst_reach (snd (startListen fd l)) l' conns asked"
    and "sl_conList l = tl_new 0" and "sl_timelist l = tl_new 0"
  shows "tl_keys (sl_conList l') \<inter> tl_keys (sl_timelist l') = {} \<and>
    tl_keys (sl_conList l') \<union> tl_keys (sl_timelist l') \<subseteq> conns \<and>
    conns \<subseteq> tl_keys (sl_conList l') \<union> tl_keys (sl_timelist l') \<union> asked"
proof -
  have "lists_ok (snd (startListen fd l))" "tl_keys (sl_conList (snd (startListen fd l))) = {}"
    "tl_keys (sl_timelist (snd (startListen fd l))) = {}"
    using assms(2,3) by (simp_all add: lists_ok_def startListen_def tl_setTimeout_def tl_setFunction_def tl_wf_def tl_abs_def tl_new_def sm_wf_def)
  from lst_watched [OF assms(1) this] show ?thesis by (simp add: watched_def)
qed

definition demo_sock :: "u32 \<Rightarrow> Socket" where
  "demo_sock i = new_Socket\<lparr>s_id := i\<rparr>"

theorem listener_watches_witness:
  "let l' = fst (sl_onPacket 2 (demo_sock 7) ''a'' (fst (sl_onAccept 1 (demo_sock 7) demo_listener))) in
    7 \<in> tl_keys (sl_conList l') \<union> tl_keys (sl_timelist l')"
proof -
  let ?l0 = "\<lparr>sl_inLoop = False, sl_name = ''c'', sl_ip = ''h'', sl_port = 9, sl_config = demo_config,
     sl_queue = [], sl_conList = tl_new 0, sl_timelist = tl_new 0, sl_lastHeartBeatSec = 0\<rparr>"
  let ?l1 = "fst (sl_onAccept 1 (demo_sock 7) demo_listener)" and ?l2 = "fst (sl_onPacket 2 (demo_sock 7) ''a'' (fst (sl_onAccept 1 (demo_sock 7) demo_listener)))"
  have a: "lst_reach demo_listener ?l1 (insert (s_id (demo_sock 7)) {}) ({} \<union> closes_in [])"
    by (rule lst_reach.accept [OF lst_reach.start, where now = 1])
      (simp_all add: sl_onAccept_def demo_listener_simps Let_def tl_size_def tl_new_def)
  have "lst_reach demo_listener ?l2 (insert (s_id (demo_sock 7)) {}) ({} \<union> closes_in [] \<union> closes_in [])"
    by (rule lst_reach.packet [where now = 2 and data = "''a''" and s = "demo_sock 7", OF a])
      (simp_all add: sl_onPacket_def sl_onAccept_def demo_listener_simps Let_def lq_size_def lq_push_back_def tl_size_def tl_new_def)
  from listener_watches [OF this [unfolded demo_listener_def]] show ?thesis
    by (simp add: closes_in_def Let_def demo_listener_def demo_sock_def)
qed





section \<open>Configuration files\<close>

text \<open>C17: a configuration whose names and values fit on a line is read back from its
  printed form, whatever the nesting and the order of its items.\<close>

theorem config_print_parse:
  assumes "cfg_wf c" and "printable c"
  shows "parseString (toString n c) (new_CConfig (m_sNodeName c)) = (Inr (), c)"
  using assms by (rule parse_toString)

definition demo_cfg :: CConfig where
  "demo_cfg = CConfig [] [''log'', ''srv''] [(''log'', ''a b'')]
     [(''srv'', CConfig ''srv'' [''port''] [(''port'', ''80'')] [])]"

lemma demo_cfg_ok: "cfg_wf demo_cfg" "printable demo_cfg"
  by (code_simp, code_simp)

theorem config_print_parse_witness:
  "parseString (toString 0 demo_cfg) (new_CConfig []) = (Inr (), demo_cfg)"
  using config_print_parse [OF demo_cfg_ok, of 0] by (simp add: demo_cfg_def)

text \<open>C22: parsing keeps the tree well formed, on every input and also where it throws: the
  items of a node are its keys and sections, each once, no name is both, and a section's node has the
  section's name.\<close>

theorem config_typed: "cfg_wf cfg \<Longrightarrow> cfg_wf (snd (parseString s cfg))"
  by (rule parseString_wf)

theorem config_typed_witness: "cfg_wf (snd (parseString ''<a>'' demo_cfg))"
  by (rule config_typed [OF demo_cfg_ok(1)])

text \<open>\<open>joinConfig\<close> clears the node before it prints it, so joining replaces the
  configuration by the other one instead of merging the two.\<close>

theorem config_join_forgets:
  assumes "cfg_wf config" and "printable config" and "m_sNodeName config = m_sNodeName cfg"
  shows "joinConfig config cfg = (Inr (), config)"
  using assms by (rule joinConfig_forgets)

theorem config_join_forgets_witness: "joinConfig demo_cfg (CConfig [] [''k''] [(''k'', ''v'')] []) = (Inr (), demo_cfg)"
  by (rule config_join_forgets [OF demo_cfg_ok]) (simp add: demo_cfg_def)

section \<open>Timers\<close>

text \<open>C16: the multimap, the hash map and the shared nodes of \<open>Timer\<close> implement a table
  from ids to deadlines: over any sequence of additions, removals and updates they call the same
  callbacks, those of the entries that are due, drop the ones that fire once and file the others again.\<close>

theorem timers_refine_table:
  assumes "length xs < 2 ^ 32" and "tm_run xs new_Timer = (fs, t)"
  shows "table_run xs (0, Map.empty) = (fs, m_id t, tabs t)"
proof -
  have "tabs new_Timer = Map.empty" "m_id new_Timer = 0" by (auto simp: tabs_def new_Timer_def sm_find_def)
  with timer_refines_table [OF new_Timer_ok _ _ assms(2)] assms(1) show ?thesis by simp
qed

theorem timers_refine_table_witness:
  "\<exists>t. tm_run [TmAdd 0 5 1 True, TmAdd 0 9 2 False, TmUpdate 6, TmDel 1, TmUpdate 20] new_Timer = ([{#}, {#}, {#1#}, {#}, {#1#}], t) \<and>
    table_run [TmAdd 0 5 1 True, TmAdd 0 9 2 False, TmUpdate 6, TmDel 1, TmUpdate 20] (0, Map.empty) =
      ([{#}, {#}, {#1#}, {#}, {#1#}], m_id t, tabs t)"
proof -
  let ?xs = "[TmAdd 0 5 1 True, TmAdd 0 9 2 False, TmUpdate 6, TmDel 1, TmUpdate 20]"
  obtain fs t where r: "tm_run ?xs new_Timer = (fs, t)" by (cases "tm_run ?xs new_Timer")
  have "fs = fst (tm_run ?xs new_Timer)" by (simp only: r fst_conv)
  also have "\<dots> = [{#}, {#}, {#1#}, {#}, {#1#}]" by code_simp
  finally have fs: "fs = [{#}, {#}, {#1#}, {#}, {#1#}]" .
  from timers_refine_table [OF _ r] r show ?thesis by (auto simp: fs)
qed

section \<open>The log\<close>



definition demo_disk :: Disk where
  "demo_disk = \<lparr>d_files = \<lambda>p. None, d_denied = \<lambda>p. False, d_dirs = \<lambda>p. False, d_cwd = None, d_home = None\<rparr>"








section \<open>The manager of the proxies\<close>

text \<open>C9: over any run of a server's threads, the asynchronous requests that a proxy
  hands to the main thread are dispatched there once each and in order.\<close>

theorem callbacks_dispatched:
  assumes "pm_run R C isa es (new_ServiceProxyManager now upd) = Some pm" and "pm_store pm p = Some ob"
  shows "map snd (filter (\<lambda>x. fst x = p) (pm_dispatched (updateInMainLoop pm))) = pushed_of (px_out (po_proxy ob)) \<and>
    m_messages (updateInMainLoop pm) = []"
  using pm_queue_ok [OF pm_run_ok [OF new_manager_ok assms(1)] assms(2)] by simp

definition demo_query :: registry_query where
  "demo_query a b c d = Inl (-1)"

definition demo_push :: "unit pm_event list" where
  "demo_push = [GetProxy () demo_query 1 0 ''e@'' [], OnProxy 1 0 0 (OpInvoke 5 (newRequest InvokeType_Async (Some 7) False 2))]"

theorem callbacks_dispatched_witness:
  "\<exists>pm ob. pm_run demo_registry demo_codec (=) demo_push (new_ServiceProxyManager 0 60) = Some pm \<and> pm_store pm 0 = Some ob \<and>
    pushed_of (px_out (po_proxy ob)) = [5] \<and>
    map snd (filter (\<lambda>x. fst x = 0) (pm_dispatched (updateInMainLoop pm))) = [5] \<and> m_messages (updateInMainLoop pm) = []"
proof -
  have split: "find_char ''e@'' (CHR ''@'') 0 = Some 1" "splitString [] '':'' True = []" by code_simp+
  obtain b where b: "Len_encode_msg 1 (Some ''q'') = Some (Some b)" using Len_encode_msg_ok [of "''q''"] by auto
  let ?px = "(new_ServiceProxy 1 0)\<lparr>m_setName := [], m_needLocator := False, m_name := ''eProxy''\<rparr>"
  let ?pm0 = "new_ServiceProxyManager 0 60 :: unit ServiceProxyManager"
  let ?pm1 = "?pm0\<lparr>m_proxys := [(''e@'', 0)], pm_store := [0 \<mapsto> \<lparr>po_class = (), po_proxy = ?px\<rparr>], pm_fresh := 1\<rparr>"
  let ?msg = "newRequest InvokeType_Async (Some 7) False 2"
  have "parseFromString demo_query ''e@'' [] (new_ServiceProxy 1 0) = (True, ?px)"
    by (simp add: parseFromString_def split Let_def)
  then have 1: "pm_apply demo_registry demo_codec (=) (GetProxy () demo_query 1 0 ''e@'' []) ?pm0 = Some ?pm1"
    by (simp add: stringToProxy_def stp_lookup_def new_ServiceProxyManager_def sm_find_def stp_parse_def asks_registry_def split(1))
  have "map_option px_out (px_apply demo_codec (OpInvoke 5 ?msg) (?px\<lparr>px_now := 0, px_tid := 1\<rparr>)) = Some [PushMessage 5]"
    by (simp add: doInvoke_def Let_def set_msg_def demo_codec_def b newRequest_def selectEndPoint_def set_status_def finishInvoke_def
        emit_def new_ServiceProxy_def)
  then obtain px where 2: "px_apply demo_codec (OpInvoke 5 ?msg) (?px\<lparr>px_now := 0, px_tid := 1\<rparr>) = Some px" "px_out px = [PushMessage 5]"
    by (auto simp del: px_apply.simps)
  have "\<exists>pm ob. pm_run demo_registry demo_codec (=) demo_push (new_ServiceProxyManager 0 60) = Some pm \<and> pm_store pm 0 = Some ob \<and>
    pushed_of (px_out (po_proxy ob)) = [5]"
    using 2 unfolding demo_push_def pm_run.simps 1
    by (simp add: with_proxy_def fold_pushMessage Let_def new_ServiceProxy_def del: px_apply.simps)
  then obtain pm ob where r: "pm_run demo_registry demo_codec (=) demo_push (new_ServiceProxyManager 0 60) = Some pm"
    "pm_store pm 0 = Some ob" "pushed_of (px_out (po_proxy ob)) = [5]" by blast
  from callbacks_dispatched [OF r(1,2)] r show ?thesis by auto
qed

section \<open>The server\<close>




definition no_ServerConfig :: ServerConfig where
  "no_ServerConfig = \<lparr>cf_appName = [], cf_serverName = [], cf_setName = [], pidFileName = [], logPath = [], logNum = 0, logSize = 0,
     logLevel = LogLevel_Debug, logSync = False, services = []\<rparr>"

definition demo_logs :: "(string \<Rightarrow> string option) \<Rightarrow> LogManager" where
  "demo_logs files = \<lparr>g_logPath = ''.'', g_logPrefix = [], g_syncLog = True, g_stdOut = False, g_logExit = False, g_logList = [],
     g_logs = [], g_level = LogLevel_Debug, g_stormLevel = LogLevel_Debug, g_disk = demo_disk\<lparr>d_files := files\<rparr>, g_cout = []\<rparr>"

definition demo_server :: "(string \<Rightarrow> string option) \<Rightarrow> unit StormServer" where
  "demo_server files = new_StormServer 0 60 no_ServerConfig \<lparr>connectTimeOut = 0, asyncThreadNum = 0\<rparr> (demo_logs files)"


text \<open>C12: a run that ends normally starts the services after the network thread, destroys
  every service it started, in the same order, and only then joins the network thread; at the end the
  process file is gone.\<close>

theorem server_run_order:
  assumes "\<And>s. same_services s (en_mainLoop E s)" and "run_server E s = Some (RunReturned 0, evs, s')"
  shows "(\<exists>up down. evs = PidSaved # NetStarted # up @ down @ [NetJoined, LogFinished, PidRemoved] \<and> started up = destroyed down \<and>
      destroyed up = [] \<and> started down = []) \<and>
    \<not> isFileExists disk_os (pidFileName (m_serverCfg s')) (sv_disk s')"
  using run_ok [OF assms] by blast

definition demo_config_text :: string where
  "demo_config_text = concat [''<server>'', [CHR 0x0A], ''app=a'', [CHR 0x0A], ''server=s'', [CHR 0x0A], ''</server>'', [CHR 0x0A],
     ''<client>'', [CHR 0x0A], ''</client>'', [CHR 0x0A]]"

definition demo_main_service :: ServiceConfig where
  "demo_main_service = \<lparr>sc_runThread = RunThread_Main, sc_name = ''S'', sc_host = ''h'', sc_port = 80, threadNum = 1, maxConnections = 9,
     maxQueueLen = 9, keepAliveTime = 60, emptyConnTimeOut = 10, queueTimeout = 60\<rparr>"

definition demo_run_env :: "unit environment" where
  "demo_run_env = \<lparr>en_argv0 = ''./s'', en_options = [Opt_f ''c''], en_pid = 7, en_kill = \<lambda>p. (0, 0), en_gone = \<lambda>i. True, en_isa = (=),
     en_registryClass = (), en_query = demo_query, en_tid = 1, en_now = 0, en_init = \<lambda>s. Inr (True, addService_cfg demo_main_service None s),
     en_listen = \<lambda>ip port. 0, en_mainLoop = \<lambda>s. s, en_stopped = \<lambda>i. i = 2, en_netRunning = \<lambda>i. i = 1\<rparr>"

lemma demo_parse:
  "parseString demo_config_text (new_CConfig []) = (Inr (), CConfig [] [''server'', ''client''] []
     [(''client'', CConfig ''client'' [] [] []),
      (''server'', CConfig ''server'' [''app'', ''server''] [(''app'', ''a''), (''server'', ''s'')] [])])"
  by code_simp

lemma demo_config_read:
  defines "s0 \<equiv> (demo_server [''c'' \<mapsto> demo_config_text])"
  shows "\<exists>s1. parseConfig demo_run_env (s0\<lparr>m_netTimer := t\<rparr>) = Some (Inr s1) \<and> m_option s1 = \<lparr>m_stop = False, m_daemon = False, m_configFile = ''c''\<rparr> \<and>
    m_listeners s1 = [] \<and> m_mainThreadServices s1 = [] \<and> m_extraThreadServices s1 = [] \<and> sv_log s1 = sv_log s0 \<and>
    pidFileName (m_serverCfg s1) = ''s.pid'' \<and> sv_fresh s1 = 0"
proof -
  let ?svr = "CConfig ''server'' [''app'', ''server''] [(''app'', ''a''), (''server'', ''s'')] []"
  let ?cfg = "CConfig [] [''server'', ''client''] [] [(''client'', CConfig ''client'' [] [] []), (''server'', ?svr)]"
  have "getSubConfig ''server'' ?cfg = Inr ?svr" "getSubConfig ''client'' ?cfg = Inr (CConfig ''client'' [] [] [])"
    "hasConfigKey ''registry'' (CConfig ''client'' [] [] []) = False" "getCfg ''app'' ?svr = Inr ''a''" "getCfg ''server'' ?svr = Inr ''s''"
    by code_simp+
  then show ?thesis
    by (simp add: parseConfig_def demo_run_env_def s0_def demo_server_def new_StormServer_def new_COption_def parseFile_def loadFromFile_def
        disk_os_def demo_logs_def demo_disk_def d_text_def demo_parse parseServerConfig_def no_ServerConfig_def parseClientConfig_def Let_def)
qed

theorem server_run_order_witness:
  "\<exists>evs s'. run_server demo_run_env (demo_server [''c'' \<mapsto> demo_config_text]) = Some (RunReturned 0, evs, s') \<and> started evs = [0] \<and>
    (\<exists>up down. evs = PidSaved # NetStarted # up @ down @ [NetJoined, LogFinished, PidRemoved] \<and> started up = destroyed down) \<and>
    \<not> isFileExists disk_os (pidFileName (m_serverCfg s')) (sv_disk s')"
proof -
  let ?s0 = "demo_server [''c'' \<mapsto> demo_config_text]"
  have hook: "same_services s (en_mainLoop demo_run_env s)" for s by (simp add: demo_run_env_def same_services_def)
  obtain s1 where 1: "parseConfig demo_run_env (?s0\<lparr>m_netTimer := snd (addTimer 0 500 0 True (m_netTimer ?s0))\<rparr>) = Some (Inr s1)"
    "m_option s1 = \<lparr>m_stop = False, m_daemon = False, m_configFile = ''c''\<rparr>" "m_listeners s1 = []"
    "m_mainThreadServices s1 = []" "m_extraThreadServices s1 = []" "sv_log s1 = sv_log ?s0" "pidFileName (m_serverCfg s1) = ''s.pid''"
    "sv_fresh s1 = 0"
    using demo_config_read by blast
  let ?s2 = "s1\<lparr>sv_log := setLogStdOut True (sv_log s1)\<rparr>"
  have 2: "killOldProcess (en_kill demo_run_env) (en_gone demo_run_env) ?s2 = Some ([], ?s2)"
    by (simp add: killOldProcess_def 1 loadFromFile_def disk_os_def d_text_def demo_server_def new_StormServer_def demo_logs_def
        demo_disk_def setLogStdOut_def)
  let ?s4 = "savePidFile 7 (startLog ?s2)"
  have 4: "m_option ?s4 = m_option s1" "m_listeners ?s4 = []" "m_mainThreadServices ?s4 = []" "m_extraThreadServices ?s4 = []"
    "sv_fresh ?s4 = 0"
    by (simp_all add: savePidFile_def set_disk_def startLog_def Let_def 1)
  let ?s5 = "addService_cfg demo_main_service None ?s4"
  have 5: "m_listeners ?s5 = [(''S'', new_StormListener demo_main_service)]" "m_mainThreadServices ?s5 = [0]" "m_extraThreadServices ?s5 = []"
    "m_option ?s5 = m_option s1"
    using 4 by (simp_all add: addService_cfg_def demo_main_service_def service_num_def new_service_def Let_def sm_find_def update_listener_def
        new_StormListener_def)
  have n: "until (\<lambda>i. i = 2) 0 = Some 2" "netEntry (\<lambda>i. i = 1) \<noteq> None"
    by (simp add: until.simps [of _ 0] until.simps [of _ "Suc 0"] until.simps [of _ 2] numeral_2_eq_2 until.simps [of _ "Suc (Suc 0)"],
        use netEntry_returns [of "\<lambda>i. i = 1"] in auto)
  let ?s6 = "if \<not> logSync (m_serverCfg ?s5) then ?s5\<lparr>sv_log := setLogSync False (sv_log ?s5)\<rparr> else ?s5"
  have 6: "m_listeners ?s6 = [(''S'', new_StormListener demo_main_service)]" "m_mainThreadServices ?s6 = [0]" "m_extraThreadServices ?s6 = []"
    "m_option ?s6 = m_option s1" using 5 by simp_all
  obtain s7 where 7: "startListener (\<lambda>ip port. 0) ?s6 = (True, s7)" "m_mainThreadServices s7 = [0]" "m_extraThreadServices s7 = []"
    "m_option s7 = m_option s1"
    using 6 by (simp add: startListener_def startListen_def sm_find_def)
  obtain em s8 where 8: "main_rounds (\<lambda>s. s) 2 s7 = (em, s8)" by (cases "main_rounds (\<lambda>s. s) 2 s7")
  have em: "started em = []"
    using main_rounds_same [OF _ 8] by (simp add: same_services_def)
  obtain net where net: "netEntry (\<lambda>i. i = 1) = Some net" using n(2) by auto
  have "\<exists>evs s'. run_started demo_run_env ?s4 = Some (RunReturned 0, evs, s') \<and> started evs = [0]"
    by (simp only: run_started_def demo_run_env_def environment.simps sum.case prod.case bool.case Let_def 7 mainEntry_def n(1) option.map 8
        net bind.simps)
      (simp add: 7(2-4) 1(2) started_startService no_events em)
  then obtain evs s' where r: "run_started demo_run_env ?s4 = Some (RunReturned 0, evs, s')" and e: "started evs = [0]" by blast
  have 3: "\<not> m_stop (m_option (startLog ?s2))" by (simp add: startLog_def Let_def 1(2))
  have run: "run_server demo_run_env ?s0 = Some (RunReturned 0, PidSaved # NetStarted # evs, s')"
    unfolding run_server_def Let_def using 1(1,2) 2 3 r
    by (simp add: demo_run_env_def)
  from server_run_order [OF hook run] run e show ?thesis by auto
qed

text \<open>C25: the network thread ends if and only if it reads \<open>g_netRunning\<close> once as set and
  later as cleared; a flag that is set and cleared between two reads is missed, and the join never returns.\<close>

theorem net_thread_ends: "netEntry flag \<noteq> None \<longleftrightarrow> (\<exists>i j. i < j \<and> flag i \<and> \<not> flag j)"
  by (rule netEntry_returns)

text \<open>C24: the main thread leaves its loop exactly when a signal is caught between the entry of the loop and
  one of its tests; signals that came between the installation of the handler and the entry do not count.\<close>

theorem main_loop_left:
  assumes "main_run (replicate n CatchSignal @ EnterMain # evs) (BeforeMain, no_flags) = Some (p, f)"
  shows "p = AfterMain \<longleftrightarrow> (\<exists>us vs. evs = us @ CatchSignal # vs \<and> TestRunning \<in> set vs)"
  by (rule signal_before_loop_lost [OF assms])

theorem main_loop_left_witness:
  "main_run [CatchSignal, EnterMain, TestRunning, TestRunning] (BeforeMain, no_flags) = Some (AtTest, \<lparr>g_running = True, g_netRunning = False\<rparr>) \<and>
    \<not> (\<exists>us vs. [TestRunning, TestRunning] = us @ CatchSignal # vs \<and> TestRunning \<in> set vs)"
proof -
  have r: "main_run (replicate 1 CatchSignal @ EnterMain # [TestRunning, TestRunning]) (BeforeMain, no_flags) =
      Some (AtTest, \<lparr>g_running = True, g_netRunning = False\<rparr>)"
    by (simp add: main_exec_def no_flags_def sighandler_def)
  from main_loop_left [OF r] r show ?thesis by simp
qed

section \<open>The generator of stubs\<close>


section \<open>Paths\<close>





section \<open>The registry\<close>


definition demo_sm :: "unit ServiceManager" where
  "demo_sm = \<lparr>m_services = [], m_newServices = [], m_updateServices = [], m_allService = {}, m_updateSec = 0,
     m_reloadSec = 0, m_mysql = new_MySqlConn new_DBConfig (), m_tblName = ''t_storm''\<rparr>"

definition demo_info :: ServiceInfo where
  "demo_info = \<lparr>app_name = ''ab'', server_name = ''c'', service_name = ''d'', set_name = [], info_ip = ''h'', info_port = 80\<rparr>"


text \<open>The key of the service table is the concatenation of the four names, so a
  service shows up in the answers for every other service whose names concatenate to the same string.\<close>

theorem registry_key_collision:
  assumes "isNewService (info_ip req) (info_port req) sm"
    and "a @ s @ v @ t = app_name req @ server_name req @ service_name req @ set_name req"
  shows "(info_ip req, info_port req) \<in> set (Query a s v t (heartBeat req now sm))"
proof -
  have "Query a s v t sm' = Query (app_name req) (server_name req) (service_name req) (set_name req) sm'"
    for sm' :: "'a ServiceManager"
    using assms(2) by (simp add: Query_def getService_def getKey_def)
  with Query_after_heartBeat [OF disjI1 [OF assms(1)]] show ?thesis by metis
qed

theorem registry_key_collision_witness: "(''h'', 80) \<in> set (Query ''a'' ''bc'' ''d'' [] (heartBeat demo_info 5 demo_sm))"
  using registry_key_collision [of demo_info demo_sm "''a''" "''bc''" "''d''" "[]" 5]
  by (simp add: isNewService_def demo_sm_def demo_info_def)

text \<open>A heart beat does not mark its address as known, so until the next reload
  each further one of a new service lists it, and queues its row for insertion, once more.\<close>

theorem heartbeats_duplicate:
  assumes "isNewService (info_ip req) (info_port req) sm"
  shows "let sm2 = heartBeat req t2 (heartBeat req t1 sm) in
    getService (app_name req) (server_name req) (service_name req) (set_name req) sm2 =
      getService (app_name req) (server_name req) (service_name req) (set_name req) sm @ [new_ep req t1, new_ep req t2] \<and>
    m_newServices sm2 = m_newServices sm @ [new_ep req t1, new_ep req t2]"
  using heartBeat_again [OF assms, of t2 t1] by (simp add: Let_def getService_at req_key_def)

theorem heartbeats_duplicate_witness:
  "Query ''ab'' ''c'' ''d'' [] (heartBeat demo_info 6 (heartBeat demo_info 5 demo_sm)) = [(''h'', 80), (''h'', 80)]"
  using heartbeats_duplicate [of demo_info demo_sm 6 5]
  by (simp add: isNewService_def demo_sm_def demo_info_def Let_def Query_def getService_at at_key_def sm_find_def new_ep_def)

text \<open>Loading replaces the table by the rows of the database: a query answers
  with the rows of its key whose heart beat is recent enough, in the order of the result set, and
  exactly the loaded addresses count as known.\<close>

theorem registry_loads_table:
  assumes "sql_select (re_mysql E) (m_tblName sm) ''*'' [] (m_mysql sm) = (Inr res, c)" and "m_iRows res \<noteq> 0"
  shows "let sm' = loadFromDB E now sm; rows = map (load_row E now res) [0..<m_iRows res] in
    Query a s v t sm' =
      map (\<lambda>ep. (ep_ip ep, ep_port ep)) (filter (\<lambda>ep. active ep \<and> ep_key ep = getKey a s v t) rows) \<and>
    (\<forall>ip port. isNewService ip port sm' = (ipPort ip port \<notin> (\<lambda>ep. ipPort (ep_ip ep) (ep_port ep)) ` set rows))"
  using loadFromDB_ok(1) [OF assms, of "getKey a s v t" now] loadFromDB_ok(2) [OF assms, of now]
  by (simp add: Let_def Query_def getService_at isNewService_def conj_commute)

definition demo_escape :: "string \<Rightarrow> string" where
  "demo_escape s = concat (map (\<lambda>c. if c = CHR 0x00 then [CHR 0x5C, CHR ''0'']
     else if c = CHR 0x27 \<or> c = CHR 0x5C then [CHR 0x5C, c] else [c]) s)"

definition demo_env :: "unit reg_env" where
  "demo_env = \<lparr>re_mysql = \<lparr>my_init = \<lambda>_. True, my_open = \<lambda>_ _. (Inr (), ()), my_query = \<lambda>_ _. (Inr (), ()),
       my_store = \<lambda>_. Inr (Some ([''port''], [[Some ''80'']])), my_affected = \<lambda>_. 1, my_escape = demo_escape\<rparr>,
     re_config = \<lparr>dbConfig = new_DBConfig, reloadInterval = 10, activeInterval = 60, updateInterval = 5\<rparr>,
     parseTime = \<lambda>_. 0, formatTime = \<lambda>_. []\<rparr>"

lemma number_80: "strto_u32 ''80'' = 80"
proof -
  have "tostr_u32 80 = ''80''" by code_simp
  then show ?thesis using strto_u32_tostr [of 80] by simp
qed

theorem registry_loads_table_witness:
  "Query [] [] [] [] (loadFromDB demo_env 30 demo_sm) = [([], 80)]"
proof -
  let ?r = "new_MySqlResult (Some ([''port''], [[Some ''80'']]))"
  let ?c = "(m_mysql demo_sm)\<lparr>c_handle := True, m_bConnected := True\<rparr>"
  have "sql_select (re_mysql demo_env) (m_tblName demo_sm) ''*'' [] (m_mysql demo_sm) = (Inr ?r, ?c)"
    by (simp add: demo_env_def demo_sm_def sql_select_def sql_where_def query_def execute_def ensure_def connect_def
        disconnect_def new_MySqlConn_def est_bind_def est_return_def Let_def)
  moreover have "m_iRows ?r = 1" by (simp add: new_MySqlResult_def)
  moreover have "load_row demo_env 30 ?r 0 =
      \<lparr>appName = [], serverName = [], serviceName = [], setName = [], ep_ip = [], ep_port = 80, heartBeatTime = 0, active = True\<rparr>"
    using number_80 by (simp add: sm_find_def load_row_def res_get_name_def res_get_u32_def res_get_def new_MySqlResult_def demo_env_def Let_def)
  ultimately show ?thesis
    using conjunct1 [OF registry_loads_table [unfolded Let_def], of demo_env demo_sm ?r ?c "[]" "[]" "[]" "[]" 30]
    by (simp add: ep_key_def getKey_def)
qed

text \<open>C34: the statement \<open>insert\<close> sends carries exactly the values it was given: a
  server that reads the literals gets each value back, whatever quotes or backslashes it contains,
  so no value reaches beyond its literal.\<close>

theorem sql_values_read_back:
  assumes "m_bConnected c" and "escapes_ok M" and "list_all pair_ok ps" and "ps \<noteq> []"
  shows "\<exists>vals. sql_insert M t ps c =
      run_counted M (''insert into '' @ t @ ''('' @ sep_concat '','' (map p_key ps) @ '') values('' @ vals) c \<and>
    read_values (map p_type ps) vals = Some (map p_value ps, [])"
  using sql_insert_text [OF assms(1), of M t ps] read_values_back [OF assms(2-4), of "[]"]
  by (auto simp: insert_text_def)

lemma demo_escapes: "escapes_ok (re_mysql demo_env)"
proof -
  have "read_literal (demo_escape s @ quote @ rest) = Some (s, rest)" for s rest
    by (induction s) (auto simp: demo_escape_def quote_def unescape_char_def)
  moreover have "CHR 0x00 \<notin> set (demo_escape s)" for s by (auto simp: demo_escape_def split: if_splits)
  ultimately show ?thesis by (simp add: escapes_ok_def demo_env_def)
qed

theorem sql_values_read_back_witness:
  "\<exists>vals. sql_insert (re_mysql demo_env) ''t'' [SqlPair_str ''ip'' [CHR ''x'', CHR 0x27], SqlPair_int ''port'' 80]
      ((new_MySqlConn new_DBConfig ())\<lparr>m_bConnected := True\<rparr>) =
      run_counted (re_mysql demo_env) (''insert into '' @ ''t'' @ ''('' @
        sep_concat '','' (map p_key [SqlPair_str ''ip'' [CHR ''x'', CHR 0x27], SqlPair_int ''port'' 80]) @ '') values('' @ vals)
        ((new_MySqlConn new_DBConfig ())\<lparr>m_bConnected := True\<rparr>) \<and>
    read_values (map p_type [SqlPair_str ''ip'' [CHR ''x'', CHR 0x27], SqlPair_int ''port'' 80]) vals =
      Some (map p_value [SqlPair_str ''ip'' [CHR ''x'', CHR 0x27], SqlPair_int ''port'' 80], [])"
  by (rule sql_values_read_back)
    (simp_all add: demo_escapes pair_ok_def SqlPair_str_def SqlPair_int_def tostr_u32_def is_digit_of_isdigit dec_digits_digits)

section \<open>Strings and encodings\<close>

text \<open>C38: every decoder undoes its encoder, on every byte string.\<close>

theorem encodings_invert:
  "fromHex (toHex s) = s \<and> c_unescape (c_escape s) = s \<and> urldecode (urlencode s) = s \<and>
   rawurldecode (rawurlencode s) = s"
  by (simp add: fromHex_toHex c_unescape_escape urldecode_encode rawurldecode_encode)

text \<open>A parameter map, whatever its keys and values, is read back from the URL
  query string made of it.\<close>

theorem url_param_roundtrip:
  assumes "sm_wf m"
  shows "splitURLParam (joinURLParam m ''&'' ''='') [] ''&'' ''='' = m"
  using assms by (rule splitURLParam_joinURLParam)

theorem url_param_roundtrip_witness:
  "splitURLParam (joinURLParam [(''a'', ''1&2''), (''b='', '''')] ''&'' ''='') [] ''&'' ''='' =
    [(''a'', ''1&2''), (''b='', '''')]"
  by (rule url_param_roundtrip) code_simp

text \<open>The scanning loop of \<open>splitString\<close> computes the fields between
  separator characters, without the empty ones when \<open>bStrip\<close> is set.\<close>

theorem splitString_is_fields:
  "splitString s sep bStrip = strip bStrip (field_list (\<lambda>c. c \<in> set sep) s)"
  by (rule splitString_fields)

text \<open>Splitting at the separator undoes joining, for non-empty strings without it.\<close>

theorem split_join:
  assumes "c \<in> set sep" and "\<forall>x \<in> set v. x \<noteq> [] \<and> (\<forall>d \<in> set x. d \<notin> set sep)"
  shows "splitString (joinString v [c]) sep True = v"
  using assms by (rule splitString_joinString)

theorem split_join_witness: "splitString (joinString [''ab'', ''c'', ''de''] '','') '',;'' True = [''ab'', ''c'', ''de'']"
  by (rule split_join) auto

text \<open>\<open>replace\<close> substitutes the leftmost non-overlapping occurrences, and leaves
  the string alone when the pattern is empty.\<close>

theorem replace_leftmost: "replace s from to = (if from = [] then s else subst_all from to s)"
  by (rule replace_subst)

text \<open>\<open>trim\<close> removes exactly the white space at both ends.\<close>

theorem trim_spec: "trim s = rev (dropWhile isspace (rev (dropWhile isspace s))) \<and> trimmed (trim s)"
  using trim_ref trimmed_trim by blast

text \<open>An unsigned number printed in decimal is read back.\<close>

theorem number_roundtrip: "strto_u32 (tostr_u32 n) = n"
  by (rule strto_u32_tostr)

section \<open>Threads, listening sockets, and the registry program\<close>

text \<open>C13: \<open>LockQueue\<close> under every interleaving of its callers, down to the calls of mutex and
  condition variable, with time-outs and spurious wake-ups: what was taken followed by what is left is what was
  put in, in order; at most one thread is inside; and, unless a \<open>swap\<close> puts elements in, while a thread sleeps there
  is a woken thread for every element left, so no wake-up is lost.\<close>

theorem lock_queue_safe:
  assumes "lq_run es lq_start = Some s"
  shows "lq_taken s @ lq_list s = lq_pushed s \<and>
    (\<forall>i j. lq_inside (lq_pc s i) \<and> lq_inside (lq_pc s j) \<longrightarrow> i = j) \<and>
    (list_all lq_empties es \<and> lq_asleep s \<noteq> [] \<longrightarrow> length (lq_list s) \<le> card (lq_awake s))"
  using lq_run_queue [OF assms] by blast

text \<open>Two sleepers and one element: the signal has woken the first.\<close>

definition demo_lq_events :: "(nat, nat) lq_event list" where
  "demo_lq_events = [Enter 1 (C_pop_front (- 1)), Go 1 0, Enter 3 (C_pop_front 50), Go 3 0, Enter 2 (C_push_back 7), Go 2 0]"

theorem lock_queue_safe_witness:
  "\<exists>s. lq_run demo_lq_events lq_start = Some s \<and> lq_list s = [7] \<and> lq_asleep s = [3] \<and> 1 \<le> card (lq_awake s)"
proof -
  obtain s where s: "lq_run demo_lq_events lq_start = Some s" "lq_list s = [7]" "lq_asleep s = [3]"
    by (simp add: demo_lq_events_def lq_start_def lq_at_def lq_leave_def lq_signal_def lq_wake_def)
  moreover have "list_all lq_empties demo_lq_events" by (simp add: demo_lq_events_def)
  ultimately show ?thesis using lock_queue_safe [OF s(1)] by auto
qed

text \<open>C31: \<open>SocketLoop::listen\<close> over \<open>socketListen\<close> leaks no descriptor: whichever system call fails, the
  process has the descriptors it had and the result is -1; otherwise exactly one new descriptor is open, bound to
  the address looked up, listening with the given backlog, and it is either the one a slot in state
  \<open>Listen\<close> owns or, when no slot is free, closed again.\<close>

theorem listener_opened:
  assumes "loop_inv l" and "fresh_fds os s" and "socketListen os ip port backlog s = (r, s')"
    and "k_listen (l_kernel l) = [listen_answer r]" and "loop_listen handler ip port l = (cid, l')"
  shows "r = -1 \<and> s' = s \<and> cid = -1 \<and> k_closed (l_kernel l') = k_closed (l_kernel l) \<or>
    (\<exists>fd ai. r = int fd \<and> ns_open s fd = None \<and> os_getaddrinfo os (bind_host ip) (tostr_int port) = Some ai \<and>
       s' = s\<lparr>ns_open := (ns_open s)(fd \<mapsto> listening_fd os fd (ai_addr ai) backlog)\<rparr> \<and>
       (cid = -1 \<and> k_closed (l_kernel l') = k_closed (l_kernel l) @ [word_of_nat fd] \<or>
        k_closed (l_kernel l') = k_closed (l_kernel l) \<and>
        (\<exists>i < length (m_slot l'). s_id (slot l' i) = cid \<and> s_fd (slot l' i) = word_of_nat fd \<and>
           s_status (slot l' i) = SocketStatus_Listen)))"
  using assms by (rule loop_listen_opened)

definition demo_net :: "bool \<Rightarrow> net_os" where
  "demo_net ok = \<lparr>os_getaddrinfo = \<lambda>h p. Some \<lparr>ai_family = 2, ai_socktype = 1, ai_addr = h @ '':'' @ p\<rparr>, os_socket = \<lambda>f t. Some 9,
     os_reuse = \<lambda>fd. True, os_bind = \<lambda>fd a. True, os_listen = \<lambda>fd n. ok, os_getfl = \<lambda>fd. True, os_setfl = \<lambda>fd. True\<rparr>"

definition demo_proc :: net_state where
  "demo_proc = \<lparr>ns_open = \<lambda>fd. None, ns_lists = 0\<rparr>"

text \<open>A failing \<open>listen\<close> after a socket was bound, and a successful one.\<close>

theorem listener_opened_witness:
  "\<exists>cid l'. loop_listen 0 [] 80 (demo_loop\<lparr>l_kernel := demo_kernel\<lparr>k_listen := [listen_answer 9]\<rparr>\<rparr>) = (cid, l') \<and>
    socketListen (demo_net False) [] 80 5 demo_proc = (-1, demo_proc) \<and>
    (cid = -1 \<and> k_closed (l_kernel l') = [9] \<or>
      (\<exists>i < length (m_slot l'). s_id (slot l' i) = cid \<and> s_fd (slot l' i) = 9 \<and> s_status (slot l' i) = SocketStatus_Listen))"
proof -
  let ?l = "demo_loop\<lparr>l_kernel := demo_kernel\<lparr>k_listen := [listen_answer 9]\<rparr>\<rparr>"
  obtain cid l' where r: "loop_listen 0 [] 80 ?l = (cid, l')" by (cases "loop_listen 0 [] 80 ?l")
  have i: "loop_inv ?l" "fresh_fds (demo_net b) demo_proc" "k_listen (l_kernel ?l) = [listen_answer 9]" for b
    by (simp_all add: loop_inv_def demo_simps sock_clean_def fresh_fds_def demo_proc_def)
  obtain s' where s: "socketListen (demo_net True) [] 80 5 demo_proc = (9, s')"
    by (simp add: socketListen_def socketBind_def bind_block_def demo_net_def Let_def)
  have "socketListen (demo_net False) [] 80 5 demo_proc = (-1, demo_proc)"
    by (simp add: socketListen_def socketBind_def bind_block_def demo_net_def demo_proc_def Let_def socketNonBlock_def close_fd_def
        change_fd_def fun_eq_iff)
  moreover have "k_closed (l_kernel ?l) = []" by (simp add: demo_kernel_def)
  ultimately show ?thesis
    using listener_opened [OF i(1,2) s i(3) r] r by auto
qed

text \<open>C39: the typed templates of \<open>util_string.h\<close>. Vectors of \<open>int32_t\<close> and maps from \<open>uint32_t\<close>
  to \<open>int32_t\<close>, joined with separators that are neither a digit nor a minus sign, are split back into the same
  values.\<close>

theorem typed_values_read_back:
  assumes "\<forall>i \<in> set v. - (2 ^ 31) \<le> i \<and> i < 2 ^ 31" and "sm_wf m" and "\<forall>kx \<in> set m. - (2 ^ 31) \<le> snd kx \<and> snd kx < 2 ^ 31"
    and "\<not> is_number_char c1" and "\<not> is_number_char c2" and "c1 \<noteq> c2"
  shows "splitString_T strto_i32 (joinString_T tostr_int v [c1]) [c1, c2] True = v \<and>
    splitString2_T_map strto_u32 strto_i32 (joinString2_T_map tostr_u32 tostr_int m [c1] [c2]) [c1] [c2] = m"
proof -
  have "\<forall>kv \<in> set m. lexical_u32_i32.valid_pair kv"
    using assms(3) unfolding lexical_u32_i32.valid_pair_def by simp
  from lexical_u32_i32.split2_map_joined [OF assms(4-6) this assms(2)] show ?thesis
    using lexical_i32.split_joined [of c1 "[c1, c2]" v] assms(1,4,5) by simp
qed

theorem typed_values_read_back_witness:
  "splitString_T strto_i32 (joinString_T tostr_int [-5, 0, 70000] '','') '',:'' True = [-5, 0, 70000] \<and>
   splitString2_T_map strto_u32 strto_i32 (joinString2_T_map tostr_u32 tostr_int [(1, -2), (4000000000, 7)] '','' '':'') '','' '':'' =
     [(1, -2), (4000000000, 7)]"
  by (rule typed_values_read_back) (simp_all add: sm_wf_def is_number_char_def is_digit_of_def digit_val_def)


definition demo_registry_text :: string where
  "demo_registry_text = concat [''<server>'', [CHR 0x0A], ''<DB>'', [CHR 0x0A], ''host=h'', [CHR 0x0A], ''user=u'', [CHR 0x0A],
     ''passwd=p'', [CHR 0x0A], ''dbname=d'', [CHR 0x0A], ''</DB>'', [CHR 0x0A], ''</server>'', [CHR 0x0A]]"




definition demo_registry :: "(unit, unit) RegistryServer" where
  "demo_registry = \<lparr>rs_base = (demo_server [''Registry.conf'' \<mapsto> demo_registry_text])\<lparr>m_serverCfg :=
       no_ServerConfig\<lparr>services := [(''RegistryService'', demo_main_service)]\<rparr>\<rparr>,
     rs_config = re_config demo_env, rs_manager = demo_sm\<rparr>"



end
